theory Spec2Isabelle
  imports Complex_Main
begin

section \<open>JavaScript strings\<close>

text \<open>
  A JavaScript string is a sequence of UTF-16 code units. A code unit is an integer here, so
  that the characters outside ASCII that the patterns of the program name (the rupee sign,
  the en dash, the Unicode white space) are single elements, as they are in the program.
  \<open>js\<close> turns an ASCII literal into such a string.
\<close>

type_synonym cu = int
type_synonym jsstring = "cu list"

definition js :: "string \<Rightarrow> jsstring" where
  "js s = map of_char s"

definition is_digit :: "cu \<Rightarrow> bool" where
  "is_digit c = (48 \<le> c \<and> c \<le> 57)"

definition is_upper :: "cu \<Rightarrow> bool" where
  "is_upper c = (65 \<le> c \<and> c \<le> 90)"

definition is_lower :: "cu \<Rightarrow> bool" where
  "is_lower c = (97 \<le> c \<and> c \<le> 122)"

text \<open>The class \<open>\w\<close>, which also decides \<open>\b\<close>.\<close>

definition is_word :: "cu \<Rightarrow> bool" where
  "is_word c = (is_digit c \<or> is_upper c \<or> is_lower c \<or> c = 95)"

text \<open>
  The class \<open>\s\<close>: the white space and the line terminators of ECMAScript. It is also the
  set that \<open>String.prototype.trim\<close> removes.
\<close>

definition is_space :: "cu \<Rightarrow> bool" where
  "is_space c = ((9 \<le> c \<and> c \<le> 13) \<or> c = 32 \<or> c = 160 \<or> c = 5760
     \<or> (8192 \<le> c \<and> c \<le> 8202) \<or> c = 8232 \<or> c = 8233 \<or> c = 8239
     \<or> c = 8287 \<or> c = 12288 \<or> c = 65279)"

definition is_line_terminator :: "cu \<Rightarrow> bool" where
  "is_line_terminator c = (c = 10 \<or> c = 13 \<or> c = 8232 \<or> c = 8233)"

text \<open>
  Case mapping of one code unit, on the ASCII letters. Under the flag \<open>i\<close> (without
  \<open>u\<close>) ECMAScript compares the upper-case forms of two code units and never lets a code
  unit outside ASCII stand for an ASCII one; the patterns of this program contain ASCII
  letters and caseless symbols only, so the ASCII mapping decides every comparison.
\<close>

definition to_lower :: "cu \<Rightarrow> cu" where
  "to_lower c = (if is_upper c then c + 32 else c)"

definition to_upper :: "cu \<Rightarrow> cu" where
  "to_upper c = (if is_lower c then c - 32 else c)"

text \<open>
  \<open>toLowerCase\<close> on a string. Two code units outside ASCII have a lower-case form that
  contains an ASCII letter (the Kelvin sign and the dotted capital I); every other code
  unit outside ASCII stays outside ASCII and is left as it is: the program only tests the
  result against ASCII patterns.
\<close>

fun toLowerCase :: "jsstring \<Rightarrow> jsstring" where
  "toLowerCase [] = []"
| "toLowerCase (c # cs) =
     (if c = 8490 then 107 # toLowerCase cs
      else if c = 304 then 105 # 775 # toLowerCase cs
      else to_lower c # toLowerCase cs)"

text \<open>\<open>toUpperCase\<close> is only applied to text matched by ASCII letter and digit classes.\<close>

definition toUpperCase :: "jsstring \<Rightarrow> jsstring" where
  "toUpperCase s = map to_upper s"

definition trim :: "jsstring \<Rightarrow> jsstring" where
  "trim s = rev (dropWhile is_space (rev (dropWhile is_space s)))"

text \<open>\<open>s.slice(a, b)\<close> for indices within the string.\<close>

definition slice :: "jsstring \<Rightarrow> nat \<Rightarrow> nat \<Rightarrow> jsstring" where
  "slice s a b = take (b - a) (drop a s)"

fun join :: "jsstring \<Rightarrow> jsstring list \<Rightarrow> jsstring" where
  "join sep [] = []"
| "join sep [x] = x"
| "join sep (x # xs) = x @ sep @ join sep xs"

definition startsWith :: "jsstring \<Rightarrow> jsstring \<Rightarrow> bool" where
  "startsWith s t = (take (length t) s = t)"

definition endsWith :: "jsstring \<Rightarrow> jsstring \<Rightarrow> bool" where
  "endsWith s t = (length t \<le> length s \<and> drop (length s - length t) s = t)"

fun findIndex :: "('a \<Rightarrow> bool) \<Rightarrow> 'a list \<Rightarrow> nat option" where
  "findIndex P [] = None"
| "findIndex P (x # xs) =
     (if P x then Some 0 else (case findIndex P xs of None \<Rightarrow> None | Some i \<Rightarrow> Some (Suc i)))"

section \<open>Regular expressions\<close>

text \<open>
  The patterns of the program use literals, classes, negated classes, sequence,
  alternation, greedy quantifiers, capturing groups, one lookahead, \<open>\b\<close>, \<open>^\<close> and
  \<open>$\<close>. \<open>Rep m n r\<close> is \<open>r{m,n}\<close>, with \<open>None\<close> for no upper bound.
\<close>

datatype regex =
    Lit cu
  | Cls "cu \<Rightarrow> bool"
  | NCls "cu \<Rightarrow> bool"
  | Eps
  | Seq regex regex
  | Alt regex regex
  | Rep nat "nat option" regex
  | Grp nat regex
  | Look regex
  | WordB
  | Bol
  | Eol

type_synonym caps = "(nat \<times> jsstring) list"

text \<open>
  A position of the matcher: the index, whether the code unit before it is a word
  character, and the rest of the input. A result is the position after the match with the
  captures made on the way.
\<close>

type_synonym mres = "(nat \<times> bool \<times> jsstring) \<times> caps"

fun groups_of :: "regex \<Rightarrow> nat list" where
  "groups_of (Seq a b) = groups_of a @ groups_of b"
| "groups_of (Alt a b) = groups_of a @ groups_of b"
| "groups_of (Rep m n r) = groups_of r"
| "groups_of (Grp i r) = i # groups_of r"
| "groups_of (Look r) = groups_of r"
| "groups_of _ = []"

fun rsz :: "regex \<Rightarrow> nat" where
  "rsz (Seq a b) = rsz a + rsz b + 1"
| "rsz (Alt a b) = rsz a + rsz b + 1"
| "rsz (Rep m n r) = rsz r + 1"
| "rsz (Grp i r) = rsz r + 1"
| "rsz (Look r) = rsz r + 1"
| "rsz _ = 0"

definition dec_max :: "nat option \<Rightarrow> nat option" where
  "dec_max n = (case n of None \<Rightarrow> None | Some k \<Rightarrow> Some (k - 1))"

text \<open>
  \<open>ms ci r p w s c\<close> lists, in the order in which a backtracking matcher tries them, the
  ways in which \<open>r\<close> matches at the position \<open>(p, w, s)\<close>; the head of the list is the match
  that ECMAScript reports. \<open>ci\<close> is the flag \<open>i\<close>. A quantifier tries one more
  iteration before it tries to stop; the captures of the groups inside it are cleared when
  an iteration starts; once the lower bound is reached an iteration that consumes nothing
  is rejected (ECMAScript compares the end index with the start index; the match can only
  move forward, so the test is written on the lengths of the remaining input). The
  lookahead keeps the first way its body matches and does not move.
\<close>

function ms :: "bool \<Rightarrow> regex \<Rightarrow> nat \<Rightarrow> bool \<Rightarrow> jsstring \<Rightarrow> caps \<Rightarrow> mres list" where
  "ms ci (Lit x) p w s c =
     (case s of [] \<Rightarrow> []
      | y # ys \<Rightarrow> if y = x \<or> (ci \<and> to_upper y = to_upper x)
                 then [((p + 1, is_word y, ys), c)] else [])"
| "ms ci (Cls P) p w s c =
     (case s of [] \<Rightarrow> []
      | y # ys \<Rightarrow> if P y \<or> (ci \<and> (P (to_lower y) \<or> P (to_upper y)))
                 then [((p + 1, is_word y, ys), c)] else [])"
| "ms ci (NCls P) p w s c =
     (case s of [] \<Rightarrow> []
      | y # ys \<Rightarrow> if P y \<or> (ci \<and> (P (to_lower y) \<or> P (to_upper y)))
                 then [] else [((p + 1, is_word y, ys), c)])"
| "ms ci Eps p w s c = [((p, w, s), c)]"
| "ms ci (Seq a b) p w s c =
     concat (map (\<lambda>((p', w', s'), c'). ms ci b p' w' s' c') (ms ci a p w s c))"
| "ms ci (Alt a b) p w s c = ms ci a p w s c @ ms ci b p w s c"
| "ms ci (Grp i r) p w s c =
     map (\<lambda>((p', w', s'), c'). ((p', w', s'), (i, take (p' - p) s) # c')) (ms ci r p w s c)"
| "ms ci (Look r) p w s c =
     (case ms ci r p w s c of [] \<Rightarrow> [] | (st', c') # _ \<Rightarrow> [((p, w, s), c')])"
| "ms ci WordB p w s c =
     (if w \<noteq> (case s of [] \<Rightarrow> False | y # _ \<Rightarrow> is_word y) then [((p, w, s), c)] else [])"
| "ms ci Bol p w s c = (if p = 0 then [((p, w, s), c)] else [])"
| "ms ci Eol p w s c = (if s = [] then [((p, w, s), c)] else [])"
| "ms ci (Rep m n r) p w s c =
     (if n = Some 0 then [((p, w, s), c)]
      else
        concat (map (\<lambda>((p', w', s'), c').
              if 0 < m then ms ci (Rep (m - 1) (dec_max n) r) p' w' s' c'
              else if length s' < length s then ms ci (Rep 0 (dec_max n) r) p' w' s' c'
              else [])
            (ms ci r p w s (filter (\<lambda>(i, _). i \<notin> set (groups_of r)) c)))
        @ (if m = 0 then [((p, w, s), c)] else []))"
  by pat_completeness auto
termination
  by (relation "measures [\<lambda>(ci, r, p, w, s, c). rsz r,
                            \<lambda>(ci, r, p, w, s, c). (case r of Rep m n r' \<Rightarrow> m | _ \<Rightarrow> 0),
                            \<lambda>(ci, r, p, w, s, c). length s]")
     auto

text \<open>
  The search for the leftmost match, from a position on. The answer holds the index where
  the match starts, the input from there on, and the result of the matcher.
\<close>

fun search :: "bool \<Rightarrow> regex \<Rightarrow> nat \<Rightarrow> bool \<Rightarrow> jsstring \<Rightarrow> (nat \<times> jsstring \<times> mres) option" where
  "search ci r p w [] =
     (case ms ci r p w [] [] of [] \<Rightarrow> None | x # _ \<Rightarrow> Some (p, [], x))"
| "search ci r p w (y # ys) =
     (case ms ci r p w (y # ys) [] of
        [] \<Rightarrow> search ci r (p + 1) (is_word y) ys
      | x # _ \<Rightarrow> Some (p, y # ys, x))"

text \<open>\<open>pattern.test(s)\<close>, for a pattern without the flag \<open>g\<close>.\<close>

definition re_test :: "bool \<Rightarrow> regex \<Rightarrow> jsstring \<Rightarrow> bool" where
  "re_test ci r s = (search ci r 0 False s \<noteq> None)"

text \<open>
  The array that \<open>s.match(pattern)\<close> returns for a pattern without the flag \<open>g\<close>: the
  index, the matched text, and one entry for every capturing group of the pattern
  (\<open>None\<close> for a group that took no part), so that the array has one element more than the
  pattern has groups. \<open>None\<close> is \<open>null\<close>.
\<close>

record jsmatch =
  m_index :: nat
  m_whole :: jsstring
  m_groups :: "jsstring option list"

definition re_match :: "bool \<Rightarrow> regex \<Rightarrow> jsstring \<Rightarrow> jsmatch option" where
  "re_match ci r s =
     (case search ci r 0 False s of
        None \<Rightarrow> None
      | Some (p, sp, ((p', w', s'), c)) \<Rightarrow>
          Some \<lparr>m_index = p, m_whole = take (p' - p) sp,
                m_groups = map (map_of c) [1 ..< Suc (length (groups_of r))]\<rparr>)"

definition match_length :: "jsmatch \<Rightarrow> nat" where
  "match_length m = 1 + length (m_groups m)"

text \<open>
  \<open>m[i]\<close> for a group \<open>i\<close> that lies outside every optional part of its pattern and so
  takes part in every match.
\<close>

definition grp :: "jsmatch \<Rightarrow> nat \<Rightarrow> jsstring" where
  "grp m i = (if 0 < i \<and> i \<le> length (m_groups m)
              then (case m_groups m ! (i - 1) of Some g \<Rightarrow> g | None \<Rightarrow> []) else [])"

text \<open>
  All matches of a pattern with the flag \<open>g\<close>, from left to right: index and matched text.
  After a match the search goes on where the match ended (\<open>skip\<close> counts the code units
  of the match still to pass); after an empty match it goes on one code unit later.
\<close>

fun find_all :: "bool \<Rightarrow> regex \<Rightarrow> nat \<Rightarrow> nat \<Rightarrow> bool \<Rightarrow> jsstring \<Rightarrow> (nat \<times> jsstring) list" where
  "find_all ci r skip p w [] =
     (if skip = 0 then (case ms ci r p w [] [] of [] \<Rightarrow> [] | x # _ \<Rightarrow> [(p, [])]) else [])"
| "find_all ci r skip p w (y # ys) =
     (if 0 < skip then find_all ci r (skip - 1) (p + 1) (is_word y) ys
      else (case ms ci r p w (y # ys) [] of
              [] \<Rightarrow> find_all ci r 0 (p + 1) (is_word y) ys
            | ((p', w', s'), c) # _ \<Rightarrow>
                (p, take (p' - p) (y # ys))
                  # find_all ci r (p' - p - 1) (p + 1) (is_word y) ys))"

text \<open>\<open>s.match(pattern)\<close> for a pattern with the flag \<open>g\<close>; the empty list is \<open>null\<close>.\<close>

definition match_all :: "bool \<Rightarrow> regex \<Rightarrow> jsstring \<Rightarrow> jsstring list" where
  "match_all ci r s = map snd (find_all ci r 0 0 False s)"

text \<open>\<open>s.replace(pattern, t)\<close> for a pattern with the flag \<open>g\<close> and a fixed text \<open>t\<close>.\<close>

fun replace_from :: "bool \<Rightarrow> regex \<Rightarrow> jsstring \<Rightarrow> nat \<Rightarrow> nat \<Rightarrow> bool \<Rightarrow> jsstring \<Rightarrow> jsstring" where
  "replace_from ci r t skip p w [] =
     (if skip = 0 then (case ms ci r p w [] [] of [] \<Rightarrow> [] | x # _ \<Rightarrow> t) else [])"
| "replace_from ci r t skip p w (y # ys) =
     (if 0 < skip then replace_from ci r t (skip - 1) (p + 1) (is_word y) ys
      else (case ms ci r p w (y # ys) [] of
              [] \<Rightarrow> y # replace_from ci r t 0 (p + 1) (is_word y) ys
            | ((p', w', s'), c) # _ \<Rightarrow>
                t @ (if p' = p then [y] else [])
                  @ replace_from ci r t (p' - p - 1) (p + 1) (is_word y) ys))"

definition replace_all :: "bool \<Rightarrow> regex \<Rightarrow> jsstring \<Rightarrow> jsstring \<Rightarrow> jsstring" where
  "replace_all ci r t s = replace_from ci r t 0 0 False s"

text \<open>\<open>s.replace(pattern, t)\<close> for a pattern without the flag \<open>g\<close>: the first match only.\<close>

definition replace_first :: "bool \<Rightarrow> regex \<Rightarrow> jsstring \<Rightarrow> jsstring \<Rightarrow> jsstring" where
  "replace_first ci r t s =
     (case search ci r 0 False s of
        None \<Rightarrow> s
      | Some (p, sp, ((p', w', s'), c)) \<Rightarrow> take p s @ t @ s')"

text \<open>
  \<open>s.split(pattern)\<close> for a pattern without groups. \<open>cur\<close> is the piece being read, in
  reverse. A separator is looked for at every index; one that ends where the piece
  starts is passed over.
\<close>

fun split_from :: "bool \<Rightarrow> regex \<Rightarrow> jsstring \<Rightarrow> nat \<Rightarrow> nat \<Rightarrow> bool \<Rightarrow> jsstring \<Rightarrow> jsstring list" where
  "split_from ci r cur skip p w [] = [rev cur]"
| "split_from ci r cur skip p w (y # ys) =
     (if 0 < skip then split_from ci r cur (skip - 1) (p + 1) (is_word y) ys
      else (case ms ci r p w (y # ys) [] of
              [] \<Rightarrow> split_from ci r (y # cur) 0 (p + 1) (is_word y) ys
            | ((p', w', s'), c) # _ \<Rightarrow>
                if p' = p then
                  (if cur = [] then split_from ci r [y] 0 (p + 1) (is_word y) ys
                   else rev cur # split_from ci r [y] 0 (p + 1) (is_word y) ys)
                else rev cur # split_from ci r [] (p' - p - 1) (p + 1) (is_word y) ys))"

definition split :: "bool \<Rightarrow> regex \<Rightarrow> jsstring \<Rightarrow> jsstring list" where
  "split ci r s =
     (if s = [] then (if ms ci r 0 False [] [] = [] then [[]] else [])
      else split_from ci r [] 0 0 False s)"

subsection \<open>Writing patterns\<close>

definition lit :: "char \<Rightarrow> regex" where
  "lit x = Lit (of_char x)"

fun str :: "string \<Rightarrow> regex" where
  "str [] = Eps"
| "str [x] = Lit (of_char x)"
| "str (x # xs) = Seq (Lit (of_char x)) (str xs)"

fun seqs :: "regex list \<Rightarrow> regex" where
  "seqs [] = Eps"
| "seqs [r] = r"
| "seqs (r # rs) = Seq r (seqs rs)"

fun alts :: "regex list \<Rightarrow> regex" where
  "alts [] = Eps"
| "alts [r] = r"
| "alts (r # rs) = Alt r (alts rs)"

definition star :: "regex \<Rightarrow> regex" where "star r = Rep 0 None r"
definition plus1 :: "regex \<Rightarrow> regex" where "plus1 r = Rep 1 None r"
definition opt :: "regex \<Rightarrow> regex" where "opt r = Rep 0 (Some 1) r"
definition dot :: regex where "dot = NCls is_line_terminator"
definition ws :: regex where "ws = Cls is_space"
definition dg :: regex where "dg = Cls is_digit"

text \<open>A class given by the ASCII characters it lists.\<close>

definition one_of :: "string \<Rightarrow> cu \<Rightarrow> bool" where
  "one_of xs c = (c \<in> set (js xs))"

section \<open>The classifier (parsers/classifier.js)\<close>

definition BANK_KEYWORDS :: "(regex \<times> int) list" where
  "BANK_KEYWORDS =
    [(seqs [str ''bank'', plus1 ws, str ''statement''], 5),
     (seqs [str ''account'', plus1 ws,
            Grp 1 (alts [str ''number'', Seq (str ''no'') (opt (lit CHR ''.'')), lit CHR ''#''])], 4),
     (seqs [str ''opening'', plus1 ws, str ''balance''], 5),
     (seqs [str ''closing'', plus1 ws, str ''balance''], 5),
     (seqs [str ''transaction'', plus1 ws, Grp 1 (alts [str ''date'', str ''id'', str ''ref''])], 3),
     (str ''debit'', 3),
     (str ''credit'', 2),
     (seqs [str ''available'', plus1 ws, str ''balance''], 4),
     (seqs [str ''statement'', plus1 ws, str ''period''], 4),
     (alts [str ''IFSC'', seqs [str ''swift'', plus1 ws, str ''code'']], 4),
     (seqs [str ''account'', plus1 ws, str ''type''], 3),
     (seqs [str ''running'', plus1 ws, str ''balance''], 4),
     (alts [str ''narration'', str ''description''], 2),
     (str ''passbook'', 4),
     (alts [seqs [str ''savings'', plus1 ws, str ''account''],
            seqs [str ''current'', plus1 ws, str ''account'']], 3)]"

definition TAX_KEYWORDS :: "(regex \<times> int) list" where
  "TAX_KEYWORDS =
    [(seqs [str ''form'', plus1 ws, Grp 1 (alts [str ''26as'', str ''16'', str ''16a''])], 6),
     (alts [seqs [str ''tax'', plus1 ws, str ''deducted'', plus1 ws, str ''at'', plus1 ws,
                  str ''source''], str ''TDS''], 6),
     (seqs [str ''income'', plus1 ws, str ''tax''], 4),
     (str ''deductor'', 6),
     (seqs [str ''PAN'', plus1 ws, opt (Grp 1 (seqs [str ''of'', plus1 ws])),
            Grp 2 (alts [str ''deductee'', str ''deductor''])], 5),
     (str ''TAN'', 4),
     (seqs [str ''section'', plus1 ws, plus1 dg, opt (Cls is_upper)], 3),
     (seqs [str ''status'', plus1 ws, str ''of'', plus1 ws, str ''booking''], 5),
     (seqs [str ''total'', plus1 ws, str ''tax'', plus1 ws, str ''deducted''], 5),
     (seqs [str ''TDS'', plus1 ws, str ''deposited''], 5),
     (seqs [str ''amount'', plus1 ws, str ''paid'', star dot, str ''credited''], 4),
     (seqs [str ''date'', plus1 ws, str ''of'', plus1 ws, str ''booking''], 4),
     (alts [str ''traces'', str ''NSDL''], 4),
     (seqs [str ''assessment'', plus1 ws, str ''year''], 5)]"

text \<open>
  \<open>scoreText\<close>: the patterns have the flag \<open>i\<close> and not the flag \<open>g\<close>, so
  \<open>text.match(pattern)\<close> is the match array of the first match, and \<open>matches\<close> is the
  length of that array (or of \<open>[]\<close>).
\<close>

definition matches_of :: "jsstring \<Rightarrow> regex \<Rightarrow> int" where
  "matches_of text pattern =
     (case re_match True pattern text of None \<Rightarrow> 0 | Some m \<Rightarrow> int (match_length m))"

definition scoreText :: "jsstring \<Rightarrow> (regex \<times> int) list \<Rightarrow> int" where
  "scoreText text keywords =
     foldl (\<lambda>score (pattern, weight). score + min (matches_of text pattern) 2 * weight) 0 keywords"

text \<open>The number of times a pattern occurs in a text (the matches a global search finds).\<close>

definition occurrences :: "jsstring \<Rightarrow> regex \<Rightarrow> int" where
  "occurrences text pattern = int (length (match_all True pattern text))"

section \<open>Numbers\<close>

text \<open>
  A JavaScript number is modelled by the rational it denotes, or by one of the two
  infinities; \<open>NaN\<close> is the absence of a number. Rounding to the nearest double is
  outside the model (so is the sign of zero).
\<close>

datatype jsnum = Fin rat | PInf | NInf

fun neg_num :: "jsnum \<Rightarrow> jsnum" where
  "neg_num (Fin x) = Fin (- x)"
| "neg_num PInf = NInf"
| "neg_num NInf = PInf"

fun is_negative :: "jsnum \<Rightarrow> bool" where
  "is_negative (Fin x) = (x < 0)"
| "is_negative PInf = False"
| "is_negative NInf = True"

text \<open>\<open>x || null\<close> for a number or \<open>null\<close> or \<open>undefined\<close>: zero is falsy.\<close>

fun or_null :: "jsnum option \<Rightarrow> jsnum option" where
  "or_null None = None"
| "or_null (Some x) = (if x = Fin 0 then None else Some x)"

text \<open>\<open>Math.round\<close>: the nearest integer, a tie going up.\<close>

definition js_round :: "rat \<Rightarrow> rat" where
  "js_round x = of_int (floor (x + 1 / 2))"

definition digits_val :: "jsstring \<Rightarrow> int" where
  "digits_val ds = foldl (\<lambda>a d. 10 * a + (d - 48)) 0 ds"

definition pow10 :: "int \<Rightarrow> rat" where
  "pow10 e = (if 0 \<le> e then 10 ^ nat e else 1 / 10 ^ nat (- e))"

text \<open>The value of an exponent part at the head of a string, 0 when there is none.\<close>

definition exponent_part :: "jsstring \<Rightarrow> int" where
  "exponent_part s =
     (case s of
        [] \<Rightarrow> 0
      | e # r \<Rightarrow>
          if e = 101 \<or> e = 69 then
            (case r of
               [] \<Rightarrow> 0
             | g # r' \<Rightarrow>
                 if g = 43 then (if takeWhile is_digit r' = [] then 0
                                 else digits_val (takeWhile is_digit r'))
                 else if g = 45 then (if takeWhile is_digit r' = [] then 0
                                      else - digits_val (takeWhile is_digit r'))
                 else if takeWhile is_digit r = [] then 0
                 else digits_val (takeWhile is_digit r))
          else 0)"

text \<open>
  \<open>parseFloat\<close>: white space is skipped, then the longest prefix that is a decimal literal
  (a sign, then \<open>Infinity\<close> or digits with an optional fraction and an optional exponent)
  gives the value; \<open>None\<close> is \<open>NaN\<close>.
\<close>

definition parseFloat :: "jsstring \<Rightarrow> jsnum option" where
  "parseFloat s =
     (let t = dropWhile is_space s;
          neg = (case t of [] \<Rightarrow> False | x # _ \<Rightarrow> x = 45);
          u = (case t of [] \<Rightarrow> [] | x # r \<Rightarrow> if x = 43 \<or> x = 45 then r else t);
          ip = takeWhile is_digit u;
          r1 = dropWhile is_digit u;
          fp = (case r1 of [] \<Rightarrow> [] | x # r \<Rightarrow> if x = 46 then takeWhile is_digit r else []);
          r2 = (case r1 of [] \<Rightarrow> [] | x # r \<Rightarrow> if x = 46 then dropWhile is_digit r else r1)
      in if startsWith u (js ''Infinity'') then Some (if neg then NInf else PInf)
         else if ip = [] \<and> fp = [] then None
         else Some (Fin ((if neg then - 1 else 1) * of_int (digits_val (ip @ fp))
                          / 10 ^ length fp * pow10 (exponent_part r2))))"

section \<open>Normalisation (utils/normalize.js)\<close>

subsection \<open>Amounts\<close>

text \<open>The class \<open>[\<rupee>$\<euro>\<pound>\<yen>\<won>,\s]\<close> of \<open>normalizeAmount\<close>, by code unit.\<close>

definition currency_or_space :: "cu \<Rightarrow> bool" where
  "currency_or_space c =
     (c = 8377 \<or> c = 36 \<or> c = 8364 \<or> c = 163 \<or> c = 165 \<or> c = 8361 \<or> c = 44 \<or> is_space c)"

definition normalizeAmount :: "jsstring \<Rightarrow> jsnum option" where
  "normalizeAmount raw =
     (if raw = [] then None
      else
        let str1 = replace_all False (Cls currency_or_space) [] (trim raw);
            isNegative = (startsWith str1 (js ''('') \<and> endsWith str1 (js '')'')
                          \<or> startsWith str1 (js ''-''));
            str2 = replace_first False (Seq Bol (lit CHR ''-'')) []
                     (replace_all False (Cls (one_of ''()'')) [] str1)
        in case parseFloat str2 of
             None \<Rightarrow> None
           | Some amount \<Rightarrow> Some (if isNegative then neg_num amount else amount))"

subsection \<open>Lines and OCR repair\<close>

definition getLines :: "jsstring \<Rightarrow> jsstring list" where
  "getLines text =
     filter (\<lambda>l. 0 < length l) (map trim (split False (Seq (opt (Lit 13)) (Lit 10)) text))"

definition cleanOCRArtifacts :: "jsstring \<Rightarrow> jsstring" where
  "cleanOCRArtifacts text =
     replace_all False (Rep 2 None ws) (js '' '')
       (replace_all False (seqs [WordB, lit CHR ''I'', Look dg]) (js ''1'')
         (replace_all False (Seq (lit CHR ''O'') (Look dg)) (js ''0'')
           (replace_all False (Seq (lit CHR ''l'') (Look dg)) (js ''1'')
             (replace_all False (Rep 2 None (lit CHR ''|'')) (js '' '') text))))"

subsection \<open>Confidence\<close>

text \<open>
  The values a field of a header holds: a string or a number; \<open>None\<close> is \<open>null\<close>. An
  object is the list of its keys with their values, in the order of declaration.
\<close>

datatype jsval = VStr jsstring | VNum jsnum

type_synonym jsobject = "(string \<times> jsval option) list"

definition field_of :: "jsobject \<Rightarrow> string \<Rightarrow> jsval option" where
  "field_of obj k = (case map_of obj k of None \<Rightarrow> None | Some v \<Rightarrow> v)"

definition is_filled :: "jsval option \<Rightarrow> bool" where
  "is_filled v = (v \<noteq> None \<and> v \<noteq> Some (VStr []))"

definition calcConfidence :: "jsobject \<Rightarrow> string list \<Rightarrow> rat" where
  "calcConfidence flds required =
     (let allFields = map fst flds in
      if length allFields = 0 then 0
      else
        let filled = filter (\<lambda>k. is_filled (field_of flds k)) allFields;
            requiredFilled = filter (\<lambda>k. is_filled (field_of flds k)) required;
            fieldScore = of_nat (length filled) / of_nat (length allFields);
            requiredScore = (if 0 < length required
                             then of_nat (length requiredFilled) / of_nat (length required)
                             else 1)
        in js_round ((fieldScore * (4 / 10) + requiredScore * (6 / 10)) * 100) / 100)"

subsection \<open>Dates\<close>

text \<open>
  A calendar date as JavaScript reads it from a \<open>Date\<close>: the year, the month counted
  from 0, the day of the month.
\<close>

record ymd =
  year :: int
  month :: int
  day :: int

text \<open>
  \<open>parse\<close>, \<open>isValid\<close> and \<open>format\<close> come from the library date-fns. They are modelled
  here for the tokens that \<open>DATE_FORMATS\<close> uses (\<open>d\<close>, \<open>dd\<close>, \<open>M\<close>, \<open>MM\<close>, \<open>MMM\<close>,
  \<open>yyyy\<close> and the separators), on the library's own patterns: a format is cut into runs of
  one letter and single other characters; each token consumes a prefix of the input; what
  is left after the last token must be white space; the values are then checked and set on
  the reference date in the order year, month, day, where setting the year resets month
  and day and setting the month resets the day. An invalid date is \<open>None\<close>.
\<close>

definition isLeapYear :: "int \<Rightarrow> bool" where
  "isLeapYear y = (y mod 400 = 0 \<or> (y mod 4 = 0 \<and> y mod 100 \<noteq> 0))"

definition days_in_month :: "int \<Rightarrow> int \<Rightarrow> int" where
  "days_in_month y m =
     (if m = 1 then (if isLeapYear y then 29 else 28)
      else if m = 3 \<or> m = 5 \<or> m = 8 \<or> m = 10 then 30 else 31)"

fun fmt_tokens :: "string \<Rightarrow> (char \<times> nat) list" where
  "fmt_tokens [] = []"
| "fmt_tokens (x # xs) =
     (case fmt_tokens xs of
        [] \<Rightarrow> [(x, 1)]
      | (y, n) # ts \<Rightarrow>
          if y = x \<and> is_word (of_char x) then (x, Suc n) # ts else (x, 1) # (y, n) # ts)"

text \<open>The prefix of the input that a pattern matches at its start, and the rest.\<close>

definition match_prefix :: "bool \<Rightarrow> regex \<Rightarrow> jsstring \<Rightarrow> (jsstring \<times> jsstring) option" where
  "match_prefix ci r s =
     (case ms ci r 0 False s [] of
        [] \<Rightarrow> None
      | ((p', w', s'), c) # _ \<Rightarrow> Some (take p' s, s'))"

definition parseNDigits :: "nat \<Rightarrow> jsstring \<Rightarrow> (int \<times> jsstring) option" where
  "parseNDigits n s = map_option (\<lambda>(m, r). (digits_val m, r)) (match_prefix False (Rep 1 (Some n) dg) s)"

text \<open>The numeric patterns of the library for a month and for a day of the month.\<close>

definition numeric_month :: regex where
  "numeric_month = Alt (Seq (lit CHR ''1'') (Cls (one_of ''012''))) (Seq (opt (lit CHR ''0'')) dg)"

definition numeric_date :: regex where
  "numeric_date = Alt (Seq (lit CHR ''3'') (Cls (one_of ''01''))) (Seq (opt (Cls (one_of ''012''))) dg)"

text \<open>The month names of the English locale: the match patterns and the patterns that tell the months apart.\<close>

definition month_abbreviated :: regex where
  "month_abbreviated = alts (map str [''jan'', ''feb'', ''mar'', ''apr'', ''may'', ''jun'',
                                    ''jul'', ''aug'', ''sep'', ''oct'', ''nov'', ''dec''])"

definition month_narrow :: regex where
  "month_narrow = Cls (one_of ''jfmasond'')"

definition month_parse_any :: "regex list" where
  "month_parse_any = map str [''ja'', ''f'', ''mar'', ''ap'', ''may'', ''jun'',
                              ''jul'', ''au'', ''s'', ''o'', ''n'', ''d'']"

definition month_parse_narrow :: "regex list" where
  "month_parse_narrow = map str [''j'', ''f'', ''m'', ''a'', ''m'', ''j'',
                                 ''j'', ''a'', ''s'', ''o'', ''n'', ''d'']"

definition match_month :: "regex \<Rightarrow> regex list \<Rightarrow> jsstring \<Rightarrow> (int \<times> jsstring) option" where
  "match_month mp pps s =
     (case match_prefix True mp s of
        None \<Rightarrow> None
      | Some (m, r) \<Rightarrow>
          (case findIndex (\<lambda>pp. match_prefix True pp m \<noteq> None) pps of
             None \<Rightarrow> None
           | Some i \<Rightarrow> Some (int i, r)))"

datatype dunit = UYear | UMonth | UDay

text \<open>
  One token against the input: the unit it sets (none for a separator), the value, the
  rest of the input. A letter that is not modelled fails.
\<close>

definition parse_token :: "char \<times> nat \<Rightarrow> jsstring \<Rightarrow> (dunit option \<times> int \<times> jsstring) option" where
  "parse_token tk s =
     (case tk of (x, n) \<Rightarrow>
        if x = CHR ''y'' then
          (if n = 4 then map_option (\<lambda>(v, r). (Some UYear, v, r)) (parseNDigits 4 s) else None)
        else if x = CHR ''M'' then
          (if n = 1 then
             map_option (\<lambda>(m, r). (Some UMonth, digits_val m - 1, r)) (match_prefix False numeric_month s)
           else if n = 2 then
             map_option (\<lambda>(v, r). (Some UMonth, v - 1, r)) (parseNDigits 2 s)
           else if n = 3 then
             (case match_month month_abbreviated month_parse_any s of
                Some (i, r) \<Rightarrow> Some (Some UMonth, i, r)
              | None \<Rightarrow>
                  map_option (\<lambda>(i, r). (Some UMonth, i, r))
                    (match_month month_narrow month_parse_narrow s))
           else None)
        else if x = CHR ''d'' then
          (if n = 1 then
             map_option (\<lambda>(m, r). (Some UDay, digits_val m, r)) (match_prefix False numeric_date s)
           else map_option (\<lambda>(v, r). (Some UDay, v, r)) (parseNDigits n s))
        else if is_upper (of_char x) \<or> is_lower (of_char x) then None
        else if startsWith s (replicate n (of_char x)) then Some (None, 0, drop n s)
        else None)"

text \<open>The tokens from left to right; a unit given twice makes the library throw.\<close>

fun parse_tokens ::
  "(char \<times> nat) list \<Rightarrow> jsstring \<Rightarrow> int option \<Rightarrow> int option \<Rightarrow> int option
     \<Rightarrow> (int option \<times> int option \<times> int option \<times> jsstring) option" where
  "parse_tokens [] s y m d = Some (y, m, d, s)"
| "parse_tokens (tk # tks) s y m d =
     (case parse_token tk s of
        None \<Rightarrow> None
      | Some (None, v, r) \<Rightarrow> parse_tokens tks r y m d
      | Some (Some UYear, v, r) \<Rightarrow> if y = None then parse_tokens tks r (Some v) m d else None
      | Some (Some UMonth, v, r) \<Rightarrow> if m = None then parse_tokens tks r y (Some v) d else None
      | Some (Some UDay, v, r) \<Rightarrow> if d = None then parse_tokens tks r y m (Some v) else None)"

definition set_year :: "int option \<Rightarrow> ymd \<Rightarrow> ymd option" where
  "set_year y dt =
     (case y of
        None \<Rightarrow> Some dt
      | Some v \<Rightarrow> if 0 < v then Some \<lparr>year = v, month = 0, day = 1\<rparr> else None)"

definition set_month :: "int option \<Rightarrow> ymd \<Rightarrow> ymd option" where
  "set_month m dt =
     (case m of
        None \<Rightarrow> Some dt
      | Some v \<Rightarrow> if 0 \<le> v \<and> v \<le> 11 then Some (dt\<lparr>month := v, day := 1\<rparr>) else None)"

definition set_day :: "int option \<Rightarrow> ymd \<Rightarrow> ymd option" where
  "set_day d dt =
     (case d of
        None \<Rightarrow> Some dt
      | Some v \<Rightarrow>
          if 1 \<le> v \<and> v \<le> days_in_month (year dt) (month dt) then Some (dt\<lparr>day := v\<rparr>) else None)"

text \<open>\<open>parse(s, fmt, ref)\<close> followed by \<open>isValid\<close>.\<close>

definition parseDate :: "jsstring \<Rightarrow> string \<Rightarrow> ymd \<Rightarrow> ymd option" where
  "parseDate s fmt ref =
     (case parse_tokens (fmt_tokens fmt) s None None None of
        None \<Rightarrow> None
      | Some (y, m, d, rest) \<Rightarrow>
          if \<exists>c \<in> set rest. \<not> is_space c then None
          else (case set_year y ref of
                  None \<Rightarrow> None
                | Some d1 \<Rightarrow> (case set_month m d1 of None \<Rightarrow> None | Some d2 \<Rightarrow> set_day d d2)))"

function digits_of :: "int \<Rightarrow> jsstring" where
  "digits_of n = (if n < 10 then [48 + n] else digits_of (n div 10) @ [48 + n mod 10])"
  by pat_completeness auto
termination
  by (relation "measure nat") auto

declare digits_of.simps [simp del]

definition addLeadingZeros :: "int \<Rightarrow> nat \<Rightarrow> jsstring" where
  "addLeadingZeros n len =
     (if n < 0 then js ''-'' else [])
       @ replicate (len - length (digits_of (abs n))) 48 @ digits_of (abs n)"

text \<open>\<open>format(d, 'yyyy-MM-dd')\<close>.\<close>

definition format_iso :: "ymd \<Rightarrow> jsstring" where
  "format_iso d =
     addLeadingZeros (if 0 < year d then year d else 1 - year d) 4 @ js ''-''
       @ addLeadingZeros (month d + 1) 2 @ js ''-'' @ addLeadingZeros (day d) 2"

definition DATE_FORMATS :: "string list" where
  "DATE_FORMATS =
     [''dd/MM/yyyy'', ''MM/dd/yyyy'', ''yyyy-MM-dd'',
      ''dd-MM-yyyy'', ''MM-dd-yyyy'', ''d/M/yyyy'', ''d-M-yyyy'',
      ''dd MMM yyyy'', ''dd-MMM-yyyy'', ''MMM dd, yyyy'', ''MMM d, yyyy'',
      ''dd.MM.yyyy'', ''yyyy/MM/dd'']"

text \<open>The loop over the formats: the first format that gives a valid date.\<close>

fun try_formats :: "jsstring \<Rightarrow> string list \<Rightarrow> ymd \<Rightarrow> ymd option" where
  "try_formats s [] ref = None"
| "try_formats s (fmt # fmts) ref =
     (case parseDate s fmt ref of Some d \<Rightarrow> Some d | None \<Rightarrow> try_formats s fmts ref)"

text \<open>
  \<open>normalizeDate\<close>. \<open>now\<close> is the date \<open>new Date()\<close> gives when the function runs, which
  the program hands to \<open>parse\<close> as the reference date. \<open>native\<close> is \<open>new Date(cleaned)\<close>
  read through \<open>isValid\<close>: what the engine's own parser makes of a string is left to the
  implementation by ECMAScript for every string outside its date-time format, so it is a
  parameter. An exception inside the loop is caught by the program and is \<open>None\<close> in
  \<open>parseDate\<close>.
\<close>

definition normalizeDate :: "ymd \<Rightarrow> (jsstring \<Rightarrow> ymd option) \<Rightarrow> jsstring \<Rightarrow> jsstring option" where
  "normalizeDate now native raw =
     (if raw = [] then None
      else
        let cleaned = replace_all False (plus1 ws) (js '' '') (trim raw) in
        case try_formats cleaned DATE_FORMATS now of
          Some parsed \<Rightarrow> Some (format_iso parsed)
        | None \<Rightarrow>
            (case native cleaned of
               None \<Rightarrow> None
             | Some d \<Rightarrow> if 1990 < year d then Some (format_iso d) else None))"

section \<open>Warnings\<close>

datatype warning_code =
    NO_DEDUCTORS | NO_TRANSACTIONS | NO_TABLE_HEADER | HEURISTIC_PARSING
  | SCHEMA_VALIDATION | UNKNOWN_DOCUMENT_TYPE | SCANNED_PDF | LOW_OCR_QUALITY

record warning =
  code :: warning_code
  message :: jsstring

section \<open>Bank statements (parsers/bankParser.js)\<close>

record bank_header =
  bank_name :: "jsstring option"
  account_number :: "jsstring option"
  account_holder_name :: "jsstring option"
  account_type :: "jsstring option"
  ifsc_code :: "jsstring option"
  branch :: "jsstring option"
  statement_period_from :: "jsstring option"
  statement_period_to :: "jsstring option"
  opening_balance :: "jsnum option"
  closing_balance :: "jsnum option"
  currency :: jsstring

text \<open>A transaction; \<open>raw\<close> is the field \<open>_raw\<close>, which only the row parser sets.\<close>

record bank_txn =
  date :: "jsstring option"
  description :: "jsstring option"
  debit :: "jsnum option"
  credit :: "jsnum option"
  balance :: "jsnum option"
  reference :: "jsstring option"
  raw :: "jsstring option"

text \<open>Classes that several patterns share.\<close>

definition alpha_space :: "cu \<Rightarrow> bool" where
  "alpha_space c = (is_upper c \<or> is_lower c \<or> is_space c)"

definition alpha_space_dot :: "cu \<Rightarrow> bool" where
  "alpha_space_dot c = (is_lower c \<or> is_upper c \<or> is_space c \<or> c = 46)"

definition digit_space_dash :: "cu \<Rightarrow> bool" where
  "digit_space_dash c = (is_digit c \<or> is_space c \<or> c = 45)"

text \<open>\<open>[\d\/\-\.]\<close> and \<open>[\d\/\-\.a-zA-Z]\<close>.\<close>

definition date_char :: "cu \<Rightarrow> bool" where
  "date_char c = (is_digit c \<or> c = 47 \<or> c = 45 \<or> c = 46)"

definition date_alpha_char :: "cu \<Rightarrow> bool" where
  "date_alpha_char c = (date_char c \<or> is_lower c \<or> is_upper c)"

text \<open>\<open>[\<rupee>$]\<close>, \<open>[\d,\.]\<close>, \<open>[\d,]\<close>, \<open>[-\<endash>]\<close>, \<open>[\/\-\.]\<close>.\<close>

definition rupee_dollar :: "cu \<Rightarrow> bool" where
  "rupee_dollar c = (c = 8377 \<or> c = 36)"

definition digit_comma_dot :: "cu \<Rightarrow> bool" where
  "digit_comma_dot c = (is_digit c \<or> c = 44 \<or> c = 46)"

definition digit_comma :: "cu \<Rightarrow> bool" where
  "digit_comma c = (is_digit c \<or> c = 44)"

definition dash :: "cu \<Rightarrow> bool" where
  "dash c = (c = 45 \<or> c = 8211)"

definition date_sep :: "cu \<Rightarrow> bool" where
  "date_sep c = (c = 47 \<or> c = 45 \<or> c = 46)"

text \<open>The tail \<open>\s*[:\-]?\s*\<close> of a label.\<close>

definition label_sep :: regex where
  "label_sep = seqs [star ws, opt (Cls (one_of '':-'')), star ws]"

definition bankNamePattern :: regex where
  "bankNamePattern =
     Grp 1 (seqs [Cls is_upper, plus1 (Cls alpha_space),
                  alts [str ''Bank'', str ''BANK'', str ''banking'', str ''BANKING''],
                  star (Cls alpha_space)])"

definition acctPatterns :: "regex list" where
  "acctPatterns =
     [seqs [str ''account'', plus1 ws,
            alts [str ''number'', Seq (str ''no'') (opt (lit CHR ''.'')), lit CHR ''#''],
            label_sep, Grp 1 (Seq dg (Rep 5 (Some 20) (Cls digit_space_dash)))],
      seqs [str ''a/c'', plus1 ws,
            alts [Seq (str ''no'') (opt (lit CHR ''.'')), str ''number'', lit CHR ''#''],
            label_sep, Grp 1 (Seq dg (Rep 5 (Some 20) (Cls digit_space_dash)))],
      seqs [str ''acc'', opt (str ''ount''), star ws, str ''no'', opt (Cls (one_of ''.:'')), star ws,
            Grp 1 (Seq dg (Rep 5 (Some 20) (Cls digit_space_dash)))]]"

definition namePatterns :: "regex list" where
  "namePatterns =
     [seqs [alts [seqs [str ''account'', plus1 ws, str ''holder''],
                  seqs [str ''customer'', plus1 ws, str ''name''], str ''name''],
            label_sep, Grp 1 (Seq (Cls is_upper) (plus1 (Cls alpha_space_dot)))],
      seqs [str ''in'', plus1 ws, str ''the'', plus1 ws, str ''name'', plus1 ws, str ''of'',
            label_sep, Grp 1 (Seq (Cls is_upper) (plus1 (Cls alpha_space_dot)))]]"

definition typePattern :: regex where
  "typePattern =
     seqs [Grp 1 (alts [str ''savings'', str ''current'', str ''salary'', str ''nre'', str ''nro'',
                        seqs [str ''fixed'', plus1 ws, str ''deposit'']]),
           star ws, str ''account'']"

definition ifscPattern :: regex where
  "ifscPattern =
     seqs [str ''IFSC'', label_sep,
           Grp 1 (seqs [Rep 4 (Some 4) (Cls is_upper), lit CHR ''0'',
                        Rep 6 (Some 6) (Cls (\<lambda>c. is_upper c \<or> is_digit c))])]"

definition periodPatterns :: "regex list" where
  "periodPatterns =
     [seqs [alts [str ''statement'', str ''from''], plus1 ws, alts [str ''period'', str ''date''],
            label_sep,
            Grp 1 (seqs [plus1 (Cls date_char), star ws, alts [str ''to'', Cls dash], star ws,
                         plus1 (Cls date_char)])],
      seqs [str ''period'', label_sep, Grp 1 (plus1 (Cls date_alpha_char)),
            plus1 ws, str ''to'', plus1 ws, Grp 2 (plus1 (Cls date_alpha_char))],
      seqs [str ''from'', label_sep, Grp 1 (plus1 (Cls date_alpha_char)),
            plus1 ws, str ''to'', plus1 ws, Grp 2 (plus1 (Cls date_alpha_char))]]"

definition periodSplit :: regex where
  "periodSplit = Alt (seqs [plus1 ws, str ''to'', plus1 ws]) (Cls dash)"

definition openBalPatterns :: "regex list" where
  "openBalPatterns =
     [seqs [str ''opening'', plus1 ws, str ''balance'', label_sep,
            Grp 1 (seqs [opt (Cls rupee_dollar), star ws, plus1 (Cls digit_comma_dot),
                         opt (Seq (lit CHR ''.'') (Rep 2 (Some 2) dg))])],
      seqs [str ''balance'', plus1 ws, str ''b/f'', label_sep,
            Grp 1 (seqs [opt (Cls rupee_dollar), star ws, plus1 (Cls digit_comma_dot)])]]"

definition closeBalPatterns :: "regex list" where
  "closeBalPatterns =
     [seqs [str ''closing'', plus1 ws, str ''balance'', label_sep,
            Grp 1 (seqs [opt (Cls rupee_dollar), star ws, plus1 (Cls digit_comma_dot),
                         opt (Seq (lit CHR ''.'') (Rep 2 (Some 2) dg))])],
      seqs [str ''balance'', plus1 ws, str ''c/f'', label_sep,
            Grp 1 (seqs [opt (Cls rupee_dollar), star ws, plus1 (Cls digit_comma_dot)])]]"

text \<open>\<open>for (const p of patterns) { const m = text.match(p); if (m) { ...; break; } }\<close>\<close>

fun first_match :: "regex list \<Rightarrow> jsstring \<Rightarrow> jsmatch option" where
  "first_match [] text = None"
| "first_match (p # ps) text =
     (case re_match True p text of Some m \<Rightarrow> Some m | None \<Rightarrow> first_match ps text)"

text \<open>
  The loop over \<open>periodPatterns\<close>, on the two fields it assigns: a pattern with a second
  group gives both dates; the first pattern gives one text that is split; the loop stops
  once \<open>statement_period_from\<close> is set, and what an earlier round assigned stays otherwise.
\<close>

fun period_loop ::
  "ymd \<Rightarrow> (jsstring \<Rightarrow> ymd option) \<Rightarrow> regex list \<Rightarrow> jsstring
     \<Rightarrow> jsstring option \<times> jsstring option \<Rightarrow> jsstring option \<times> jsstring option" where
  "period_loop now native [] text ft = ft"
| "period_loop now native (p # ps) text ft =
     (case re_match True p text of
        None \<Rightarrow> period_loop now native ps text ft
      | Some m \<Rightarrow>
          (let ft' =
             (if 2 \<le> length (m_groups m) \<and> grp m 2 \<noteq> [] then
                (normalizeDate now native (grp m 1), normalizeDate now native (grp m 2))
              else
                (let parts = split True periodSplit (grp m 1) in
                 if length parts = 2 then
                   (normalizeDate now native (parts ! 0), normalizeDate now native (parts ! 1))
                 else ft))
           in if fst ft' \<noteq> None then ft' else period_loop now native ps text ft'))"

definition extractHeader :: "ymd \<Rightarrow> (jsstring \<Rightarrow> ymd option) \<Rightarrow> jsstring \<Rightarrow> bank_header" where
  "extractHeader now native text =
     (let period = period_loop now native periodPatterns text (None, None) in
      \<lparr>bank_name = map_option (\<lambda>m. trim (grp m 1)) (re_match False bankNamePattern text),
       account_number =
         map_option (\<lambda>m. replace_all False ws [] (grp m 1)) (first_match acctPatterns text),
       account_holder_name = map_option (\<lambda>m. trim (grp m 1)) (first_match namePatterns text),
       account_type = map_option (\<lambda>m. toLowerCase (grp m 1)) (re_match True typePattern text),
       ifsc_code = map_option (\<lambda>m. toUpperCase (grp m 1)) (re_match True ifscPattern text),
       branch = None,
       statement_period_from = fst period,
       statement_period_to = snd period,
       opening_balance =
         (case first_match openBalPatterns text of None \<Rightarrow> None | Some m \<Rightarrow> normalizeAmount (grp m 1)),
       closing_balance =
         (case first_match closeBalPatterns text of None \<Rightarrow> None | Some m \<Rightarrow> normalizeAmount (grp m 1)),
       currency =
         (if re_test False (Alt (Lit 8377) (str ''INR'')) text then js ''INR''
          else if re_test False (Alt (lit CHR ''$'') (str ''USD'')) text then js ''USD''
          else if re_test False (Alt (Lit 163) (str ''GBP'')) text then js ''GBP''
          else if re_test False (Alt (Lit 8364) (str ''EUR'')) text then js ''EUR''
          else js ''INR'')\<rparr>)"

text \<open>The header as the object \<open>calcConfidence\<close> reads.\<close>

definition bank_header_object :: "bank_header \<Rightarrow> jsobject" where
  "bank_header_object h =
     [(''bank_name'', map_option VStr (bank_name h)),
      (''account_number'', map_option VStr (account_number h)),
      (''account_holder_name'', map_option VStr (account_holder_name h)),
      (''account_type'', map_option VStr (account_type h)),
      (''ifsc_code'', map_option VStr (ifsc_code h)),
      (''branch'', map_option VStr (branch h)),
      (''statement_period_from'', map_option VStr (statement_period_from h)),
      (''statement_period_to'', map_option VStr (statement_period_to h)),
      (''opening_balance'', map_option VNum (opening_balance h)),
      (''closing_balance'', map_option VNum (closing_balance h)),
      (''currency'', Some (VStr (currency h)))]"

subsection \<open>The transaction table\<close>

definition headerPatterns :: "regex list" where
  "headerPatterns =
     [seqs [str ''date'', star dot, alts [str ''narration'', str ''description'', str ''particulars''],
            star dot, alts [str ''debit'', str ''dr''], star dot, alts [str ''credit'', str ''cr'']],
      seqs [str ''date'', star dot, alts [str ''details'', str ''description''],
            star dot, alts [str ''withdrawal'', str ''debit''],
            star dot, alts [str ''deposit'', str ''credit'']],
      seqs [str ''txn'', star dot, str ''date'', star dot, str ''description'']]"

text \<open>
  \<open>for (const p of headerPatterns) { headerLineIdx = lines.findIndex(l => p.test(l));
  if (headerLineIdx !== -1) break; }\<close>; \<open>None\<close> is \<open>-1\<close>.
\<close>

fun find_header :: "regex list \<Rightarrow> jsstring list \<Rightarrow> nat option" where
  "find_header [] lines = None"
| "find_header (p # ps) lines =
     (case findIndex (\<lambda>l. re_test True p l) lines of
        Some i \<Rightarrow> Some i
      | None \<Rightarrow> find_header ps lines)"

record colmap =
  col_date :: "nat option"
  col_description :: "nat option"
  col_debit :: "nat option"
  col_credit :: "nat option"
  col_balance :: "nat option"
  col_reference :: "nat option"

fun detect_loop :: "jsstring list \<Rightarrow> nat \<Rightarrow> colmap \<Rightarrow> colmap" where
  "detect_loop [] pos positions = positions"
| "detect_loop (token # tokens) pos positions =
     (let lower = toLowerCase token in
      detect_loop tokens (pos + 1)
        (if re_test False (str ''date'') lower then positions\<lparr>col_date := Some pos\<rparr>
         else if re_test False (alts [str ''narration'', str ''description'', str ''particulars'',
                                      str ''details'']) lower
              then positions\<lparr>col_description := Some pos\<rparr>
         else if re_test False (alts [str ''debit'', str ''withdrawal'', str ''dr'']) lower
              then positions\<lparr>col_debit := Some pos\<rparr>
         else if re_test False (alts [str ''credit'', str ''deposit'', str ''cr'']) lower
              then positions\<lparr>col_credit := Some pos\<rparr>
         else if re_test False (str ''balance'') lower then positions\<lparr>col_balance := Some pos\<rparr>
         else if re_test False (alts [str ''ref'', str ''id'', str ''chq'', str ''cheque'']) lower
              then positions\<lparr>col_reference := Some pos\<rparr>
         else positions))"

definition detectColumns :: "jsstring \<Rightarrow> colmap" where
  "detectColumns headerLine =
     detect_loop (split False (Alt (Rep 2 None ws) (Lit 9)) headerLine) 0
       \<lparr>col_date = None, col_description = None, col_debit = None, col_credit = None,
        col_balance = None, col_reference = None\<rparr>"

text \<open>The date pattern of a row, in the row parser and in the heuristic.\<close>

definition numeric_date_token :: regex where
  "numeric_date_token =
     seqs [Rep 1 (Some 2) dg, Cls date_sep, Rep 1 (Some 2) dg, Cls date_sep, Rep 2 (Some 4) dg]"

definition textual_date_token :: regex where
  "textual_date_token =
     seqs [Rep 1 (Some 2) dg, plus1 ws, Rep 3 (Some 3) (Cls (\<lambda>c. is_upper c \<or> is_lower c)),
           plus1 ws, Rep 4 (Some 4) dg]"

definition rowDatePattern :: regex where
  "rowDatePattern = Grp 1 (Alt numeric_date_token textual_date_token)"

definition amtPattern :: regex where
  "amtPattern =
     Grp 1 (seqs [opt (Cls rupee_dollar), star ws, plus1 (Cls digit_comma), lit CHR ''.'',
                  Rep 2 (Some 2) dg])"

definition refPattern :: regex where
  "refPattern =
     seqs [alts [str ''ref'', str ''txn'', str ''chq'', str ''utr''],
           star (Cls (\<lambda>c. c = 58 \<or> is_space c \<or> c = 35)),
           Grp 1 (Rep 8 (Some 20) (Cls (\<lambda>c. is_upper c \<or> is_digit c)))]"

text \<open>
  The array \<open>amounts\<close> of \<open>parseTransactionRow\<close>: for every match that the loop over
  \<open>amtPattern.exec(line)\<close> finds, the value and the index. (A match of \<open>amtPattern\<close>
  holds at least four code units, so the loop moves on after each match.)
\<close>

definition row_amounts :: "jsstring \<Rightarrow> (jsnum option \<times> nat) list" where
  "row_amounts line =
     map (\<lambda>(i, m). (normalizeAmount m, i)) (find_all False amtPattern 0 0 False line)"

text \<open>
  \<open>parseTransactionRow\<close>; \<open>None\<close> is \<open>null\<close>. Neither \<open>colMap\<close> nor \<open>lineIdx\<close> is read.
\<close>

definition parseTransactionRow ::
  "ymd \<Rightarrow> (jsstring \<Rightarrow> ymd option) \<Rightarrow> jsstring \<Rightarrow> colmap \<Rightarrow> nat \<Rightarrow> bank_txn option" where
  "parseTransactionRow now native line colMap lineIdx =
     (case re_match False rowDatePattern line of
        None \<Rightarrow> None
      | Some dateMatch \<Rightarrow>
          (case normalizeDate now native (grp dateMatch 1) of
             None \<Rightarrow> None
           | Some dt \<Rightarrow>
               (let amounts = row_amounts line;
                    dateEnd = m_index dateMatch + length (m_whole dateMatch);
                    firstAmtIdx = (case amounts of [] \<Rightarrow> length line | a # _ \<Rightarrow> snd a);
                    desc = replace_all False (plus1 ws) (js '' '') (trim (slice line dateEnd firstAmtIdx));
                    dcb =
                      (if 3 \<le> length amounts then
                         (or_null (fst (amounts ! 0)), or_null (fst (amounts ! 1)),
                          or_null (fst (amounts ! 2)))
                       else if length amounts = 2 then
                         (if re_test True (alts [str ''dr'', str ''debit'', str ''withdrawal'']) line
                          then (fst (amounts ! 0), None, fst (amounts ! 1))
                          else if re_test True (alts [str ''cr'', str ''credit'', str ''deposit'']) line
                          then (None, fst (amounts ! 0), fst (amounts ! 1))
                          else (fst (amounts ! 0), None, fst (amounts ! 1)))
                       else if length amounts = 1 then (None, None, fst (amounts ! 0))
                       else (None, None, None))
                in Some \<lparr>date = Some dt,
                         description = (if desc = [] then None else Some desc),
                         debit = fst dcb,
                         credit = fst (snd dcb),
                         balance = snd (snd dcb),
                         reference = map_option (\<lambda>m. grp m 1) (re_match True refPattern line),
                         raw = Some line\<rparr>)))"

text \<open>\<open>a[i]\<close> for an array of numbers or \<open>null\<close>; out of range it is \<open>undefined\<close>.\<close>

definition elem_at :: "jsnum option list \<Rightarrow> nat \<Rightarrow> jsnum option" where
  "elem_at xs i = (if i < length xs then xs ! i else None)"

definition heuristicDatePattern :: regex where
  "heuristicDatePattern = Grp 1 numeric_date_token"

definition heuristicAmountPattern :: regex where
  "heuristicAmountPattern = seqs [plus1 (Cls digit_comma), lit CHR ''.'', Rep 2 (Some 2) dg]"

text \<open>The amounts the heuristic reads on a line.\<close>

definition heuristic_amounts :: "jsstring \<Rightarrow> jsnum option list" where
  "heuristic_amounts line = map normalizeAmount (match_all False heuristicAmountPattern line)"

text \<open>The transaction the heuristic makes of a line on which \<open>dateMatch\<close> was found.\<close>

definition heuristic_txn ::
  "ymd \<Rightarrow> (jsstring \<Rightarrow> ymd option) \<Rightarrow> jsstring \<Rightarrow> jsmatch \<Rightarrow> bank_txn" where
  "heuristic_txn now native line dateMatch =
     (let amounts = heuristic_amounts line;
          desc = trim (replace_all False (plus1 (Cls digit_comma_dot)) []
                         (drop (m_index dateMatch + length (m_whole dateMatch)) line))
      in \<lparr>date = normalizeDate now native (grp dateMatch 1),
          description = (if desc = [] then None else Some desc),
          debit = or_null (elem_at amounts 0),
          credit = or_null (elem_at amounts 1),
          balance = or_null (elem_at amounts 2),
          reference = None,
          raw = None\<rparr>)"

text \<open>The loop of \<open>parseTransactionHeuristic\<close> over the lines.\<close>

fun heuristic_rows :: "ymd \<Rightarrow> (jsstring \<Rightarrow> ymd option) \<Rightarrow> jsstring list \<Rightarrow> bank_txn list" where
  "heuristic_rows now native [] = []"
| "heuristic_rows now native (line # lines) =
     (case re_match False heuristicDatePattern line of
        None \<Rightarrow> heuristic_rows now native lines
      | Some dateMatch \<Rightarrow>
          if length (heuristic_amounts line) = 0 then heuristic_rows now native lines
          else heuristic_txn now native line dateMatch # heuristic_rows now native lines)"

text \<open>
  \<open>parseTransactionHeuristic\<close> pushes its warning on the list it is given and returns the
  transactions; here it returns both.
\<close>

definition parseTransactionHeuristic ::
  "ymd \<Rightarrow> (jsstring \<Rightarrow> ymd option) \<Rightarrow> jsstring list \<Rightarrow> warning list
     \<Rightarrow> bank_txn list \<times> warning list" where
  "parseTransactionHeuristic now native lines warnings =
     (heuristic_rows now native lines,
      warnings @ [\<lparr>code = HEURISTIC_PARSING,
                   message = js ''Using heuristic transaction parsing '' @ [8212]
                             @ js '' accuracy may be reduced.''\<rparr>])"

text \<open>The loop of \<open>extractTransactions\<close> over the lines after the header, from index \<open>i\<close>.\<close>

fun scan_rows ::
  "ymd \<Rightarrow> (jsstring \<Rightarrow> ymd option) \<Rightarrow> colmap \<Rightarrow> nat \<Rightarrow> jsstring list \<Rightarrow> bank_txn list" where
  "scan_rows now native colMap i [] = []"
| "scan_rows now native colMap i (line # lines) =
     (if re_test True (alts [str ''total'', seqs [str ''closing'', plus1 ws, str ''balance''],
                             seqs [str ''opening'', plus1 ws, str ''balance''],
                             seqs [str ''grand'', plus1 ws, str ''total'']]) line
      then []
      else if re_test False (seqs [Bol, plus1 (Cls (\<lambda>c. one_of ''-=_|*'' c \<or> is_space c)), Eol]) line
      then scan_rows now native colMap (i + 1) lines
      else if \<not> re_test False (seqs [Rep 1 (Some 2) dg, Cls (one_of ''/-''), Rep 1 (Some 2) dg,
                                      Cls (one_of ''/-''), Rep 2 (Some 4) dg]) line
              \<and> \<not> re_test False textual_date_token line
      then scan_rows now native colMap (i + 1) lines
      else (case parseTransactionRow now native line colMap i of
              None \<Rightarrow> scan_rows now native colMap (i + 1) lines
            | Some txn \<Rightarrow> txn # scan_rows now native colMap (i + 1) lines))"

definition extractTransactions ::
  "ymd \<Rightarrow> (jsstring \<Rightarrow> ymd option) \<Rightarrow> jsstring list \<Rightarrow> bank_txn list \<times> warning list" where
  "extractTransactions now native lines =
     (case find_header headerPatterns lines of
        None \<Rightarrow>
          parseTransactionHeuristic now native lines
            [\<lparr>code = NO_TABLE_HEADER,
              message = js ''Could not find transaction table header row.''\<rparr>]
      | Some headerLineIdx \<Rightarrow>
          (scan_rows now native (detectColumns (lines ! headerLineIdx)) (headerLineIdx + 1)
             (drop (headerLineIdx + 1) lines), []))"

record bank_result =
  b_header :: bank_header
  b_transactions :: "bank_txn list"
  b_confidence :: rat
  b_warnings :: "warning list"

definition extractBankStatement ::
  "ymd \<Rightarrow> (jsstring \<Rightarrow> ymd option) \<Rightarrow> jsstring list \<Rightarrow> jsstring \<Rightarrow> bank_result" where
  "extractBankStatement now native pageTexts fullText =
     (let text = cleanOCRArtifacts fullText;
          lines = getLines text;
          hdr = extractHeader now native text;
          (transactions, tableWarnings) = extractTransactions now native lines;
          warnings = tableWarnings
            @ (if length transactions = 0
               then [\<lparr>code = NO_TRANSACTIONS,
                       message = js ''No transaction rows could be extracted from this document.''\<rparr>]
               else []);
          confidence = calcConfidence (bank_header_object hdr)
                         [''account_number'', ''statement_period_from'', ''statement_period_to'']
      in \<lparr>b_header = hdr, b_transactions = transactions,
          b_confidence = max confidence (if 0 < length transactions then 5 / 10 else 1 / 10),
          b_warnings = warnings\<rparr>)"

section \<open>Tax statements (parsers/taxParser.js)\<close>

record tax_header =
  form_type :: "jsstring option"
  assessment_year :: "jsstring option"
  taxpayer_name :: "jsstring option"
  pan :: "jsstring option"
  taxpayer_address :: "jsstring option"
  total_amount_paid_credited :: "jsnum option"
  total_tax_deducted :: "jsnum option"
  total_tds_deposited :: "jsnum option"

text \<open>A transaction of a deductor; \<open>tds_section\<close> is the field \<open>section\<close>.\<close>

record tax_txn =
  tds_section :: "jsstring option"
  transaction_date :: "jsstring option"
  booking_date :: "jsstring option"
  status_of_booking :: "jsstring option"
  remarks :: "jsstring option"
  amount_paid_credited :: "jsnum option"
  tax_deducted :: "jsnum option"
  tds_deposited :: "jsnum option"

text \<open>
  A deductor; its fields \<open>name\<close>, \<open>tan\<close>, \<open>pan\<close>, the three totals and \<open>transactions\<close>
  carry the prefix \<open>d_\<close> here, as a header has fields of the same names.
\<close>

record deductor =
  d_name :: "jsstring option"
  d_tan :: "jsstring option"
  d_pan :: "jsstring option"
  d_total_amount_paid_credited :: "jsnum option"
  d_total_tax_deducted :: "jsnum option"
  d_total_tds_deposited :: "jsnum option"
  d_transactions :: "tax_txn list"

text \<open>The group \<open>([\<rupee>$]?\s*[\d,\.]+)\<close> that ends the patterns of the totals.\<close>

definition total_value :: regex where
  "total_value = Grp 1 (seqs [opt (Cls rupee_dollar), star ws, plus1 (Cls digit_comma_dot)])"

definition pan_value :: regex where
  "pan_value = Grp 1 (seqs [Rep 5 (Some 5) (Cls is_upper), Rep 4 (Some 4) dg, Cls is_upper])"

definition formPattern :: regex where
  "formPattern =
     seqs [str ''form'', plus1 ws,
           Grp 1 (alts [str ''26as'', Seq (str ''16'') (opt (lit CHR ''a'')), str ''27d''])]"

definition ayPattern :: regex where
  "ayPattern =
     seqs [str ''assessment'', plus1 ws, str ''year'', label_sep,
           Grp 1 (seqs [Rep 4 (Some 4) dg, star ws, Cls dash, star ws, Rep 2 (Some 4) dg])]"

definition panPattern :: regex where
  "panPattern =
     seqs [str ''PAN'', star ws,
           opt (seqs [str ''of'', plus1 ws, alts [str ''taxpayer'', str ''deductee'']]),
           label_sep, pan_value]"

definition taxNamePatterns :: "regex list" where
  "taxNamePatterns =
     [seqs [alts [seqs [str ''name'', plus1 ws, str ''of'', plus1 ws,
                        alts [str ''taxpayer'', str ''deductee'', str ''assessee'']],
                  seqs [str ''taxpayer'', plus1 ws, str ''name'']],
            label_sep, Grp 1 (Seq (Cls is_upper) (plus1 (Cls alpha_space_dot)))],
      seqs [str ''assessee'', plus1 ws, str ''name'', label_sep,
            Grp 1 (Seq (Cls is_upper) (plus1 (Cls alpha_space_dot)))]]"

definition headerPaidPattern :: regex where
  "headerPaidPattern =
     seqs [str ''total'', plus1 ws, opt (seqs [str ''amount'', plus1 ws]), str ''paid'', star ws,
           opt (lit CHR ''/''), star ws, str ''credited'', label_sep, total_value]"

definition taxDeductedPattern :: regex where
  "taxDeductedPattern =
     seqs [str ''total'', plus1 ws, str ''tax'', plus1 ws, str ''deducted'', label_sep, total_value]"

definition tdsDepositedPattern :: regex where
  "tdsDepositedPattern =
     seqs [str ''total'', plus1 ws, str ''TDS'', plus1 ws, str ''deposited'', label_sep, total_value]"

text \<open>\<open>m ? normalizeAmount(m[1]) : null\<close> for the match of a pattern of a total.\<close>

definition amount_after :: "regex \<Rightarrow> jsstring \<Rightarrow> jsnum option" where
  "amount_after p text =
     (case re_match True p text of None \<Rightarrow> None | Some m \<Rightarrow> normalizeAmount (grp m 1))"

definition extractTaxHeader :: "jsstring \<Rightarrow> tax_header" where
  "extractTaxHeader text =
     \<lparr>form_type =
        map_option (\<lambda>m. toUpperCase (replace_all False (plus1 ws) (js '' '') (m_whole m)))
          (re_match True formPattern text),
      assessment_year =
        map_option (\<lambda>m. replace_all False ws [] (grp m 1)) (re_match True ayPattern text),
      taxpayer_name = map_option (\<lambda>m. trim (grp m 1)) (first_match taxNamePatterns text),
      pan = map_option (\<lambda>m. toUpperCase (grp m 1)) (re_match True panPattern text),
      taxpayer_address = None,
      total_amount_paid_credited = amount_after headerPaidPattern text,
      total_tax_deducted = amount_after taxDeductedPattern text,
      total_tds_deposited = amount_after tdsDepositedPattern text\<rparr>"

definition tax_header_object :: "tax_header \<Rightarrow> jsobject" where
  "tax_header_object h =
     [(''form_type'', map_option VStr (form_type h)),
      (''assessment_year'', map_option VStr (assessment_year h)),
      (''taxpayer_name'', map_option VStr (taxpayer_name h)),
      (''pan'', map_option VStr (pan h)),
      (''taxpayer_address'', map_option VStr (taxpayer_address h)),
      (''total_amount_paid_credited'', map_option VNum (total_amount_paid_credited h)),
      (''total_tax_deducted'', map_option VNum (total_tax_deducted h)),
      (''total_tds_deposited'', map_option VNum (total_tds_deposited h))]"

definition deductorStartPatterns :: "regex list" where
  "deductorStartPatterns =
     [seqs [str ''name'', plus1 ws, str ''of'', plus1 ws, str ''deductor''],
      seqs [str ''deductor'', plus1 ws, alts [str ''name'', str ''details'']],
      seqs [alts [str ''Part'', str ''Section''], plus1 ws, Cls (one_of ''AB''), star ws,
            Cls (\<lambda>c. dash c \<or> c = 58)]]"

text \<open>
  The loop of \<open>splitByDeductors\<close>: the blocks closed so far, the block being read, and
  whether a start line has been seen.
\<close>

fun split_loop ::
  "regex list \<Rightarrow> jsstring list \<Rightarrow> jsstring list list \<Rightarrow> jsstring list \<Rightarrow> bool
     \<Rightarrow> jsstring list list \<times> jsstring list" where
  "split_loop startPatterns [] blocks currentBlock inBlock = (blocks, currentBlock)"
| "split_loop startPatterns (line # lines) blocks currentBlock inBlock =
     (if \<exists>p \<in> set startPatterns. re_test True p line then
        split_loop startPatterns lines
          (if 0 < length currentBlock then blocks @ [currentBlock] else blocks) [line] True
      else if inBlock then split_loop startPatterns lines blocks (currentBlock @ [line]) inBlock
      else split_loop startPatterns lines blocks currentBlock inBlock)"

definition splitByDeductors :: "jsstring list \<Rightarrow> regex list \<Rightarrow> jsstring list list" where
  "splitByDeductors lines startPatterns =
     (let (blocks, currentBlock) = split_loop startPatterns lines [] [] False;
          blocks' = (if 0 < length currentBlock then blocks @ [currentBlock] else blocks)
      in if length blocks' = 0 then [lines] else blocks')"

definition extractStatusOfBooking :: "jsstring \<Rightarrow> jsstring option" where
  "extractStatusOfBooking line =
     (case re_match False (seqs [WordB, Grp 1 (Cls (one_of ''FUPO'')), WordB]) line of
        None \<Rightarrow> None
      | Some m \<Rightarrow>
          Some (if grp m 1 = js ''F'' then js ''Final''
                else if grp m 1 = js ''U'' then js ''Unmatched''
                else if grp m 1 = js ''P'' then js ''Provisional''
                else if grp m 1 = js ''O'' then js ''Overbooked''
                else grp m 1))"

definition extractRemarks :: "jsstring \<Rightarrow> jsstring option" where
  "extractRemarks line =
     map_option (\<lambda>m. trim (grp m 1))
       (re_match True
          (seqs [str ''remark'', opt (lit CHR ''s''), label_sep,
                 Grp 1 (Rep 3 (Some 50)
                   (Cls (\<lambda>c. is_upper c \<or> is_lower c \<or> is_digit c \<or> is_space c \<or> c = 45 \<or> c = 46)))])
          line)"

definition sectionPattern :: regex where
  "sectionPattern =
     seqs [WordB, Grp 1 (seqs [lit CHR ''1'', Rep 2 (Some 2) dg, opt (Cls is_upper)]), WordB]"

definition tdsAmountPattern :: regex where
  "tdsAmountPattern =
     seqs [opt (Cls rupee_dollar), star ws, plus1 (Cls digit_comma), lit CHR ''.'', Rep 2 (Some 2) dg]"

text \<open>The transaction \<open>extractTDSTransactions\<close> builds from a line.\<close>

definition tds_txn ::
  "ymd \<Rightarrow> (jsstring \<Rightarrow> ymd option) \<Rightarrow> jsstring \<Rightarrow> jsmatch option \<Rightarrow> tax_txn" where
  "tds_txn now native line sectionMatch =
     (let dateMatches = match_all False heuristicDatePattern line;
          amounts = map normalizeAmount (match_all False tdsAmountPattern line)
      in \<lparr>tds_section = map_option (\<lambda>m. grp m 1) sectionMatch,
          transaction_date =
            (if dateMatches = [] then None else normalizeDate now native (dateMatches ! 0)),
          booking_date =
            (if 2 \<le> length dateMatches \<and> dateMatches ! 1 \<noteq> []
             then normalizeDate now native (dateMatches ! 1) else None),
          status_of_booking = extractStatusOfBooking line,
          remarks = extractRemarks line,
          amount_paid_credited = elem_at amounts 0,
          tax_deducted = elem_at amounts 1,
          tds_deposited = elem_at amounts 2\<rparr>)"

text \<open>The loop over the lines of a block; \<open>hasHeader\<close> is \<open>headerIdx !== -1\<close>.\<close>

fun tds_rows ::
  "ymd \<Rightarrow> (jsstring \<Rightarrow> ymd option) \<Rightarrow> bool \<Rightarrow> jsstring list \<Rightarrow> tax_txn list" where
  "tds_rows now native hasHeader [] = []"
| "tds_rows now native hasHeader (line # lines) =
     (if re_test False (seqs [Bol, plus1 (Cls (\<lambda>c. one_of ''-=|'' c \<or> is_space c)), Eol]) line
      then tds_rows now native hasHeader lines
      else if re_test True (Alt (str ''total'') (seqs [str ''grand'', plus1 ws, str ''total''])) line
      then []
      else
        (let sectionMatch = re_match False sectionPattern line in
         if sectionMatch = None \<and> hasHeader then tds_rows now native hasHeader lines
         else
           (let txn = tds_txn now native line sectionMatch in
            if tds_section txn \<noteq> None \<or> transaction_date txn \<noteq> None
            then txn # tds_rows now native hasHeader lines
            else tds_rows now native hasHeader lines)))"

definition extractTDSTransactions ::
  "ymd \<Rightarrow> (jsstring \<Rightarrow> ymd option) \<Rightarrow> jsstring list \<Rightarrow> tax_txn list" where
  "extractTDSTransactions now native lines =
     (case findIndex (\<lambda>l. re_test True (str ''section'') l
                          \<and> re_test True (Grp 1 (Alt (str ''transaction'') (str ''date''))) l) lines of
        None \<Rightarrow> tds_rows now native False lines
      | Some headerIdx \<Rightarrow> tds_rows now native True (drop (headerIdx + 1) lines))"

definition parseDeductorBlock ::
  "ymd \<Rightarrow> (jsstring \<Rightarrow> ymd option) \<Rightarrow> jsstring list \<Rightarrow> jsstring \<Rightarrow> deductor" where
  "parseDeductorBlock now native lines blockText =
     \<lparr>d_name =
        map_option (\<lambda>m. trim (grp m 1))
          (re_match True
             (seqs [str ''name'', plus1 ws, str ''of'', plus1 ws, str ''deductor'', label_sep,
                    Grp 1 (Seq (Cls is_upper) (Rep 2 (Some 60) (NCls (\<lambda>c. c = 10 \<or> c = 13))))])
             blockText),
      d_tan =
        map_option (\<lambda>m. toUpperCase (grp m 1))
          (re_match True
             (seqs [str ''TAN'', star ws, opt (seqs [str ''of'', plus1 ws, str ''deductor'']), label_sep,
                    Grp 1 (seqs [Rep 4 (Some 4) (Cls is_upper), Rep 5 (Some 5) dg, Cls is_upper])])
             blockText),
      d_pan =
        map_option (\<lambda>m. toUpperCase (grp m 1))
          (re_match True
             (seqs [str ''PAN'', plus1 ws, str ''of'', plus1 ws, str ''deductor'', label_sep, pan_value])
             blockText),
      d_total_amount_paid_credited =
        amount_after
          (seqs [str ''total'', plus1 ws, str ''amount'', plus1 ws, str ''paid'', star ws,
                 opt (lit CHR ''/''), star ws, str ''credited'', label_sep, total_value])
          blockText,
      d_total_tax_deducted = amount_after taxDeductedPattern blockText,
      d_total_tds_deposited = amount_after tdsDepositedPattern blockText,
      d_transactions = extractTDSTransactions now native lines\<rparr>"

text \<open>\<open>extractDeductors\<close>; the list of warnings it returns is never written to.\<close>

definition extractDeductors ::
  "ymd \<Rightarrow> (jsstring \<Rightarrow> ymd option) \<Rightarrow> jsstring list \<Rightarrow> deductor list \<times> warning list" where
  "extractDeductors now native lines =
     (map (\<lambda>block. parseDeductorBlock now native block (join (js [CHR 0x0A]) block))
        (splitByDeductors lines deductorStartPatterns), [])"

record tax_result =
  t_header :: tax_header
  t_deductors :: "deductor list"
  t_confidence :: rat
  t_warnings :: "warning list"

definition extractTaxStatement ::
  "ymd \<Rightarrow> (jsstring \<Rightarrow> ymd option) \<Rightarrow> jsstring list \<Rightarrow> jsstring \<Rightarrow> tax_result" where
  "extractTaxStatement now native pageTexts fullText =
     (let text = cleanOCRArtifacts fullText;
          lines = getLines text;
          hdr = extractTaxHeader text;
          (deductors, tableWarnings) = extractDeductors now native lines;
          warnings = tableWarnings
            @ (if length deductors = 0
               then [\<lparr>code = NO_DEDUCTORS,
                       message = js ''No deductor/TDS sections could be extracted.''\<rparr>]
               else []);
          confidence = calcConfidence (tax_header_object hdr) [''pan'', ''assessment_year'', ''taxpayer_name'']
      in \<lparr>t_header = hdr, t_deductors = deductors,
          t_confidence = max confidence (if 0 < length deductors then 5 / 10 else 1 / 10),
          t_warnings = warnings\<rparr>)"

section \<open>Classification and assembly (parsers/classifier.js, workers/processor.js)\<close>

datatype doc_type = bank_statement | tax_statement | unknown

text \<open>
  The verdict of \<open>classifyDocument\<close>; the branch for \<open>unknown\<close> returns no scores.
\<close>

record verdict =
  documentType :: doc_type
  confidence :: rat
  scores :: "(int \<times> int) option"

definition bankHint :: regex where
  "bankHint = alts [str ''bank'', str ''statement'', str ''passbook'']"

definition taxHint :: regex where
  "taxHint = alts [str ''26as'', str ''tds'', str ''tax'', str ''form16'']"

definition classifyDocument :: "jsstring \<Rightarrow> jsstring \<Rightarrow> verdict" where
  "classifyDocument text filename =
     (let bankScore = scoreText text BANK_KEYWORDS;
          taxScore = scoreText text TAX_KEYWORDS;
          fn = toLowerCase filename;
          bankBonus = (if re_test False bankHint fn then 10 else 0);
          taxBonus = (if re_test False taxHint fn then 10 else 0);
          totalBank = bankScore + bankBonus;
          totalTax = taxScore + taxBonus;
          maxScore = max totalBank totalTax;
          minThreshold = 8
      in if maxScore < minThreshold
         then \<lparr>documentType = unknown, confidence = 0, scores = None\<rparr>
         else
           (let dt = (if totalTax \<le> totalBank then bank_statement else tax_statement);
                winnerScore = (if dt = bank_statement then totalBank else totalTax);
                loserScore = (if dt = bank_statement then totalTax else totalBank);
                conf = min (99 / 100) (of_int winnerScore / of_int (winnerScore + loserScore + 1))
            in \<lparr>documentType = dt, confidence = js_round (conf * 100) / 100,
                scores = Some (totalBank, totalTax)\<rparr>))"

text \<open>
  What the extraction adds to the result object: the header and the records of a bank or
  of a tax statement, or nothing (for \<open>unknown\<close> the program spreads
  \<open>extractionResult.output\<close>, which that branch does not set).
\<close>

datatype payload =
    NoOutput
  | BankOutput bank_header "bank_txn list"
  | TaxOutput tax_header "deductor list"

text \<open>
  The result object. The fields \<open>schema_version\<close>, \<open>document_id\<close> and
  \<open>processing.page_count\<close> are copied from the job and are left out.
\<close>

record final_result =
  document_type :: doc_type
  is_scanned :: bool
  overall_confidence :: rat
  warnings :: "warning list"
  extracted :: payload

text \<open>
  The part of \<open>processJob\<close> from the joined page texts to the validated result.
  \<open>isScanned\<close> says whether the texts come from OCR. \<open>validateResult\<close> runs the
  compiled JSON schemas of the library Ajv and is a parameter: it gives \<open>valid\<close> and the
  rendered errors.
\<close>

definition PAGE_BREAK :: jsstring where
  "PAGE_BREAK = js [CHR 0x0A, CHR 0x0A] @ js ''--- PAGE BREAK ---'' @ js [CHR 0x0A, CHR 0x0A]"

definition processCore ::
  "ymd \<Rightarrow> (jsstring \<Rightarrow> ymd option) \<Rightarrow> (final_result \<Rightarrow> doc_type \<Rightarrow> bool \<times> jsstring list)
     \<Rightarrow> bool \<Rightarrow> jsstring list \<Rightarrow> jsstring \<Rightarrow> final_result" where
  "processCore now native validateResult isScanned pageTexts originalName =
     (let fullText = join PAGE_BREAK pageTexts;
          warnings1 =
            (if isScanned
             then [\<lparr>code = SCANNED_PDF, message = js ''Document appears to be scanned. OCR applied.''\<rparr>]
             else []);
          warnings2 = warnings1
            @ (if isScanned
                  \<and> length (filter (\<lambda>w. 2 < length w) (split False (plus1 ws) fullText)) < 20
               then [\<lparr>code = LOW_OCR_QUALITY,
                       message = js (''OCR produced very little readable text. ''
                         @ ''The scan quality may be too poor to extract data reliably.'')\<rparr>]
               else []);
          v = classifyDocument fullText originalName;
          warnings3 = warnings2
            @ (if documentType v = unknown
               then [\<lparr>code = UNKNOWN_DOCUMENT_TYPE,
                       message = js (''Could not confidently classify document type. ''
                         @ ''Attempting generic extraction.'')\<rparr>]
               else []);
          (out, extractionConfidence, extractionWarnings) =
            (if documentType v = bank_statement then
               (let r = extractBankStatement now native pageTexts fullText
                in (BankOutput (b_header r) (b_transactions r), b_confidence r, b_warnings r))
             else if documentType v = tax_statement then
               (let r = extractTaxStatement now native pageTexts fullText
                in (TaxOutput (t_header r) (t_deductors r), t_confidence r, t_warnings r))
             else (NoOutput, 1 / 10, []));
          overallConfidence =
            js_round ((confidence v * (2 / 10) + extractionConfidence * (8 / 10)) * 100) / 100;
          finalResult =
            \<lparr>document_type = documentType v, is_scanned = isScanned,
             overall_confidence = overallConfidence,
             warnings = warnings3 @ extractionWarnings, extracted = out\<rparr>;
          (valid, schemaErrors) = validateResult finalResult (documentType v)
      in if \<not> valid
         then finalResult\<lparr>warnings := warnings finalResult
                @ map (\<lambda>e. \<lparr>code = SCHEMA_VALIDATION, message = e\<rparr>) schemaErrors\<rparr>
         else finalResult)"

section \<open>Notions the claims name\<close>

text \<open>
  An amount string with its currency symbols, white space and commas removed; whether such
  a string carries a mark of negativity (it is fully parenthesised or it begins with a
  minus sign); and what is left of it for the number parser (no parenthesis, one leading
  minus sign less).
\<close>

definition strip_amount :: "jsstring \<Rightarrow> jsstring" where
  "strip_amount s = filter (\<lambda>c. \<not> currency_or_space c) s"

definition has_negative_mark :: "jsstring \<Rightarrow> bool" where
  "has_negative_mark t =
     ((startsWith t (js ''('') \<and> endsWith t (js '')'')) \<or> startsWith t (js ''-''))"

definition unsigned_part :: "jsstring \<Rightarrow> jsstring" where
  "unsigned_part t =
     (case filter (\<lambda>c. c \<noteq> 40 \<and> c \<noteq> 41) t of
        [] \<Rightarrow> []
      | x # r \<Rightarrow> if x = 45 then r else x # r)"

fun is_positive :: "jsnum \<Rightarrow> bool" where
  "is_positive (Fin x) = (0 < x)"
| "is_positive PInf = True"
| "is_positive NInf = False"

text \<open>
  The text \<open>normalizeDate\<close> parses (\<open>cleaned\<close> in the source), and the form
  \<open>YYYY-MM-DD\<close>: four digits, a hyphen, two digits, a hyphen, two digits.
\<close>

definition cleaned_text :: "jsstring \<Rightarrow> jsstring" where
  "cleaned_text s = replace_all False (plus1 ws) (js '' '') (trim s)"

definition is_iso_date :: "jsstring \<Rightarrow> bool" where
  "is_iso_date s =
     (length s = 10 \<and> list_all is_digit (take 4 s) \<and> s ! 4 = 45
      \<and> list_all is_digit (take 2 (drop 5 s)) \<and> s ! 7 = 45 \<and> list_all is_digit (drop 8 s))"

text \<open>
  What the date object of the engine can hold when it is valid: a month from 0 to 11 and
  a day of the month from 1 to 31.
\<close>

definition calendar_date :: "ymd \<Rightarrow> bool" where
  "calendar_date d = (0 \<le> month d \<and> month d \<le> 11 \<and> 1 \<le> day d \<and> day d \<le> 31)"

text \<open>
  The two-decimal tokens of a line outside its date tokens: the matches of the amount
  pattern in the pieces into which the date tokens cut the line. On a line that is apart
  from its dates no part of a date token is read as an amount: the matches of the amount
  pattern on the whole line are these tokens.
\<close>

definition monetary_tokens :: "jsstring \<Rightarrow> jsstring list" where
  "monetary_tokens line =
     concat (map (match_all False heuristicAmountPattern) (split False numeric_date_token line))"

definition date_apart :: "jsstring \<Rightarrow> bool" where
  "date_apart line = (match_all False heuristicAmountPattern line = monetary_tokens line)"

text \<open>
  The letters that the OCR repair rewrites: an \<open>l\<close> that stands before a digit, and an \<open>O\<close>
  that stands before a digit or before such an \<open>l\<close> (the \<open>l\<close> is rewritten first). A
  late letter is one that the repair leaves and that stands before a digit once the repair
  has run: an \<open>l\<close> before a rewritten \<open>l\<close> or \<open>O\<close>, or an \<open>O\<close> before a rewritten \<open>O\<close>.
  \<open>nowhere P s\<close> says that \<open>P\<close> holds of no non-empty suffix of \<open>s\<close>.
\<close>

definition next_is :: "(cu \<Rightarrow> bool) \<Rightarrow> jsstring \<Rightarrow> bool" where
  "next_is P ys = (case ys of [] \<Rightarrow> False | z # _ \<Rightarrow> P z)"

definition rewritten_l :: "jsstring \<Rightarrow> bool" where
  "rewritten_l s = (case s of [] \<Rightarrow> False | y # ys \<Rightarrow> y = 108 \<and> next_is is_digit ys)"

definition rewritten_O :: "jsstring \<Rightarrow> bool" where
  "rewritten_O s =
     (case s of [] \<Rightarrow> False | y # ys \<Rightarrow> y = 79 \<and> (next_is is_digit ys \<or> rewritten_l ys))"

definition late_letter :: "jsstring \<Rightarrow> bool" where
  "late_letter s =
     (case s of [] \<Rightarrow> False
      | y # ys \<Rightarrow> (y = 108 \<and> (rewritten_l ys \<or> rewritten_O ys)) \<or> (y = 79 \<and> rewritten_O ys))"

fun nowhere :: "(jsstring \<Rightarrow> bool) \<Rightarrow> jsstring \<Rightarrow> bool" where
  "nowhere P [] = True"
| "nowhere P (y # ys) = (\<not> P (y # ys) \<and> nowhere P ys)"

definition no_late_letter :: "jsstring \<Rightarrow> bool" where
  "no_late_letter t = nowhere late_letter t"

subsection \<open>The five substitutions of the OCR repair, as recursive functions\<close>

text \<open>
  What each \<open>replace\<close> of \<open>cleanOCRArtifacts\<close> computes, written without the matcher; the
  properties section proves that the matcher computes the same.
\<close>

text \<open>A letter \<open>a\<close> that stands before a digit becomes \<open>b\<close>.\<close>

fun fix_before :: "cu \<Rightarrow> cu \<Rightarrow> jsstring \<Rightarrow> jsstring" where
  "fix_before a b [] = []"
| "fix_before a b (y # ys) = (if y = a \<and> next_is is_digit ys then b else y) # fix_before a b ys"

text \<open>An \<open>I\<close> after a word boundary and before a digit becomes \<open>1\<close>; \<open>w\<close>: the code unit before is a word character.\<close>

fun fix_I :: "bool \<Rightarrow> jsstring \<Rightarrow> jsstring" where
  "fix_I w [] = []"
| "fix_I w (y # ys) = (if \<not> w \<and> y = 73 \<and> next_is is_digit ys then 49 else y) # fix_I (is_word y) ys"

text \<open>A run of two or more code units of a class becomes one space.\<close>

function collapse_runs :: "(cu \<Rightarrow> bool) \<Rightarrow> jsstring \<Rightarrow> jsstring" where
  "collapse_runs Q [] = []"
| "collapse_runs Q (y # ys) =
     (if Q y \<and> next_is Q ys then 32 # collapse_runs Q (dropWhile Q ys)
      else y # collapse_runs Q ys)"
  by pat_completeness auto
termination
  by (relation "measure (\<lambda>(Q, s). length s)") (auto simp add: length_dropWhile_le le_imp_less_Suc)

text \<open>No \<open>I\<close> stands after a word boundary and before a digit.\<close>

fun no_boundary_I :: "bool \<Rightarrow> jsstring \<Rightarrow> bool" where
  "no_boundary_I w [] = True"
| "no_boundary_I w (y # ys) = (\<not> (\<not> w \<and> y = 73 \<and> next_is is_digit ys) \<and> no_boundary_I (is_word y) ys)"

text \<open>\<open>no_adj R s\<close>: no two neighbours of \<open>s\<close> are related by \<open>R\<close>.\<close>

fun no_adj :: "(cu \<Rightarrow> cu \<Rightarrow> bool) \<Rightarrow> jsstring \<Rightarrow> bool" where
  "no_adj R [] = True"
| "no_adj R [x] = True"
| "no_adj R (x # y # zs) = (\<not> R x y \<and> no_adj R (y # zs))"

text \<open>An \<open>O\<close> before a digit, and an \<open>l\<close> or \<open>O\<close> before such an \<open>O\<close>.\<close>

definition O_before_digit :: "jsstring \<Rightarrow> bool" where
  "O_before_digit s = (case s of [] \<Rightarrow> False | y # ys \<Rightarrow> y = 79 \<and> next_is is_digit ys)"

definition letter_before_O :: "jsstring \<Rightarrow> bool" where
  "letter_before_O s =
     (case s of [] \<Rightarrow> False | y # ys \<Rightarrow> (y = 108 \<or> y = 79) \<and> O_before_digit ys)"

section \<open>Properties\<close>

text \<open>
  C1. The claim is that a keyword pattern contributes \<open>min(occurrences, 2) \<times> weight\<close> to
  the score of its rule set. The code reads the length of the match array of a
  non-global match, which is one plus the number of capturing groups of the pattern and
  does not count occurrences: in the text "debit debit debit" the pattern \<open>/debit/i\<close>
  (weight 3, the only bank pattern that matches) occurs three times and contributes 3, not
  6; in the text "account number" the pattern \<open>/account\s+(number|no\.?|#)/i\<close> (weight 4,
  the only bank pattern that matches) occurs once and contributes 8, not 4.
\<close>

theorem scoreText_ignores_occurrences:
  "occurrences (js ''debit debit debit'') (str ''debit'') = 3
   \<and> scoreText (js ''debit debit debit'') [(str ''debit'', 3)] = 3
   \<and> scoreText (js ''debit debit debit'') BANK_KEYWORDS = 3
   \<and> occurrences (js ''account number'') (fst (BANK_KEYWORDS ! 1)) = 1
   \<and> scoreText (js ''account number'') [BANK_KEYWORDS ! 1] = 8
   \<and> scoreText (js ''account number'') BANK_KEYWORDS = 8"
  by code_simp

subsection \<open>The table extractor on a header line and one row\<close>

lemma salary_row_is_no_header:
  "\<forall>p \<in> set headerPatterns. \<not> re_test True p (js ''01/01/2024 SALARY CREDIT 55000.00 80430.50'')"
  by code_simp

lemma find_header_first_line:
  assumes "\<exists>p \<in> set ps. re_test True p h"
    and "\<forall>p \<in> set ps. \<not> re_test True p row"
  shows "find_header ps [h, row] = Some 0"
  using assms by (induction ps) auto

lemma scan_salary_row:
  "scan_rows now native colMap i [js ''01/01/2024 SALARY CREDIT 55000.00 80430.50'']
   = [\<lparr>date = Some (js ''2024-01-01''), description = Some (js ''SALARY CREDIT''),
       debit = None, credit = Some (Fin 55000), balance = Some (Fin (8043050 / 100)),
       reference = None,
       raw = Some (js ''01/01/2024 SALARY CREDIT 55000.00 80430.50'')\<rparr>]"
  by code_simp

text \<open>
  On the list of lines the table extractor does what the claim says, whatever the header
  line: with a line that one of the header patterns matches, followed by the row, it
  returns the one transaction and no warning.
\<close>

lemma salary_row_after_header_line:
  assumes "\<exists>p \<in> set headerPatterns. re_test True p h"
  shows "extractTransactions now native [h, js ''01/01/2024 SALARY CREDIT 55000.00 80430.50'']
         = ([\<lparr>date = Some (js ''2024-01-01''), description = Some (js ''SALARY CREDIT''),
              debit = None, credit = Some (Fin 55000), balance = Some (Fin (8043050 / 100)),
              reference = None,
              raw = Some (js ''01/01/2024 SALARY CREDIT 55000.00 80430.50'')\<rparr>], [])"
proof -
  have "find_header headerPatterns [h, js ''01/01/2024 SALARY CREDIT 55000.00 80430.50''] = Some 0"
    using assms salary_row_is_no_header by (rule find_header_first_line)
  then show ?thesis
    by (simp add: extractTransactions_def scan_salary_row del: scan_rows.simps)
qed

text \<open>
  What the bank extractor hands to the table extractor: the lines of the repaired text.
\<close>

lemma bank_transactions_of_text:
  "b_transactions (extractBankStatement now native pageTexts t)
   = fst (extractTransactions now native (getLines (cleanOCRArtifacts t)))"
  by (simp add: extractBankStatement_def Let_def split: prod.split)

lemma bank_warnings_of_text:
  "map code (b_warnings (extractBankStatement now native pageTexts t))
   = map code (snd (extractTransactions now native (getLines (cleanOCRArtifacts t))))
     @ (if fst (extractTransactions now native (getLines (cleanOCRArtifacts t))) = []
        then [NO_TRANSACTIONS] else [])"
  by (simp add: extractBankStatement_def Let_def split: prod.split)

lemma lines_with_line_feeds:
  "getLines (cleanOCRArtifacts
       (js ''Statement of account'' @ [10] @ js ''31/12/2023 BROUGHT FORWARD 25430.50'' @ [10]
        @ js ''Date Description Debit Credit Balance'' @ [10]
        @ js ''01/01/2024 SALARY CREDIT 55000.00 80430.50'' @ [10] @ js ''Closing Balance 80430.50''))
   = [js ''Statement of account'', js ''31/12/2023 BROUGHT FORWARD 25430.50'',
      js ''Date Description Debit Credit Balance'',
      js ''01/01/2024 SALARY CREDIT 55000.00 80430.50'', js ''Closing Balance 80430.50'']"
  by code_simp

lemma lines_with_crlf:
  "getLines (cleanOCRArtifacts (js ''Date Description Debit Credit Balance'' @ [13, 10]
        @ js ''01/01/2024 SALARY CREDIT 55000.00 80430.50''))
   = [js ''Date Description Debit Credit Balance 01/01/2024 SALARY CREDIT 55000.00 80430.50'']"
  by code_simp

lemma lines_with_blank_line:
  "getLines (cleanOCRArtifacts (js ''Date Description Debit Credit Balance'' @ [10, 10]
        @ js ''01/01/2024 SALARY CREDIT 55000.00 80430.50''))
   = [js ''Date Description Debit Credit Balance 01/01/2024 SALARY CREDIT 55000.00 80430.50'']"
  by code_simp

lemma lines_with_page_break:
  "getLines (cleanOCRArtifacts (join PAGE_BREAK [js ''Date Description Debit Credit Balance'',
        js ''01/01/2024 SALARY CREDIT 55000.00 80430.50'']))
   = [js ''Date Description Debit Credit Balance --- PAGE BREAK --- 01/01/2024 SALARY CREDIT 55000.00 80430.50'']"
  by code_simp

lemma table_of_five_lines:
  "extractTransactions now native
     [js ''Statement of account'', js ''31/12/2023 BROUGHT FORWARD 25430.50'',
      js ''Date Description Debit Credit Balance'',
      js ''01/01/2024 SALARY CREDIT 55000.00 80430.50'', js ''Closing Balance 80430.50'']
   = ([\<lparr>date = Some (js ''2024-01-01''), description = Some (js ''SALARY CREDIT''),
        debit = None, credit = Some (Fin 55000), balance = Some (Fin (8043050 / 100)),
        reference = None,
        raw = Some (js ''01/01/2024 SALARY CREDIT 55000.00 80430.50'')\<rparr>], [])"
  by code_simp

lemma table_of_merged_line:
  "extractTransactions now native
     [js ''Date Description Debit Credit Balance 01/01/2024 SALARY CREDIT 55000.00 80430.50'']
   = ([], [])"
  by code_simp

lemma table_of_merged_pages:
  "extractTransactions now native
     [js ''Date Description Debit Credit Balance --- PAGE BREAK --- 01/01/2024 SALARY CREDIT 55000.00 80430.50'']
   = ([], [])"
  by code_simp

text \<open>
  C7. The claim: for a bank-statement text with a detectable header row followed by the
  row "01/01/2024 SALARY CREDIT 55000.00 80430.50", the extraction gives exactly one
  transaction, with date 2024-01-01, a description, credit 55000.00, balance 80430.50 and
  debit \<open>null\<close>. The extractor does so when one line feed ends each line (first part,
  with a title line and a dated line before the header and a closing line after the row). It gives no
  transaction and the warning \<open>NO_TRANSACTIONS\<close> when the lines end in carriage return and
  line feed, when a blank line stands between header and row, and when the header ends one
  page and the row begins the next: \<open>cleanOCRArtifacts\<close> runs before \<open>getLines\<close>, its last
  substitution turns every run of two or more white-space characters into one space, line
  terminators included, and header and row reach the table extractor as one line.
\<close>

theorem salary_row_lost_with_line_breaks:
  "b_transactions (extractBankStatement now native pageTexts
       (js ''Statement of account'' @ [10] @ js ''31/12/2023 BROUGHT FORWARD 25430.50'' @ [10]
        @ js ''Date Description Debit Credit Balance'' @ [10]
        @ js ''01/01/2024 SALARY CREDIT 55000.00 80430.50'' @ [10] @ js ''Closing Balance 80430.50''))
     = [\<lparr>date = Some (js ''2024-01-01''), description = Some (js ''SALARY CREDIT''),
          debit = None, credit = Some (Fin 55000), balance = Some (Fin (8043050 / 100)),
          reference = None,
          raw = Some (js ''01/01/2024 SALARY CREDIT 55000.00 80430.50'')\<rparr>]
   \<and> getLines (cleanOCRArtifacts (js ''Date Description Debit Credit Balance'' @ [13, 10]
        @ js ''01/01/2024 SALARY CREDIT 55000.00 80430.50''))
     = [js ''Date Description Debit Credit Balance 01/01/2024 SALARY CREDIT 55000.00 80430.50'']
   \<and> b_transactions (extractBankStatement now native pageTexts
       (js ''Date Description Debit Credit Balance'' @ [13, 10]
        @ js ''01/01/2024 SALARY CREDIT 55000.00 80430.50'')) = []
   \<and> map code (b_warnings (extractBankStatement now native pageTexts
       (js ''Date Description Debit Credit Balance'' @ [13, 10]
        @ js ''01/01/2024 SALARY CREDIT 55000.00 80430.50''))) = [NO_TRANSACTIONS]
   \<and> b_transactions (extractBankStatement now native pageTexts
       (js ''Date Description Debit Credit Balance'' @ [10, 10]
        @ js ''01/01/2024 SALARY CREDIT 55000.00 80430.50'')) = []
   \<and> b_transactions (extractBankStatement now native pageTexts
       (join PAGE_BREAK [js ''Date Description Debit Credit Balance'',
          js ''01/01/2024 SALARY CREDIT 55000.00 80430.50''])) = []"
  unfolding bank_transactions_of_text bank_warnings_of_text
    lines_with_line_feeds lines_with_crlf lines_with_blank_line lines_with_page_break
    table_of_five_lines table_of_merged_line table_of_merged_pages
  by simp

text \<open>
  C8. For the text made of the three lines "Name of Deductor: XYZ Pvt Ltd",
  "TAN: MUMX12345A" and "192 30/04/2024 F 5500.00", the tax extractor returns exactly one
  deductor, with TAN "MUMX12345A", holding exactly one transaction, with section "192",
  transaction date 2024-04-30 and status of booking "Final".
\<close>

theorem deductor_block_example:
  "t_deductors (extractTaxStatement now native pageTexts
      (js ''Name of Deductor: XYZ Pvt Ltd'' @ js [CHR 0x0A] @ js ''TAN: MUMX12345A''
         @ js [CHR 0x0A] @ js ''192 30/04/2024 F 5500.00''))
   = [\<lparr>d_name = Some (js ''XYZ Pvt Ltd''), d_tan = Some (js ''MUMX12345A''), d_pan = None,
       d_total_amount_paid_credited = None, d_total_tax_deducted = None,
       d_total_tds_deposited = None,
       d_transactions =
         [\<lparr>tds_section = Some (js ''192''), transaction_date = Some (js ''2024-04-30''),
           booking_date = None, status_of_booking = Some (js ''Final''), remarks = None,
           amount_paid_credited = Some (Fin 5500), tax_deducted = None,
           tds_deposited = None\<rparr>]\<rparr>]"
  by code_simp

text \<open>
  C10. A monetary token whose value is 0 is recorded as \<open>null\<close>, not as 0: by the row
  parser, when the row has three or more amounts, in \<open>debit\<close>, \<open>credit\<close> and \<open>balance\<close>;
  by the heuristic in all three fields. The output then does not tell a zero amount from a
  missing one.
\<close>

theorem zero_amount_is_null:
  "(parseTransactionRow now native line colMap lineIdx = Some txn \<longrightarrow>
      3 \<le> length (row_amounts line) \<longrightarrow>
        (fst (row_amounts line ! 0) = Some (Fin 0) \<longrightarrow> debit txn = None)
        \<and> (fst (row_amounts line ! 1) = Some (Fin 0) \<longrightarrow> credit txn = None)
        \<and> (fst (row_amounts line ! 2) = Some (Fin 0) \<longrightarrow> balance txn = None))
   \<and> ((0 < length (heuristic_amounts line) \<and> heuristic_amounts line ! 0 = Some (Fin 0)
          \<longrightarrow> debit (heuristic_txn now native line dateMatch) = None)
      \<and> (1 < length (heuristic_amounts line) \<and> heuristic_amounts line ! 1 = Some (Fin 0)
          \<longrightarrow> credit (heuristic_txn now native line dateMatch) = None)
      \<and> (2 < length (heuristic_amounts line) \<and> heuristic_amounts line ! 2 = Some (Fin 0)
          \<longrightarrow> balance (heuristic_txn now native line dateMatch) = None))"
proof -
  have row: "debit txn = or_null (fst (row_amounts line ! 0))
      \<and> credit txn = or_null (fst (row_amounts line ! 1))
      \<and> balance txn = or_null (fst (row_amounts line ! 2))"
    if "parseTransactionRow now native line colMap lineIdx = Some txn"
      and "3 \<le> length (row_amounts line)"
    using that
    by (auto simp add: parseTransactionRow_def Let_def split: option.splits)
  have heur: "debit (heuristic_txn now native line dateMatch) = or_null (elem_at (heuristic_amounts line) 0)
      \<and> credit (heuristic_txn now native line dateMatch) = or_null (elem_at (heuristic_amounts line) 1)
      \<and> balance (heuristic_txn now native line dateMatch) = or_null (elem_at (heuristic_amounts line) 2)"
    by (simp add: heuristic_txn_def Let_def)
  show ?thesis
    using row heur by (auto simp add: elem_at_def)
qed

theorem zero_amount_is_null_witness:
  "parseTransactionRow \<lparr>year = 2024, month = 0, day = 1\<rparr> (\<lambda>s. None)
       (js ''01/01/2024 NIL 0.00 0.00 0.00'') (detectColumns []) 1
     = Some \<lparr>date = Some (js ''2024-01-01''), description = Some (js ''NIL''),
              debit = None, credit = None, balance = None, reference = None,
              raw = Some (js ''01/01/2024 NIL 0.00 0.00 0.00'')\<rparr>
   \<and> map fst (row_amounts (js ''01/01/2024 NIL 0.00 0.00 0.00''))
       = [Some (Fin 0), Some (Fin 0), Some (Fin 0)]
   \<and> heuristic_amounts (js ''01/01/2024 NIL 0.00 0.00 0.00'')
       = [Some (Fin 0), Some (Fin 0), Some (Fin 0)]
   \<and> debit (heuristic_txn \<lparr>year = 2024, month = 0, day = 1\<rparr> (\<lambda>s. None)
         (js ''01/01/2024 NIL 0.00 0.00 0.00'') \<lparr>m_index = 0, m_whole = js ''01/01/2024'', m_groups = [Some (js ''01/01/2024'')]\<rparr>) = None
   \<and> credit (heuristic_txn \<lparr>year = 2024, month = 0, day = 1\<rparr> (\<lambda>s. None)
         (js ''01/01/2024 NIL 0.00 0.00 0.00'') \<lparr>m_index = 0, m_whole = js ''01/01/2024'', m_groups = [Some (js ''01/01/2024'')]\<rparr>) = None
   \<and> balance (heuristic_txn \<lparr>year = 2024, month = 0, day = 1\<rparr> (\<lambda>s. None)
         (js ''01/01/2024 NIL 0.00 0.00 0.00'') \<lparr>m_index = 0, m_whole = js ''01/01/2024'', m_groups = [Some (js ''01/01/2024'')]\<rparr>) = None"
proof -
  let ?line = "js ''01/01/2024 NIL 0.00 0.00 0.00''"
  let ?now = "\<lparr>year = 2024, month = 0, day = 1\<rparr>"
  let ?dm = "\<lparr>m_index = 0, m_whole = js ''01/01/2024'', m_groups = [Some (js ''01/01/2024'')]\<rparr>"
  let ?txn = "\<lparr>date = Some (js ''2024-01-01''), description = Some (js ''NIL''),
              debit = None, credit = None, balance = None, reference = None,
              raw = Some ?line\<rparr>"
  have p: "parseTransactionRow ?now (\<lambda>s. None) ?line (detectColumns []) 1 = Some ?txn"
    by code_simp
  have a: "map fst (row_amounts ?line) = [Some (Fin 0), Some (Fin 0), Some (Fin 0)]"
    by code_simp
  have b: "heuristic_amounts ?line = [Some (Fin 0), Some (Fin 0), Some (Fin 0)]"
    by code_simp
  from a have len: "3 \<le> length (row_amounts ?line)"
    by (metis length_map eval_nat_numeral(3) length_Cons list.size(3) order_refl numeral_2_eq_2)
  from zero_amount_is_null [of ?now "\<lambda>s. None" ?line "detectColumns []" 1 ?txn ?dm] p a b
  show ?thesis
    by simp
qed

text \<open>
  C9. The claim: when no header pattern matches any line, the warnings of the table
  extractor are \<open>NO_TABLE_HEADER\<close> and \<open>HEURISTIC_PARSING\<close>, every transaction comes from
  a line with a date token and at least one two-decimal token, and the tokens go to
  \<open>debit\<close>, \<open>credit\<close>, \<open>balance\<close> by position. The last part fails for a token of value 0:
  on the line "01/01/2024 0.00 5.00 7.00" the first token is 0.00 and \<open>debit\<close> is \<open>null\<close>.
  The last two parts fail where the date is written with dots, because the amount pattern is
  matched on the whole line and finds "01.01" inside the date: the line
  "01.01.2024 SALARY" has no monetary token and gives a transaction with debit 1.01, and on
  "01.01.2024 SALARY 500.00" the one monetary token, 500.00, goes to \<open>credit\<close>.
\<close>

theorem heuristic_positional_counterexample:
  "find_header headerPatterns [js ''01/01/2024 0.00 5.00 7.00''] = None
   \<and> match_all False heuristicAmountPattern (js ''01/01/2024 0.00 5.00 7.00'')
       = [js ''0.00'', js ''5.00'', js ''7.00'']
   \<and> heuristic_amounts (js ''01/01/2024 0.00 5.00 7.00'') = [Some (Fin 0), Some (Fin 5), Some (Fin 7)]
   \<and> map debit (fst (extractTransactions \<lparr>year = 2024, month = 0, day = 1\<rparr> (\<lambda>s. None)
         [js ''01/01/2024 0.00 5.00 7.00''])) = [None]
   \<and> find_header headerPatterns [js ''01.01.2024 SALARY''] = None
   \<and> match_all False heuristicDatePattern (js ''01.01.2024 SALARY'')
       = [js ''01.01.2024'']
   \<and> monetary_tokens (js ''01.01.2024 SALARY'') = []
   \<and> fst (extractTransactions \<lparr>year = 2024, month = 0, day = 1\<rparr> (\<lambda>s. None)
         [js ''01.01.2024 SALARY''])
       = [\<lparr>date = Some (js ''2024-01-01''), description = Some (js ''SALARY''),
           debit = Some (Fin (101 / 100)), credit = None, balance = None,
           reference = None, raw = None\<rparr>]
   \<and> find_header headerPatterns [js ''01.01.2024 SALARY 500.00''] = None
   \<and> monetary_tokens (js ''01.01.2024 SALARY 500.00'') = [js ''500.00'']
   \<and> fst (extractTransactions \<lparr>year = 2024, month = 0, day = 1\<rparr> (\<lambda>s. None)
         [js ''01.01.2024 SALARY 500.00''])
       = [\<lparr>date = Some (js ''2024-01-01''), description = Some (js ''SALARY''),
           debit = Some (Fin (101 / 100)), credit = Some (Fin 500), balance = None,
           reference = None, raw = None\<rparr>]"
  by code_simp

subsection \<open>The table extractor without a header line\<close>

lemma findIndex_none:
  "\<forall>x \<in> set xs. \<not> P x \<Longrightarrow> findIndex P xs = None"
  by (induction xs) auto

lemma find_header_none:
  "\<forall>p \<in> set ps. \<forall>l \<in> set lines. \<not> re_test True p l \<Longrightarrow> find_header ps lines = None"
  by (induction ps) (auto simp add: findIndex_none)

lemma heuristic_rows_concat:
  "heuristic_rows now native lines
   = concat (map (\<lambda>l. case re_match False heuristicDatePattern l of
                         None \<Rightarrow> []
                       | Some dateMatch \<Rightarrow>
                           if match_all False heuristicAmountPattern l = [] then []
                           else [heuristic_txn now native l dateMatch]) lines)"
  by (induction lines) (auto simp add: heuristic_amounts_def split: option.splits)

lemma or_null_elem_at:
  "or_null (elem_at xs i) = (if i < length xs \<and> xs ! i \<noteq> Some (Fin 0) then xs ! i else None)"
  by (cases "elem_at xs i") (auto simp add: elem_at_def split: if_splits)

text \<open>
  C9, amended. When no header pattern matches any line and on no line a part of a date
  token is read as an amount, the warnings are \<open>NO_TABLE_HEADER\<close> then
  \<open>HEURISTIC_PARSING\<close>; the transactions are, in order, those of the lines that have a date
  token and at least one two-decimal token outside the date tokens; and on such a line the
  first, second and third of these tokens go to \<open>debit\<close>, \<open>credit\<close> and \<open>balance\<close>, a token whose value
  is 0 (or a missing token) giving \<open>null\<close>.
\<close>

theorem heuristic_fallback:
  assumes h: "\<forall>p \<in> set headerPatterns. \<forall>l \<in> set lines. \<not> re_test True p l"
    and m: "\<forall>l \<in> set lines. date_apart l"
  shows "map code (snd (extractTransactions now native lines)) = [NO_TABLE_HEADER, HEURISTIC_PARSING]
    \<and> fst (extractTransactions now native lines)
        = concat (map (\<lambda>l. case re_match False heuristicDatePattern l of
                             None \<Rightarrow> []
                           | Some dateMatch \<Rightarrow>
                               if monetary_tokens l = [] then []
                               else [heuristic_txn now native l dateMatch]) lines)
    \<and> (\<forall>l \<in> set lines. \<forall>dateMatch. re_match False heuristicDatePattern l = Some dateMatch \<longrightarrow>
          debit (heuristic_txn now native l dateMatch)
            = (if 0 < length (monetary_tokens l)
                  \<and> normalizeAmount (monetary_tokens l ! 0) \<noteq> Some (Fin 0)
               then normalizeAmount (monetary_tokens l ! 0) else None)
          \<and> credit (heuristic_txn now native l dateMatch)
            = (if 1 < length (monetary_tokens l)
                  \<and> normalizeAmount (monetary_tokens l ! 1) \<noteq> Some (Fin 0)
               then normalizeAmount (monetary_tokens l ! 1) else None)
          \<and> balance (heuristic_txn now native l dateMatch)
            = (if 2 < length (monetary_tokens l)
                  \<and> normalizeAmount (monetary_tokens l ! 2) \<noteq> Some (Fin 0)
               then normalizeAmount (monetary_tokens l ! 2) else None))"
proof -
  have none: "find_header headerPatterns lines = None"
    using h by (rule find_header_none)
  have tok: "match_all False heuristicAmountPattern l = monetary_tokens l" if "l \<in> set lines" for l
    using m that by (auto simp add: date_apart_def)
  have rows: "heuristic_rows now native lines
      = concat (map (\<lambda>l. case re_match False heuristicDatePattern l of
                           None \<Rightarrow> []
                         | Some dateMatch \<Rightarrow>
                             if monetary_tokens l = [] then []
                             else [heuristic_txn now native l dateMatch]) lines)"
    unfolding heuristic_rows_concat
    by (intro arg_cong [where f = concat] map_cong refl) (auto simp add: tok split: option.splits)
  have fields: "debit (heuristic_txn now native l dm)
        = (if 0 < length (monetary_tokens l) \<and> normalizeAmount (monetary_tokens l ! 0) \<noteq> Some (Fin 0)
           then normalizeAmount (monetary_tokens l ! 0) else None)
      \<and> credit (heuristic_txn now native l dm)
        = (if 1 < length (monetary_tokens l) \<and> normalizeAmount (monetary_tokens l ! 1) \<noteq> Some (Fin 0)
           then normalizeAmount (monetary_tokens l ! 1) else None)
      \<and> balance (heuristic_txn now native l dm)
        = (if 2 < length (monetary_tokens l) \<and> normalizeAmount (monetary_tokens l ! 2) \<noteq> Some (Fin 0)
           then normalizeAmount (monetary_tokens l ! 2) else None)"
    if "l \<in> set lines" "re_match False heuristicDatePattern l = Some dm" for l dm
  proof -
    have on: "or_null (elem_at (map normalizeAmount ts) i)
        = (if i < length ts \<and> normalizeAmount (ts ! i) \<noteq> Some (Fin 0)
           then normalizeAmount (ts ! i) else None)" for ts i
      by (cases "i < length ts") (simp_all add: or_null_elem_at)
    have "debit (heuristic_txn now native l dm)
          = or_null (elem_at (map normalizeAmount (monetary_tokens l)) 0)"
      "credit (heuristic_txn now native l dm)
          = or_null (elem_at (map normalizeAmount (monetary_tokens l)) 1)"
      "balance (heuristic_txn now native l dm)
          = or_null (elem_at (map normalizeAmount (monetary_tokens l)) 2)"
      by (simp_all add: heuristic_txn_def Let_def heuristic_amounts_def tok [OF that(1)])
    then show ?thesis
      by (simp only: on)
  qed
  have w: "map code (snd (extractTransactions now native lines)) = [NO_TABLE_HEADER, HEURISTIC_PARSING]"
    by (simp add: extractTransactions_def none parseTransactionHeuristic_def)
  have t: "fst (extractTransactions now native lines) = heuristic_rows now native lines"
    by (simp add: extractTransactions_def none parseTransactionHeuristic_def)
  from w t rows fields show ?thesis
    by (simp only:) blast
qed

theorem heuristic_fallback_witness:
  "find_header headerPatterns
       [js ''01/01/2024 12.50 5.00 7.00'', js ''no date 3.00'', js ''02/01/2024 RENT 0.00 9.00'',
        js ''03/01/2024 no amount''] = None
   \<and> list_all date_apart
       [js ''01/01/2024 12.50 5.00 7.00'', js ''no date 3.00'', js ''02/01/2024 RENT 0.00 9.00'',
        js ''03/01/2024 no amount'']
   \<and> map code (snd (extractTransactions \<lparr>year = 2024, month = 0, day = 1\<rparr> (\<lambda>s. None)
        [js ''01/01/2024 12.50 5.00 7.00'', js ''no date 3.00'', js ''02/01/2024 RENT 0.00 9.00'',
         js ''03/01/2024 no amount'']))
       = [NO_TABLE_HEADER, HEURISTIC_PARSING]
   \<and> fst (extractTransactions \<lparr>year = 2024, month = 0, day = 1\<rparr> (\<lambda>s. None)
        [js ''01/01/2024 12.50 5.00 7.00'', js ''no date 3.00'', js ''02/01/2024 RENT 0.00 9.00'',
         js ''03/01/2024 no amount''])
       = [\<lparr>date = Some (js ''2024-01-01''), description = None, debit = Some (Fin (1250 / 100)),
           credit = Some (Fin 5), balance = Some (Fin 7), reference = None, raw = None\<rparr>,
          \<lparr>date = Some (js ''2024-01-02''), description = Some (js ''RENT''), debit = None,
           credit = Some (Fin 9), balance = None, reference = None, raw = None\<rparr>]"
proof -
  let ?lines = "[js ''01/01/2024 12.50 5.00 7.00'', js ''no date 3.00'', js ''02/01/2024 RENT 0.00 9.00'',
        js ''03/01/2024 no amount'']"
  have h: "\<forall>p \<in> set headerPatterns. \<forall>l \<in> set ?lines. \<not> re_test True p l"
    by code_simp
  have a: "list_all date_apart ?lines"
    by code_simp
  then have m: "\<forall>l \<in> set ?lines. date_apart l"
    by (simp only: list_all_iff)
  have rhs: "concat (map (\<lambda>l. case re_match False heuristicDatePattern l of
                             None \<Rightarrow> []
                           | Some dateMatch \<Rightarrow>
                               if monetary_tokens l = [] then []
                               else [heuristic_txn \<lparr>year = 2024, month = 0, day = 1\<rparr> (\<lambda>s. None) l dateMatch])
                  ?lines)
      = [\<lparr>date = Some (js ''2024-01-01''), description = None, debit = Some (Fin (1250 / 100)),
           credit = Some (Fin 5), balance = Some (Fin 7), reference = None, raw = None\<rparr>,
          \<lparr>date = Some (js ''2024-01-02''), description = Some (js ''RENT''), debit = None,
           credit = Some (Fin 9), balance = None, reference = None, raw = None\<rparr>]"
    by code_simp
  have none: "find_header headerPatterns ?lines = None"
    using h by (rule find_header_none)
  from heuristic_fallback [OF h m, of "\<lparr>year = 2024, month = 0, day = 1\<rparr>" "\<lambda>s. None"] rhs none a
  show ?thesis
    by simp
qed

text \<open>
  C4. The claim: for empty input text the result has type \<open>unknown\<close>, an empty header,
  no records, a confidence of at most 0.1, and a \<open>NO_TRANSACTIONS\<close> or \<open>NO_DEDUCTORS\<close>
  warning. With an empty text and an empty file name the type is \<open>unknown\<close> and the only
  warning is \<open>UNKNOWN_DOCUMENT_TYPE\<close>: neither extractor runs. With an empty text and the
  file name "bank.pdf" the file name alone makes the type \<open>bank_statement\<close>, and the
  confidence is 0.26.
\<close>

theorem empty_text_unknown_warning_only:
  "document_type (processCore \<lparr>year = 2024, month = 0, day = 1\<rparr> (\<lambda>s. None)
       (\<lambda>r d. (True, [])) False [] []) = unknown
   \<and> map code (warnings (processCore \<lparr>year = 2024, month = 0, day = 1\<rparr> (\<lambda>s. None)
       (\<lambda>r d. (True, [])) False [] [])) = [UNKNOWN_DOCUMENT_TYPE]
   \<and> document_type (processCore \<lparr>year = 2024, month = 0, day = 1\<rparr> (\<lambda>s. None)
       (\<lambda>r d. (True, [])) False [] (js ''bank.pdf'')) = bank_statement
   \<and> overall_confidence (processCore \<lparr>year = 2024, month = 0, day = 1\<rparr> (\<lambda>s. None)
       (\<lambda>r d. (True, [])) False [] (js ''bank.pdf'')) = 26 / 100"
  by code_simp

subsection \<open>The classifier on the empty text\<close>

lemma scoreText_empty:
  "scoreText [] BANK_KEYWORDS = 0" "scoreText [] TAX_KEYWORDS = 0"
  by code_simp+

lemma classify_empty:
  assumes "\<not> re_test False bankHint (toLowerCase filename)"
    and "\<not> re_test False taxHint (toLowerCase filename)"
  shows "classifyDocument [] filename = \<lparr>documentType = unknown, confidence = 0, scores = None\<rparr>"
  using assms by (simp add: classifyDocument_def scoreText_empty Let_def)

text \<open>
  C4, amended. For empty input text and a file name without a bank or tax hint, the type
  is \<open>unknown\<close>, the result carries no header and no records, the confidence is 0.08, the
  warning \<open>UNKNOWN_DOCUMENT_TYPE\<close> is raised, and no warning has the code
  \<open>NO_TRANSACTIONS\<close> or \<open>NO_DEDUCTORS\<close>.
\<close>

theorem empty_text_result:
  assumes "join PAGE_BREAK pageTexts = []"
    and "\<not> re_test False bankHint (toLowerCase originalName)"
    and "\<not> re_test False taxHint (toLowerCase originalName)"
  shows "document_type (processCore now native validateResult isScanned pageTexts originalName) = unknown
    \<and> extracted (processCore now native validateResult isScanned pageTexts originalName) = NoOutput
    \<and> overall_confidence (processCore now native validateResult isScanned pageTexts originalName) = 8 / 100
    \<and> UNKNOWN_DOCUMENT_TYPE
        \<in> code ` set (warnings (processCore now native validateResult isScanned pageTexts originalName))
    \<and> NO_TRANSACTIONS
        \<notin> code ` set (warnings (processCore now native validateResult isScanned pageTexts originalName))
    \<and> NO_DEDUCTORS
        \<notin> code ` set (warnings (processCore now native validateResult isScanned pageTexts originalName))"
proof -
  have v: "classifyDocument [] originalName = \<lparr>documentType = unknown, confidence = 0, scores = None\<rparr>"
    using assms(2,3) by (rule classify_empty)
  have r: "js_round 8 = 8"
    by code_simp
  show ?thesis
    unfolding processCore_def assms(1) v Let_def
    by (auto simp add: r split: prod.splits)
qed

theorem empty_text_result_witness:
  "join PAGE_BREAK [[]] = []
   \<and> \<not> re_test False bankHint (toLowerCase (js ''scan_001.pdf''))
   \<and> \<not> re_test False taxHint (toLowerCase (js ''scan_001.pdf''))
   \<and> document_type (processCore \<lparr>year = 2024, month = 0, day = 1\<rparr> (\<lambda>s. None)
        (\<lambda>r d. (True, [])) True [[]] (js ''scan_001.pdf'')) = unknown
   \<and> extracted (processCore \<lparr>year = 2024, month = 0, day = 1\<rparr> (\<lambda>s. None)
        (\<lambda>r d. (True, [])) True [[]] (js ''scan_001.pdf'')) = NoOutput
   \<and> overall_confidence (processCore \<lparr>year = 2024, month = 0, day = 1\<rparr> (\<lambda>s. None)
        (\<lambda>r d. (True, [])) True [[]] (js ''scan_001.pdf'')) = 8 / 100
   \<and> NO_TRANSACTIONS \<notin> code ` set (warnings (processCore \<lparr>year = 2024, month = 0, day = 1\<rparr>
        (\<lambda>s. None) (\<lambda>r d. (True, [])) True [[]] (js ''scan_001.pdf'')))
   \<and> NO_DEDUCTORS \<notin> code ` set (warnings (processCore \<lparr>year = 2024, month = 0, day = 1\<rparr>
        (\<lambda>s. None) (\<lambda>r d. (True, [])) True [[]] (js ''scan_001.pdf'')))"
proof -
  have a: "join PAGE_BREAK [[]] = []"
    by simp
  have b: "\<not> re_test False bankHint (toLowerCase (js ''scan_001.pdf''))"
    by code_simp
  have c: "\<not> re_test False taxHint (toLowerCase (js ''scan_001.pdf''))"
    by code_simp
  from empty_text_result [OF a b c, of "\<lparr>year = 2024, month = 0, day = 1\<rparr>" "\<lambda>s. None"
      "\<lambda>r d. (True, [])" True] a b c
  show ?thesis
    by blast
qed

text \<open>
  C6. The claim has four parts: stripping symbols, white space and commas does not change
  the result; a fully parenthesised amount string gives the negation of the value of the
  string without the parentheses; the result is negative exactly when the string begins
  with a minus sign or is fully parenthesised; input that is not numeric gives \<open>null\<close>.
  The second and third part fail, because the two marks are read as one flag and one
  leading minus sign is dropped: "(-5)" gives -5, which is the value of "-5" and not its
  negation; "--5" begins with a minus sign and gives 5; "(-(-5" carries no mark and
  gives -5.
\<close>

theorem amount_sign_marks_counterexample:
  "normalizeAmount (js ''(-5)'') = Some (Fin (- 5))
   \<and> normalizeAmount (js ''-5'') = Some (Fin (- 5))
   \<and> has_negative_mark (strip_amount (js ''--5''))
   \<and> normalizeAmount (js ''--5'') = Some (Fin 5)
   \<and> \<not> has_negative_mark (strip_amount (js ''(-(-5''))
   \<and> normalizeAmount (js ''(-(-5'') = Some (Fin (- 5))"
  by code_simp

subsection \<open>The steps of normalizeAmount\<close>

lemma replace_from_class:
  "replace_from False (Cls P) [] 0 p w s = filter (\<lambda>c. \<not> P c) s"
  by (induction s arbitrary: p w) auto

lemma replace_all_class:
  "replace_all False (Cls P) [] s = filter (\<lambda>c. \<not> P c) s"
  by (simp add: replace_all_def replace_from_class)

lemma filter_dropWhile_disjoint:
  "(\<And>x. R x \<Longrightarrow> \<not> Q x) \<Longrightarrow> filter Q (dropWhile R s) = filter Q s"
  by (induction s) auto

lemma strip_trim:
  "strip_amount (trim s) = strip_amount s"
proof -
  have sp: "\<not> \<not> currency_or_space x" if "is_space x" for x
    using that by (simp add: currency_or_space_def)
  have "filter (\<lambda>c. \<not> currency_or_space c) (rev (dropWhile is_space (rev (dropWhile is_space s))))
        = rev (filter (\<lambda>c. \<not> currency_or_space c) (dropWhile is_space (rev (dropWhile is_space s))))"
    by (simp add: rev_filter)
  also have "\<dots> = rev (filter (\<lambda>c. \<not> currency_or_space c) (rev (dropWhile is_space s)))"
    using sp by (simp add: filter_dropWhile_disjoint)
  also have "\<dots> = filter (\<lambda>c. \<not> currency_or_space c) (dropWhile is_space s)"
    by (simp add: rev_filter)
  also have "\<dots> = filter (\<lambda>c. \<not> currency_or_space c) s"
    using sp by (simp add: filter_dropWhile_disjoint)
  finally show ?thesis
    by (simp add: strip_amount_def trim_def)
qed

lemma search_bol_later:
  "0 < p \<Longrightarrow> search False (Seq Bol r) p w s = None"
  by (induction s arbitrary: p w) auto

lemma replace_first_minus:
  "replace_first False (Seq Bol (lit CHR ''-'')) [] t
   = (case t of [] \<Rightarrow> [] | x # r \<Rightarrow> if x = 45 then r else x # r)"
  by (cases t) (auto simp add: replace_first_def lit_def search_bol_later)

lemma one_of_parens:
  "one_of ''()'' c = (c = 40 \<or> c = 41)"
  by (simp add: one_of_def js_def)

lemma normalizeAmount_eq:
  "normalizeAmount input =
     (if input = [] then None
      else case parseFloat (unsigned_part (strip_amount input)) of
             None \<Rightarrow> None
           | Some a \<Rightarrow> Some (if has_negative_mark (strip_amount input) then neg_num a else a))"
proof -
  have "replace_all False (Cls currency_or_space) [] (trim input) = strip_amount input"
    using strip_trim [of input] by (simp add: replace_all_class strip_amount_def)
  moreover have "replace_first False (Seq Bol (lit CHR ''-'')) []
      (replace_all False (Cls (one_of ''()'')) [] t) = unsigned_part t" for t
    by (simp add: replace_first_minus replace_all_class unsigned_part_def one_of_parens
          de_Morgan_disj)
  ultimately show ?thesis
    by (simp add: normalizeAmount_def Let_def has_negative_mark_def cong: option.case_cong)
qed

lemma strip_amount_idem:
  "strip_amount (strip_amount s) = strip_amount s"
  by (simp add: strip_amount_def)

lemma neg_positive:
  "is_positive a \<Longrightarrow> is_negative (neg_num a) \<and> \<not> is_negative a"
  by (cases a) auto

text \<open>
  C6, amended. For every string: the result is the result for the string with currency
  symbols, white space and commas removed; if the string has no parenthesis and, once
  stripped, no leading minus sign, then the string in parentheses gives the negation of
  its value (\<open>null\<close> for \<open>null\<close>); if what is left after the parentheses and one leading
  minus sign are removed parses to a positive number, then the result is negative exactly
  when the stripped string is fully parenthesised or begins with a minus sign; if it does
  not parse to a number, the result is \<open>null\<close>.
\<close>

theorem normalizeAmount_laws:
  "normalizeAmount input = normalizeAmount (strip_amount input)
   \<and> (40 \<notin> set s \<and> 41 \<notin> set s \<and> \<not> startsWith (strip_amount s) (js ''-'')
        \<longrightarrow> normalizeAmount (js ''('' @ s @ js '')'') = map_option neg_num (normalizeAmount s))
   \<and> (input \<noteq> [] \<and> parseFloat (unsigned_part (strip_amount input)) = Some a \<and> is_positive a
        \<longrightarrow> (\<exists>r. normalizeAmount input = Some r
                \<and> (is_negative r \<longleftrightarrow> has_negative_mark (strip_amount input))))
   \<and> (parseFloat (unsigned_part (strip_amount input)) = None \<longrightarrow> normalizeAmount input = None)"
proof -
  have first: "normalizeAmount input = normalizeAmount (strip_amount input)"
  proof (cases "strip_amount input = []")
    case True
    then show ?thesis
      by (simp add: normalizeAmount_eq unsigned_part_def parseFloat_def startsWith_def js_def)
  next
    case False
    then have "input \<noteq> []"
      by (auto simp add: strip_amount_def)
    with False show ?thesis
      by (simp add: normalizeAmount_eq strip_amount_idem cong: option.case_cong)
  qed
  have second: "normalizeAmount (js ''('' @ s @ js '')'') = map_option neg_num (normalizeAmount s)"
    if np: "40 \<notin> set s" "41 \<notin> set s" and nm: "\<not> startsWith (strip_amount s) (js ''-'')"
  proof -
    let ?t = "strip_amount s"
    have st: "strip_amount (js ''('' @ s @ js '')'') = 40 # ?t @ [41]"
      by (simp add: strip_amount_def js_def currency_or_space_def is_space_def)
    have "\<forall>c \<in> set ?t. c \<noteq> 40 \<and> c \<noteq> 41"
      using np by (auto simp add: strip_amount_def)
    then have nop: "filter (\<lambda>c. c \<noteq> 40 \<and> c \<noteq> 41) ?t = ?t"
      by (simp only: filter_id_conv)
    have u1: "unsigned_part (40 # ?t @ [41]) = ?t"
      using nm nop by (cases ?t) (auto simp add: unsigned_part_def startsWith_def js_def)
    have u2: "unsigned_part ?t = ?t"
      using nm nop by (cases ?t) (auto simp add: unsigned_part_def startsWith_def js_def)
    have m1: "has_negative_mark (40 # ?t @ [41])"
      by (simp add: has_negative_mark_def startsWith_def endsWith_def js_def)
    have "40 \<notin> set ?t" "41 \<notin> set ?t"
      using np by (auto simp add: strip_amount_def)
    then have m2: "\<not> has_negative_mark ?t"
      using nm by (cases ?t) (auto simp add: has_negative_mark_def startsWith_def js_def)
    have e: "parseFloat [] = None"
      by (simp add: parseFloat_def startsWith_def js_def)
    have lhs: "normalizeAmount (js ''('' @ s @ js '')'')
        = (case parseFloat ?t of None \<Rightarrow> None | Some a \<Rightarrow> Some (neg_num a))"
      unfolding normalizeAmount_eq st u1 using m1 by (simp add: js_def cong: option.case_cong)
    have rhs: "normalizeAmount s
        = (if s = [] then None else case parseFloat ?t of None \<Rightarrow> None | Some a \<Rightarrow> Some a)"
      unfolding normalizeAmount_eq u2 using m2 by (simp cong: option.case_cong)
    have t0: "?t = []" if "s = []"
      using that by (simp add: strip_amount_def)
    show ?thesis
      using lhs rhs e t0 by (cases "s = []") (auto split: option.splits)
  qed
  have third: "\<exists>r. normalizeAmount input = Some r
      \<and> (is_negative r \<longleftrightarrow> has_negative_mark (strip_amount input))"
    if "input \<noteq> []" "parseFloat (unsigned_part (strip_amount input)) = Some a" "is_positive a"
    using that neg_positive [of a] by (simp add: normalizeAmount_eq)
  have fourth: "normalizeAmount input = None"
    if "parseFloat (unsigned_part (strip_amount input)) = None"
    using that by (simp add: normalizeAmount_eq)
  from first second third fourth show ?thesis
    by blast
qed

theorem normalizeAmount_laws_witness:
  "normalizeAmount (js ''$ 1,500.00'') = normalizeAmount (js ''1500.00'')
   \<and> normalizeAmount (js ''(1,500.00)'') = Some (Fin (- 1500))
   \<and> (\<exists>r. normalizeAmount (js ''-750.50'') = Some r \<and> is_negative r)
   \<and> normalizeAmount (js ''N/A'') = None"
proof -
  have a: "strip_amount (js ''$ 1,500.00'') = js ''1500.00''"
    by code_simp
  have b: "40 \<notin> set (js ''1,500.00'') \<and> 41 \<notin> set (js ''1,500.00'')
      \<and> \<not> startsWith (strip_amount (js ''1,500.00'')) (js ''-'')"
    by code_simp
  have c: "normalizeAmount (js ''1,500.00'') = Some (Fin 1500)"
    by code_simp
  have d: "js ''-750.50'' \<noteq> []
      \<and> parseFloat (unsigned_part (strip_amount (js ''-750.50''))) = Some (Fin (75050 / 100))
      \<and> is_positive (Fin (75050 / 100))"
    by code_simp
  have m: "has_negative_mark (strip_amount (js ''-750.50''))"
    by code_simp
  have e: "parseFloat (unsigned_part (strip_amount (js ''N/A''))) = None"
    by code_simp
  have g: "js ''('' @ js ''1,500.00'' @ js '')'' = js ''(1,500.00)''"
    by (simp add: js_def)
  have w1: "normalizeAmount (js ''$ 1,500.00'') = normalizeAmount (js ''1500.00'')"
    using normalizeAmount_laws [of "js ''$ 1,500.00''"] a by simp
  have "normalizeAmount (js ''('' @ js ''1,500.00'' @ js '')'')
        = map_option neg_num (normalizeAmount (js ''1,500.00''))"
    using normalizeAmount_laws [of "[]" "js ''1,500.00''"] b by blast
  then have w2: "normalizeAmount (js ''(1,500.00)'') = Some (Fin (- 1500))"
    using c g by simp
  have w3: "\<exists>r. normalizeAmount (js ''-750.50'') = Some r \<and> is_negative r"
    using normalizeAmount_laws [of "js ''-750.50''" "[]" "Fin (75050 / 100)"] d m by blast
  have w4: "normalizeAmount (js ''N/A'') = None"
    using normalizeAmount_laws [of "js ''N/A''"] e by blast
  from w1 w2 w3 w4 show ?thesis
    by blast
qed

text \<open>
  C5. The claim: \<open>normalizeDate\<close> returns a string of the form \<open>YYYY-MM-DD\<close> or \<open>null\<close>
  and never throws; every date string that matches a supported template is returned in its
  ISO form; a date that only the fallback accepts is returned only when its year exceeds
  1990. Two parts fail. The templates are tried in a fixed order, so a string that matches
  \<open>MM/dd/yyyy\<close> is not returned in the ISO form of that reading when \<open>dd/MM/yyyy\<close> accepts
  it too: "01/02/2024" is the second of January under \<open>MM/dd/yyyy\<close> and comes back as
  2024-02-01. And the fallback puts no upper bound on the year, though the comment of the
  function promises the form \<open>YYYY-MM-DD\<close>: for "+012345-06-15" (the expanded-year form
  that ECMAScript requires \<open>Date\<close> to read; the native parser is instantiated with that
  reading) the result is "12345-06-15", which has five year digits.
\<close>

theorem normalizeDate_order_and_year_counterexample:
  "''MM/dd/yyyy'' \<in> set DATE_FORMATS
   \<and> parseDate (cleaned_text (js ''01/02/2024'')) ''MM/dd/yyyy'' \<lparr>year = 2024, month = 0, day = 1\<rparr>
       = Some \<lparr>year = 2024, month = 0, day = 2\<rparr>
   \<and> format_iso \<lparr>year = 2024, month = 0, day = 2\<rparr> = js ''2024-01-02''
   \<and> normalizeDate \<lparr>year = 2024, month = 0, day = 1\<rparr> (\<lambda>s. None) (js ''01/02/2024'')
       = Some (js ''2024-02-01'')
   \<and> normalizeDate \<lparr>year = 2024, month = 0, day = 1\<rparr>
         (\<lambda>s. if s = js ''+012345-06-15'' then Some \<lparr>year = 12345, month = 5, day = 15\<rparr> else None)
         (js ''+012345-06-15'')
       = Some (js ''12345-06-15'')
   \<and> \<not> is_iso_date (js ''12345-06-15'')"
  by code_simp

subsection \<open>The templates and the rendering of a date\<close>

lemma try_formats_first:
  "i < length fmts \<Longrightarrow> parseDate s (fmts ! i) ref = Some d
   \<Longrightarrow> \<forall>j < i. parseDate s (fmts ! j) ref = None \<Longrightarrow> try_formats s fmts ref = Some d"
proof (induction fmts arbitrary: i)
  case Nil
  then show ?case by simp
next
  case (Cons f fs)
  show ?case
  proof (cases i)
    case 0
    with Cons.prems show ?thesis by simp
  next
    case (Suc k)
    with Cons.prems have "parseDate s f ref = None"
      by auto
    moreover have "\<forall>j < k. parseDate s (fs ! j) ref = None"
    proof (intro allI impI)
      fix j
      assume "j < k"
      with Suc have "Suc j < i"
        by simp
      with Cons.prems(3) have "parseDate s ((f # fs) ! Suc j) ref = None"
        by blast
      then show "parseDate s (fs ! j) ref = None"
        by simp
    qed
    with Cons.IH [of k] Cons.prems Suc have "try_formats s fs ref = Some d"
      by simp
    ultimately show ?thesis by simp
  qed
qed

lemma try_formats_none:
  "\<forall>fmt \<in> set fmts. parseDate s fmt ref = None \<Longrightarrow> try_formats s fmts ref = None"
  by (induction fmts) auto

lemma ms_class_rep_zero:
  "ms False (Rep m (Some 0) (Cls P)) p w s c = [((p, w, s), c)]"
  by (subst ms.simps(12)) simp

lemma ms_class_rep_nil:
  "ms False (Rep m (Some (Suc n)) (Cls P)) p w [] c = (if m = 0 then [((p, w, []), c)] else [])"
  by (subst ms.simps(12)) (simp del: ms.simps(12))

lemma ms_class_rep_cons:
  "ms False (Rep m (Some (Suc n)) (Cls P)) p w (y # ys) c
   = (if P y then ms False (Rep (m - 1) (Some n) (Cls P)) (p + 1) (is_word y) ys c else [])
     @ (if m = 0 then [((p, w, y # ys), c)] else [])"
  by (subst ms.simps(12)) (simp add: dec_max_def del: ms.simps(12))

lemma ms_bounded_class:
  "((p', w', s'), c') \<in> set (ms False (Rep m (Some n) (Cls P)) p w s c)
   \<Longrightarrow> \<exists>pre. s = pre @ s' \<and> p' = p + length pre \<and> length pre \<le> n \<and> (\<forall>x \<in> set pre. P x)"
proof (induction n arbitrary: m p w s c)
  case 0
  then show ?case
    by (simp add: ms_class_rep_zero del: ms.simps(12))
next
  case (Suc n)
  show ?case
  proof (cases s)
    case Nil
    with Suc.prems show ?thesis
      by (simp add: ms_class_rep_nil del: ms.simps(12) split: if_splits)
  next
    case (Cons y ys)
    from Suc.prems Cons
    consider (stop) "p' = p" "s' = s"
      | (more) "P y" "((p', w', s'), c')
          \<in> set (ms False (Rep (m - 1) (Some n) (Cls P)) (p + 1) (is_word y) ys c)"
      by (auto simp add: ms_class_rep_cons simp del: ms.simps(12) split: if_splits)
    then show ?thesis
    proof cases
      case stop
      then show ?thesis by simp
    next
      case more
      from Suc.IH [OF more(2)] obtain pre where
        "ys = pre @ s'" "p' = p + 1 + length pre" "length pre \<le> n" "\<forall>x \<in> set pre. P x"
        by auto
      with Cons more(1) show ?thesis
        by (intro exI [of _ "y # pre"]) simp
    qed
  qed
qed

lemma digits_val_bound:
  assumes "\<forall>x \<in> set m. is_digit x" and "0 \<le> a"
  shows "0 \<le> foldl (\<lambda>a d. 10 * a + (d - 48)) a m
    \<and> foldl (\<lambda>a d. 10 * a + (d - 48)) a m < (a + 1) * 10 ^ length m"
  using assms
proof (induction m arbitrary: a)
  case Nil
  then show ?case by simp
next
  case (Cons x xs)
  let ?a = "10 * a + (x - 48)"
  from Cons.prems have x: "0 \<le> x - 48" "x - 48 \<le> 9"
    by (auto simp add: is_digit_def)
  with Cons.prems have a': "0 \<le> ?a" "?a + 1 \<le> 10 * (a + 1)"
    by auto
  from Cons.IH [of ?a] Cons.prems a'
  have ih: "0 \<le> foldl (\<lambda>a d. 10 * a + (d - 48)) ?a xs"
    "foldl (\<lambda>a d. 10 * a + (d - 48)) ?a xs < (?a + 1) * 10 ^ length xs"
    by auto
  have "(?a + 1) * 10 ^ length xs \<le> (10 * (a + 1)) * 10 ^ length xs"
    using a'(2) by (intro mult_right_mono) auto
  moreover have "(10 * (a + 1)) * 10 ^ length xs = (a + 1) * 10 ^ length (x # xs)"
    by simp
  ultimately have "foldl (\<lambda>a d. 10 * a + (d - 48)) ?a xs < (a + 1) * 10 ^ length (x # xs)"
    using ih(2) by linarith
  with ih(1) show ?case
    by simp
qed

lemma parseNDigits_bound:
  assumes "parseNDigits 4 s = Some (v, r)"
  shows "0 \<le> v \<and> v \<le> 9999"
proof -
  from assms obtain p' w' s' c' rest where
    hd: "ms False (Rep 1 (Some 4) dg) 0 False s [] = ((p', w', s'), c') # rest"
    and v: "v = digits_val (take p' s)"
    by (auto simp add: parseNDigits_def match_prefix_def split: list.splits)
  then have "((p', w', s'), c') \<in> set (ms False (Rep 1 (Some 4) (Cls is_digit)) 0 False s [])"
    by (simp add: dg_def)
  from ms_bounded_class [OF this] obtain pre where
    pre: "s = pre @ s'" "p' = length pre" "length pre \<le> 4" "\<forall>x \<in> set pre. is_digit x"
    by auto
  then have t: "take p' s = pre"
    by simp
  from digits_val_bound [of pre 0] pre
  have "0 \<le> digits_val pre" "digits_val pre < 10 ^ length pre"
    by (auto simp add: digits_val_def)
  moreover have "(10 :: int) ^ length pre \<le> 10 ^ 4"
    using pre(3) by (intro power_increasing) auto
  ultimately show ?thesis
    using v t by simp
qed

lemma parse_token_year:
  assumes "parse_token tk s = Some (Some UYear, v, r)"
  shows "tk = (CHR ''y'', 4) \<and> 0 \<le> v \<and> v \<le> 9999"
proof -
  obtain x n where tk: "tk = (x, n)"
    by (cases tk)
  show ?thesis
  proof (cases "x = CHR ''y''")
    case True
    with assms tk have "n = 4" "parseNDigits 4 s = Some (v, r)"
      by (auto simp add: parse_token_def split: if_splits)
    with parseNDigits_bound [of s v r] tk True show ?thesis
      by simp
  next
    case False
    note ny = False
    show ?thesis
    proof (cases "x = CHR ''M''")
      case True
      with assms tk show ?thesis
        by (auto simp add: parse_token_def split: if_splits option.splits)
    next
      case False
      with assms tk ny show ?thesis
        by (auto simp add: parse_token_def split: if_splits)
    qed
  qed
qed

lemma parse_token_yyyy:
  "parse_token (CHR ''y'', 4) s = Some (u, v, r) \<Longrightarrow> u = Some UYear"
  by (auto simp add: parse_token_def)

lemma parse_tokens_year:
  "parse_tokens toks s y m d = Some (y', m', d', r)
   \<Longrightarrow> (case y' of
         None \<Rightarrow> y = None \<and> (CHR ''y'', 4) \<notin> set toks
       | Some v \<Rightarrow> y = Some v \<or> (0 \<le> v \<and> v \<le> 9999))"
proof (induction toks arbitrary: s y m d)
  case Nil
  then show ?case by (auto split: option.splits)
next
  case (Cons tk tks)
  from Cons.prems obtain u v r' where tk: "parse_token tk s = Some (u, v, r')"
    by (auto split: option.splits)
  show ?case
  proof (cases u)
    case None
    with Cons.prems tk have "parse_tokens tks r' y m d = Some (y', m', d', r)"
      by simp
    from Cons.IH [OF this] tk None show ?thesis
      by (auto split: option.splits dest: parse_token_yyyy)
  next
    case (Some un)
    show ?thesis
    proof (cases un)
      case UYear
      with Cons.prems tk Some have y: "y = None"
        and rec: "parse_tokens tks r' (Some v) m d = Some (y', m', d', r)"
        by (auto split: if_splits)
      from parse_token_year tk Some UYear have "0 \<le> v \<and> v \<le> 9999"
        by blast
      with Cons.IH [OF rec] y show ?thesis
        by (auto split: option.splits)
    next
      case UMonth
      with Cons.prems tk Some have "parse_tokens tks r' y (Some v) d = Some (y', m', d', r)"
        by (auto split: if_splits)
      from Cons.IH [OF this] tk Some UMonth show ?thesis
        by (auto split: option.splits dest: parse_token_yyyy)
    next
      case UDay
      with Cons.prems tk Some have "parse_tokens tks r' y m (Some v) = Some (y', m', d', r)"
        by (auto split: if_splits)
      from Cons.IH [OF this] tk Some UDay show ?thesis
        by (auto split: option.splits dest: parse_token_yyyy)
    qed
  qed
qed

lemma days_in_month_le:
  "days_in_month y m \<le> 31"
  by (simp add: days_in_month_def)

lemma parseDate_bounds:
  assumes "parseDate s fmt ref = Some d" and "(CHR ''y'', 4) \<in> set (fmt_tokens fmt)"
  shows "1 \<le> year d \<and> year d \<le> 9999 \<and> 0 \<le> month d \<and> month d \<le> 11 \<and> 1 \<le> day d \<and> day d \<le> 31"
proof -
  from assms(1) obtain y m dd rest where
    pt: "parse_tokens (fmt_tokens fmt) s None None None = Some (y, m, dd, rest)"
    by (auto simp add: parseDate_def split: option.splits)
  from parse_tokens_year [OF pt] assms(2) obtain v where y: "y = Some v" "0 \<le> v" "v \<le> 9999"
    by (auto split: option.splits)
  from assms(1) pt y obtain d1 d2 where
    s: "set_year (Some v) ref = Some d1" "set_month m d1 = Some d2" "set_day dd d2 = Some d"
    by (auto simp add: parseDate_def split: option.splits if_splits)
  from s(1) y have d1: "d1 = \<lparr>year = v, month = 0, day = 1\<rparr>" "0 < v"
    by (auto simp add: set_year_def split: if_splits)
  from s(2) d1 have d2: "year d2 = v" "0 \<le> month d2" "month d2 \<le> 11" "day d2 = 1"
    by (auto simp add: set_month_def split: option.splits if_splits)
  from s(3) d2 days_in_month_le [of "year d2" "month d2"] d1(2) y(3) show ?thesis
    by (auto simp add: set_day_def split: option.splits if_splits)
qed

lemma digits_of_digits:
  "0 \<le> n \<Longrightarrow> list_all is_digit (digits_of n)"
proof (induction n rule: digits_of.induct)
  case (1 n)
  show ?case
  proof (cases "n < 10")
    case True
    with 1 show ?thesis
      by (subst digits_of.simps) (simp add: is_digit_def)
  next
    case False
    with 1 have "list_all is_digit (digits_of (n div 10))"
      by simp
    moreover have "is_digit (48 + n mod 10)"
      by (simp add: is_digit_def)
    ultimately show ?thesis
      using False by (subst digits_of.simps) simp
  qed
qed

lemma digits_of_length:
  "0 \<le> n \<Longrightarrow> n < 10 ^ Suc k \<Longrightarrow> length (digits_of n) \<le> Suc k"
proof (induction k arbitrary: n)
  case 0
  then show ?case
    by (subst digits_of.simps) simp
next
  case (Suc k)
  show ?case
  proof (cases "n < 10")
    case True
    then show ?thesis
      by (subst digits_of.simps) simp
  next
    case False
    from Suc.prems have "n div 10 < 10 ^ Suc k"
      by simp
    moreover from Suc.prems have "0 \<le> n div 10"
      by simp
    ultimately have "length (digits_of (n div 10)) \<le> Suc k"
      by (rule Suc.IH [rotated])
    with False show ?thesis
      by (subst digits_of.simps) simp
  qed
qed

lemma addLeadingZeros_shape:
  assumes "0 \<le> n" and "n < 10 ^ Suc k"
  shows "length (addLeadingZeros n (Suc k)) = Suc k \<and> list_all is_digit (addLeadingZeros n (Suc k))"
proof -
  from assms have "length (digits_of n) \<le> Suc k"
    by (rule digits_of_length)
  moreover from assms(1) have "list_all is_digit (digits_of n)"
    by (rule digits_of_digits)
  ultimately show ?thesis
    using assms(1) by (auto simp add: addLeadingZeros_def list_all_iff is_digit_def)
qed

lemma format_iso_shape:
  assumes "1 \<le> year d" "year d \<le> 9999" "0 \<le> month d" "month d \<le> 11" "1 \<le> day d" "day d \<le> 31"
  shows "is_iso_date (format_iso d)"
proof -
  let ?y = "addLeadingZeros (year d) 4"
  let ?m = "addLeadingZeros (month d + 1) 2"
  let ?d = "addLeadingZeros (day d) 2"
  have y: "length ?y = 4 \<and> list_all is_digit ?y"
    using addLeadingZeros_shape [of "year d" 3] assms by (simp add: eval_nat_numeral)
  have m: "length ?m = 2 \<and> list_all is_digit ?m"
    using addLeadingZeros_shape [of "month d + 1" 1] assms by (simp add: eval_nat_numeral)
  have dd: "length ?d = 2 \<and> list_all is_digit ?d"
    using addLeadingZeros_shape [of "day d" 1] assms by (simp add: eval_nat_numeral)
  have f: "format_iso d = ?y @ [45] @ ?m @ [45] @ ?d"
    using assms by (simp add: format_iso_def js_def)
  show ?thesis
    unfolding f is_iso_date_def using y m dd
    by (simp add: nth_append)
qed

lemma DATE_FORMATS_have_year:
  "\<forall>fmt \<in> set DATE_FORMATS. (CHR ''y'', 4) \<in> set (fmt_tokens fmt)"
  by code_simp

lemma try_formats_some:
  "try_formats s fmts ref = Some d \<Longrightarrow> \<exists>fmt \<in> set fmts. parseDate s fmt ref = Some d"
  by (induction fmts) (auto split: option.splits)

text \<open>
  C5, amended. For every string: if the date that the engine's own parser reads from the
  cleaned string, when it reads one, is a calendar date with a year of at most 9999, then
  \<open>normalizeDate\<close> returns \<open>null\<close> or a string of the form \<open>YYYY-MM-DD\<close> (it never
  throws: every exception is caught in the loop); if a template accepts the cleaned string
  and no template before it in the list does, the result is the ISO form of the date that
  this template reads, and it has the form \<open>YYYY-MM-DD\<close>; if no template accepts it, the
  result is \<open>null\<close> when the engine's parser reads no date or a date whose year does not
  exceed 1990, and it is the ISO form of that date, of the form \<open>YYYY-MM-DD\<close> for a
  calendar date, when the year exceeds 1990 and is at most 9999.
\<close>

theorem normalizeDate_result:
  "((\<forall>d'. native (cleaned_text input) = Some d' \<longrightarrow> calendar_date d' \<and> year d' \<le> 9999)
      \<longrightarrow> normalizeDate now native input = None
          \<or> (\<exists>s. normalizeDate now native input = Some s \<and> is_iso_date s))
   \<and> (input \<noteq> [] \<and> i < length DATE_FORMATS
        \<and> parseDate (cleaned_text input) (DATE_FORMATS ! i) now = Some d
        \<and> (\<forall>j < i. parseDate (cleaned_text input) (DATE_FORMATS ! j) now = None)
      \<longrightarrow> normalizeDate now native input = Some (format_iso d) \<and> is_iso_date (format_iso d))
   \<and> (input \<noteq> [] \<and> (\<forall>fmt \<in> set DATE_FORMATS. parseDate (cleaned_text input) fmt now = None)
      \<longrightarrow> (native (cleaned_text input) = None \<longrightarrow> normalizeDate now native input = None)
        \<and> (\<forall>d'. native (cleaned_text input) = Some d' \<and> year d' \<le> 1990
              \<longrightarrow> normalizeDate now native input = None)
        \<and> (\<forall>d'. native (cleaned_text input) = Some d' \<and> 1990 < year d' \<and> year d' \<le> 9999
              \<longrightarrow> normalizeDate now native input = Some (format_iso d')
                  \<and> (calendar_date d' \<longrightarrow> is_iso_date (format_iso d'))))"
proof -
  have shape: "is_iso_date (format_iso d')" if "calendar_date d'" "1990 < year d'" "year d' \<le> 9999"
    for d'
    using that by (intro format_iso_shape) (simp_all add: calendar_date_def)
  have tmpl: "is_iso_date (format_iso p)"
    if "try_formats (cleaned_text input) DATE_FORMATS now = Some p" for p
  proof -
    from try_formats_some [OF that] obtain fmt where
      f: "fmt \<in> set DATE_FORMATS" "parseDate (cleaned_text input) fmt now = Some p"
      by blast
    from f(1) DATE_FORMATS_have_year have "(CHR ''y'', 4) \<in> set (fmt_tokens fmt)"
      by blast
    from parseDate_bounds [OF f(2) this] show ?thesis
      by (intro format_iso_shape) auto
  qed
  have a: "normalizeDate now native input = None
      \<or> (\<exists>s. normalizeDate now native input = Some s \<and> is_iso_date s)"
    if n: "\<forall>d'. native (cleaned_text input) = Some d' \<longrightarrow> calendar_date d' \<and> year d' \<le> 9999"
  proof (cases "input = []")
    case True
    then show ?thesis
      by (simp add: normalizeDate_def)
  next
    case False
    show ?thesis
    proof (cases "try_formats (cleaned_text input) DATE_FORMATS now")
      case (Some p)
      with False tmpl [OF Some] show ?thesis
        by (simp add: normalizeDate_def cleaned_text_def)
    next
      case None
      show ?thesis
      proof (cases "native (cleaned_text input)")
        case none: None
        with None False show ?thesis
          by (simp add: normalizeDate_def cleaned_text_def)
      next
        case (Some d')
        with n have "calendar_date d'" "year d' \<le> 9999"
          by simp_all
        with shape [of d'] None False Some show ?thesis
          by (simp add: normalizeDate_def cleaned_text_def)
      qed
    qed
  qed
  have b: "normalizeDate now native input = Some (format_iso d) \<and> is_iso_date (format_iso d)"
    if "input \<noteq> []" "i < length DATE_FORMATS"
      "parseDate (cleaned_text input) (DATE_FORMATS ! i) now = Some d"
      "\<forall>j < i. parseDate (cleaned_text input) (DATE_FORMATS ! j) now = None"
  proof -
    from that have t: "try_formats (cleaned_text input) DATE_FORMATS now = Some d"
      by (intro try_formats_first [of i]) auto
    with that(1) have "normalizeDate now native input = Some (format_iso d)"
      by (simp add: normalizeDate_def cleaned_text_def)
    with tmpl [OF t] show ?thesis
      by simp
  qed
  have c: "normalizeDate now native input
      = (case native (cleaned_text input) of
           None \<Rightarrow> None
         | Some d' \<Rightarrow> if 1990 < year d' then Some (format_iso d') else None)"
    if "input \<noteq> []" "\<forall>fmt \<in> set DATE_FORMATS. parseDate (cleaned_text input) fmt now = None"
  proof -
    from that(2) have "try_formats (cleaned_text input) DATE_FORMATS now = None"
      by (rule try_formats_none)
    with that(1) show ?thesis
      by (simp add: normalizeDate_def cleaned_text_def)
  qed
  have c': "(native (cleaned_text input) = None \<longrightarrow> normalizeDate now native input = None)
        \<and> (\<forall>d'. native (cleaned_text input) = Some d' \<and> year d' \<le> 1990
              \<longrightarrow> normalizeDate now native input = None)
        \<and> (\<forall>d'. native (cleaned_text input) = Some d' \<and> 1990 < year d' \<and> year d' \<le> 9999
              \<longrightarrow> normalizeDate now native input = Some (format_iso d')
                  \<and> (calendar_date d' \<longrightarrow> is_iso_date (format_iso d')))"
    if "input \<noteq> []" "\<forall>fmt \<in> set DATE_FORMATS. parseDate (cleaned_text input) fmt now = None"
    using c [OF that] shape by auto
  from a b c' show ?thesis
    by blast
qed

theorem normalizeDate_result_witness:
  "normalizeDate \<lparr>year = 2024, month = 0, day = 1\<rparr>
       (\<lambda>s. if s = js ''2024-03-15T10:30:00'' then Some \<lparr>year = 2024, month = 2, day = 15\<rparr>
            else if s = js ''1985-03-15T10:30:00'' then Some \<lparr>year = 1985, month = 2, day = 15\<rparr>
            else None)
       (js ''2024-03-15'') = Some (js ''2024-03-15'')
   \<and> is_iso_date (js ''2024-03-15'')
   \<and> normalizeDate \<lparr>year = 2024, month = 0, day = 1\<rparr>
       (\<lambda>s. if s = js ''2024-03-15T10:30:00'' then Some \<lparr>year = 2024, month = 2, day = 15\<rparr>
            else if s = js ''1985-03-15T10:30:00'' then Some \<lparr>year = 1985, month = 2, day = 15\<rparr>
            else None)
       (js ''not a date'') = None
   \<and> normalizeDate \<lparr>year = 2024, month = 0, day = 1\<rparr>
       (\<lambda>s. if s = js ''2024-03-15T10:30:00'' then Some \<lparr>year = 2024, month = 2, day = 15\<rparr>
            else if s = js ''1985-03-15T10:30:00'' then Some \<lparr>year = 1985, month = 2, day = 15\<rparr>
            else None)
       (js ''1985-03-15T10:30:00'') = None
   \<and> normalizeDate \<lparr>year = 2024, month = 0, day = 1\<rparr>
       (\<lambda>s. if s = js ''2024-03-15T10:30:00'' then Some \<lparr>year = 2024, month = 2, day = 15\<rparr>
            else if s = js ''1985-03-15T10:30:00'' then Some \<lparr>year = 1985, month = 2, day = 15\<rparr>
            else None)
       (js ''2024-03-15T10:30:00'') = Some (js ''2024-03-15'')
   \<and> calendar_date \<lparr>year = 2024, month = 2, day = 15\<rparr>
   \<and> (\<exists>s. normalizeDate \<lparr>year = 2024, month = 0, day = 1\<rparr>
       (\<lambda>s. if s = js ''2024-03-15T10:30:00'' then Some \<lparr>year = 2024, month = 2, day = 15\<rparr>
            else if s = js ''1985-03-15T10:30:00'' then Some \<lparr>year = 1985, month = 2, day = 15\<rparr>
            else None)
       (js ''2024-03-15T10:30:00'') = Some s \<and> is_iso_date s)"
proof -
  let ?now = "\<lparr>year = 2024, month = 0, day = 1\<rparr>"
  let ?native = "\<lambda>s. if s = js ''2024-03-15T10:30:00'' then Some \<lparr>year = 2024, month = 2, day = 15\<rparr>
            else if s = js ''1985-03-15T10:30:00'' then Some \<lparr>year = 1985, month = 2, day = 15\<rparr>
            else None"
  have a: "js ''2024-03-15'' \<noteq> [] \<and> (2 :: nat) < length DATE_FORMATS
      \<and> parseDate (cleaned_text (js ''2024-03-15'')) (DATE_FORMATS ! 2) ?now
          = Some \<lparr>year = 2024, month = 2, day = 15\<rparr>
      \<and> parseDate (cleaned_text (js ''2024-03-15'')) (DATE_FORMATS ! 0) ?now = None
      \<and> parseDate (cleaned_text (js ''2024-03-15'')) (DATE_FORMATS ! 1) ?now = None"
    by code_simp
  then have a': "\<forall>j < 2. parseDate (cleaned_text (js ''2024-03-15'')) (DATE_FORMATS ! j) ?now = None"
    by (auto simp add: less_Suc_eq numeral_2_eq_2)
  have f: "format_iso \<lparr>year = 2024, month = 2, day = 15\<rparr> = js ''2024-03-15''"
    by code_simp
  have b: "js ''not a date'' \<noteq> []
      \<and> (\<forall>fmt \<in> set DATE_FORMATS. parseDate (cleaned_text (js ''not a date'')) fmt ?now = None)
      \<and> ?native (cleaned_text (js ''not a date'')) = None"
    by code_simp
  have c: "js ''1985-03-15T10:30:00'' \<noteq> []
      \<and> (\<forall>fmt \<in> set DATE_FORMATS. parseDate (cleaned_text (js ''1985-03-15T10:30:00'')) fmt ?now = None)
      \<and> ?native (cleaned_text (js ''1985-03-15T10:30:00'')) = Some \<lparr>year = 1985, month = 2, day = 15\<rparr>"
    by code_simp
  have d: "js ''2024-03-15T10:30:00'' \<noteq> []
      \<and> (\<forall>fmt \<in> set DATE_FORMATS. parseDate (cleaned_text (js ''2024-03-15T10:30:00'')) fmt ?now = None)
      \<and> ?native (cleaned_text (js ''2024-03-15T10:30:00'')) = Some \<lparr>year = 2024, month = 2, day = 15\<rparr>"
    by code_simp
  have w1: "normalizeDate ?now ?native (js ''2024-03-15'') = Some (js ''2024-03-15'')
      \<and> is_iso_date (js ''2024-03-15'')"
    using normalizeDate_result [of ?native "js ''2024-03-15''" ?now 2 "\<lparr>year = 2024, month = 2, day = 15\<rparr>"]
      a a' f by simp
  have w2: "normalizeDate ?now ?native (js ''not a date'') = None"
    using normalizeDate_result [of ?native "js ''not a date''" ?now] b by blast
  have w3: "normalizeDate ?now ?native (js ''1985-03-15T10:30:00'') = None"
    using normalizeDate_result [of ?native "js ''1985-03-15T10:30:00''" ?now] c by simp
  have w4: "normalizeDate ?now ?native (js ''2024-03-15T10:30:00'') = Some (js ''2024-03-15'')"
    using normalizeDate_result [of ?native "js ''2024-03-15T10:30:00''" ?now] d f by simp
  have k: "calendar_date \<lparr>year = 2024, month = 2, day = 15\<rparr>"
    by (simp add: calendar_date_def)
  have h: "\<forall>d'. ?native (cleaned_text (js ''2024-03-15T10:30:00'')) = Some d'
      \<longrightarrow> calendar_date d' \<and> year d' \<le> 9999"
    using d k by simp
  have w5: "normalizeDate ?now ?native (js ''2024-03-15T10:30:00'') = None
      \<or> (\<exists>s. normalizeDate ?now ?native (js ''2024-03-15T10:30:00'') = Some s \<and> is_iso_date s)"
    using normalizeDate_result [of ?native "js ''2024-03-15T10:30:00''" ?now] h by blast
  from w1 w2 w3 w4 w5 k show ?thesis
    by auto
qed

subsection \<open>The clock in the extractors\<close>

lemma parseDate_any_reference:
  assumes "(CHR ''y'', 4) \<in> set (fmt_tokens fmt)"
  shows "parseDate s fmt ref = parseDate s fmt ref'"
proof (cases "parse_tokens (fmt_tokens fmt) s None None None")
  case None
  then show ?thesis
    by (simp add: parseDate_def)
next
  case (Some res)
  obtain y m d rest where res: "res = (y, m, d, rest)"
    by (cases res)
  from parse_tokens_year [of "fmt_tokens fmt" s None None None y m d rest] Some res assms
  obtain v where "y = Some v"
    by (auto split: option.splits)
  then have "set_year y ref = set_year y ref'"
    by (simp add: set_year_def)
  with Some res show ?thesis
    by (simp add: parseDate_def)
qed

lemma try_formats_any_reference:
  "\<forall>fmt \<in> set fmts. (CHR ''y'', 4) \<in> set (fmt_tokens fmt)
   \<Longrightarrow> try_formats s fmts ref = try_formats s fmts ref'"
proof (induction fmts)
  case Nil
  then show ?case by simp
next
  case (Cons f fs)
  then have "parseDate s f ref = parseDate s f ref'"
    by (intro parseDate_any_reference) simp
  moreover from Cons have "try_formats s fs ref = try_formats s fs ref'"
    by simp
  ultimately show ?case
    by (simp only: try_formats.simps)
qed

lemma normalizeDate_any_clock:
  "normalizeDate now native input = normalizeDate now' native input"
  using try_formats_any_reference [OF DATE_FORMATS_have_year, of _ now now']
  by (simp add: normalizeDate_def)

lemma period_loop_any_clock:
  "period_loop now native ps text0 ft = period_loop now' native ps text0 ft"
proof (induction ps arbitrary: ft)
  case Nil
  show ?case by simp
next
  case (Cons p ps)
  show ?case
    unfolding period_loop.simps
    by (simp only: normalizeDate_any_clock [of now native _ now'] Cons.IH)
qed

lemma extractHeader_any_clock:
  "extractHeader now native text0 = extractHeader now' native text0"
  by (simp add: extractHeader_def period_loop_any_clock [of now native _ _ _ now'])

lemma parseTransactionRow_any_clock:
  "parseTransactionRow now native line colMap i = parseTransactionRow now' native line colMap i"
  unfolding parseTransactionRow_def
  by (simp only: normalizeDate_any_clock [of now native _ now'])

lemma heuristic_txn_any_clock:
  "heuristic_txn now native line dm = heuristic_txn now' native line dm"
  unfolding heuristic_txn_def
  by (simp only: normalizeDate_any_clock [of now native _ now'])

lemma heuristic_rows_any_clock:
  "heuristic_rows now native lines = heuristic_rows now' native lines"
  by (induction lines)
     (simp_all add: heuristic_txn_any_clock [of now native _ _ now'] split: option.splits)

lemma scan_rows_any_clock:
  "scan_rows now native colMap i lines = scan_rows now' native colMap i lines"
  by (induction lines arbitrary: i)
     (simp_all add: parseTransactionRow_any_clock [of now native _ _ _ now'] split: option.splits)

lemma extractTransactions_any_clock:
  "extractTransactions now native lines = extractTransactions now' native lines"
  by (simp add: extractTransactions_def parseTransactionHeuristic_def
        heuristic_rows_any_clock [of now native _ now']
        scan_rows_any_clock [of now native _ _ _ now'] split: option.splits)

lemma extractBankStatement_any_clock:
  "extractBankStatement now native pageTexts fullText
   = extractBankStatement now' native pageTexts fullText"
  unfolding extractBankStatement_def
  by (simp only: extractHeader_any_clock [of now native _ now']
        extractTransactions_any_clock [of now native _ now'])

lemma tds_txn_any_clock:
  "tds_txn now native line sm = tds_txn now' native line sm"
  unfolding tds_txn_def
  by (simp only: normalizeDate_any_clock [of now native _ now'])

lemma tds_rows_any_clock:
  "tds_rows now native hasHeader lines = tds_rows now' native hasHeader lines"
proof (induction lines)
  case Nil
  show ?case by simp
next
  case (Cons line lines)
  show ?case
    unfolding tds_rows.simps
    by (simp only: tds_txn_any_clock [of now native _ _ now'] Cons.IH)
qed

lemma extractTDSTransactions_any_clock:
  "extractTDSTransactions now native lines = extractTDSTransactions now' native lines"
  by (simp add: extractTDSTransactions_def tds_rows_any_clock [of now native _ _ now']
        split: option.splits)

lemma parseDeductorBlock_any_clock:
  "parseDeductorBlock now native lines blockText = parseDeductorBlock now' native lines blockText"
  unfolding parseDeductorBlock_def
  by (simp only: extractTDSTransactions_any_clock [of now native _ now'])

lemma extractDeductors_any_clock:
  "extractDeductors now native lines = extractDeductors now' native lines"
  unfolding extractDeductors_def
  by (simp only: parseDeductorBlock_any_clock [of now native _ _ now'])

lemma extractTaxStatement_any_clock:
  "extractTaxStatement now native pageTexts fullText
   = extractTaxStatement now' native pageTexts fullText"
  unfolding extractTaxStatement_def
  by (simp only: extractDeductors_any_clock [of now native _ now'])

text \<open>
  C3. The core is deterministic. In the model every function is a function of its
  arguments, so two runs on the same text and file name can only differ through what the
  program reads from its surroundings; the one such reading is the clock, \<open>new Date()\<close>,
  which \<open>normalizeDate\<close> hands to the date parser as the reference date. Every format of
  \<open>DATE_FORMATS\<close> sets the year, and setting the year resets what the reference date
  gave, so the result of the whole assembly is the same at any two clock readings.
\<close>

theorem processCore_deterministic:
  "processCore now native validateResult isScanned pageTexts originalName
   = processCore now' native validateResult isScanned pageTexts originalName"
  unfolding processCore_def
  by (simp only: extractBankStatement_any_clock [of now native _ _ now']
        extractTaxStatement_any_clock [of now native _ _ now'])

text \<open>
  C2. The claim: the OCR repair changes nothing when it runs a second time, and the
  pipeline gives on repaired text the result it gives on the text. The first part fails
  where a letter is left standing before a letter that is rewritten to a digit, because a
  letter is rewritten only when a digit follows it in the text as it is before the
  substitution: "ll1" becomes "l11", and "l11" becomes "111". The second part fails with
  it: the bank extractor finds no account number in "Account Number: ll12345678" and finds
  1112345678 in the repaired text. It also fails because the classifier reads the text
  before the repair: the page "bank||statement opening||balance" is of type \<open>unknown\<close>,
  the repaired page "bank statement opening balance" is a bank statement.
\<close>

theorem cleanOCRArtifacts_not_idempotent:
  "cleanOCRArtifacts (js ''ll1'') = js ''l11''
   \<and> cleanOCRArtifacts (cleanOCRArtifacts (js ''ll1'')) = js ''111''
   \<and> account_number (b_header (extractBankStatement \<lparr>year = 2024, month = 0, day = 1\<rparr>
         (\<lambda>s. None) [] (js ''Account Number: ll12345678''))) = None
   \<and> account_number (b_header (extractBankStatement \<lparr>year = 2024, month = 0, day = 1\<rparr>
         (\<lambda>s. None) [] (cleanOCRArtifacts (js ''Account Number: ll12345678''))))
       = Some (js ''1112345678'')
   \<and> cleanOCRArtifacts (js ''bank||statement opening||balance'')
       = js ''bank statement opening balance''
   \<and> document_type (processCore \<lparr>year = 2024, month = 0, day = 1\<rparr> (\<lambda>s. None) (\<lambda>r d. (True, []))
         False [js ''bank||statement opening||balance''] []) = unknown
   \<and> document_type (processCore \<lparr>year = 2024, month = 0, day = 1\<rparr> (\<lambda>s. None) (\<lambda>r d. (True, []))
         False [cleanOCRArtifacts (js ''bank||statement opening||balance'')] []) = bank_statement"
  by code_simp

subsection \<open>The substitutions of the OCR repair without the matcher\<close>

lemma ms_star_single:
  assumes a: "\<And>p w s c. ms False a p w s c
      = (case s of [] \<Rightarrow> [] | y # ys \<Rightarrow> if Q y then [((p + 1, is_word y, ys), c)] else [])"
    and g: "groups_of a = []"
  shows "\<exists>w' rest. ms False (Rep 0 None a) p w s c
      = ((p + length (takeWhile Q s), w', dropWhile Q s), c) # rest"
proof (induction s arbitrary: p w)
  case Nil
  show ?case
    by (subst ms.simps(12)) (simp add: a g dec_max_def del: ms.simps(12))
next
  case (Cons y ys)
  show ?case
  proof (cases "Q y")
    case False
    then show ?thesis
      by (subst ms.simps(12)) (simp add: a g dec_max_def del: ms.simps(12))
  next
    case True
    from Cons.IH [of "p + 1" "is_word y"] obtain w' rest where
      r: "ms False (Rep 0 None a) (p + 1) (is_word y) ys c
          = ((p + 1 + length (takeWhile Q ys), w', dropWhile Q ys), c) # rest"
      by blast
    have "ms False (Rep 0 None a) p w (y # ys) c
          = ms False (Rep 0 None a) (p + 1) (is_word y) ys c @ [((p, w, y # ys), c)]"
      using True by (subst ms.simps(12)) (simp add: a g dec_max_def del: ms.simps(12))
    with r True show ?thesis
      by simp
  qed
qed

lemma ms_two_or_more_single:
  assumes a: "\<And>p w s c. ms False a p w s c
      = (case s of [] \<Rightarrow> [] | y # ys \<Rightarrow> if Q y then [((p + 1, is_word y, ys), c)] else [])"
    and g: "groups_of a = []"
  shows "ms False (Rep 2 None a) p w s c
      = (case s of
           y # z # zs \<Rightarrow> if Q y \<and> Q z then ms False (Rep 0 None a) (p + 2) (is_word z) zs c else []
         | _ \<Rightarrow> [])"
proof -
  have one: "ms False (Rep 1 None a) p w s c
      = (case s of [] \<Rightarrow> []
         | z # zs \<Rightarrow> if Q z then ms False (Rep 0 None a) (p + 1) (is_word z) zs c else [])"
    for p w s c
    by (subst ms.simps(12)) (simp add: a g dec_max_def del: ms.simps(12) split: list.splits)
  have two: "ms False (Rep 2 None a) p w s c
      = (case s of [] \<Rightarrow> []
         | y # ys \<Rightarrow> if Q y then ms False (Rep 1 None a) (p + 1) (is_word y) ys c else [])"
    by (subst ms.simps(12)) (simp add: a g dec_max_def del: ms.simps(12) split: list.splits)
  show ?thesis
    unfolding two one by (simp split: list.splits)
qed

lemma replace_runs:
  assumes a: "\<And>p w s c. ms False a p w s c
      = (case s of [] \<Rightarrow> [] | y # ys \<Rightarrow> if Q y then [((p + 1, is_word y, ys), c)] else [])"
    and g: "groups_of a = []"
  shows "replace_from False (Rep 2 None a) [32] k p w s = collapse_runs Q (drop k s)"
proof (induction s arbitrary: k p w)
  case Nil
  show ?case
    by (simp add: ms_two_or_more_single [OF a g] del: ms.simps(12))
next
  case (Cons y ys)
  show ?case
  proof (cases "0 < k")
    case True
    then obtain j where j: "k = Suc j"
      by (cases k) auto
    show ?thesis
      by (simp add: j Cons.IH del: ms.simps(12))
  next
    case k0: False
    show ?thesis
    proof (cases "Q y \<and> next_is Q ys")
      case False
      then have "ms False (Rep 2 None a) p w (y # ys) [] = []"
        by (auto simp add: ms_two_or_more_single [OF a g] next_is_def
            simp del: ms.simps(12) split: list.splits)
      moreover have "collapse_runs Q (y # ys) = y # collapse_runs Q ys"
        using False by auto
      ultimately show ?thesis
        using k0 by (simp add: Cons.IH del: ms.simps(12) collapse_runs.simps)
    next
      case True
      then obtain z zs where ys: "ys = z # zs" and qy: "Q y" and qz: "Q z"
        by (cases ys) (auto simp add: next_is_def)
      from ms_star_single [OF a g, of "p + 2" "is_word z" zs "[]"] obtain w' rest where
        "ms False (Rep 0 None a) (p + 2) (is_word z) zs []
         = ((p + 2 + length (takeWhile Q zs), w', dropWhile Q zs), []) # rest"
        by blast
      then have m: "ms False (Rep 2 None a) p w (y # ys) []
         = ((p + 2 + length (takeWhile Q zs), w', dropWhile Q zs), []) # rest"
        using ys qy qz by (simp add: ms_two_or_more_single [OF a g] del: ms.simps(12))
      have d: "drop (Suc (length (takeWhile Q zs))) (z # zs) = dropWhile Q (z # zs)"
        using qz by (simp add: dropWhile_eq_drop)
      have "replace_from False (Rep 2 None a) [32] 0 p w (y # ys)
          = 32 # replace_from False (Rep 2 None a) [32] (Suc (length (takeWhile Q zs))) (p + 1) (is_word y) ys"
        using m by (simp del: ms.simps(12))
      also have "\<dots> = 32 # collapse_runs Q (dropWhile Q ys)"
        by (simp only: Cons.IH, simp only: ys d)
      finally show ?thesis
        using k0 True by simp
    qed
  qed
qed

lemma replace_pipes:
  "replace_all False (Rep 2 None (lit CHR ''|'')) (js '' '') s = collapse_runs (\<lambda>c. c = 124) s"
proof -
  have "replace_from False (Rep 2 None (Lit 124)) [32] 0 0 False s
      = collapse_runs (\<lambda>c. c = 124) (drop 0 s)"
    by (rule replace_runs) (simp_all split: list.splits)
  then show ?thesis
    by (simp add: replace_all_def lit_def js_def del: ms.simps(12))
qed

lemma replace_spaces:
  "replace_all False (Rep 2 None ws) (js '' '') s = collapse_runs is_space s"
proof -
  have "replace_from False (Rep 2 None (Cls is_space)) [32] 0 0 False s
      = collapse_runs is_space (drop 0 s)"
    by (rule replace_runs) (simp_all split: list.splits)
  then show ?thesis
    by (simp add: replace_all_def ws_def js_def del: ms.simps(12))
qed

lemma replace_before_digit:
  "replace_from False (Seq (Lit a) (Look dg)) [b] 0 p w s = fix_before a b s"
proof (induction s arbitrary: p w)
  case Nil
  show ?case by simp
next
  case (Cons y ys)
  have m: "ms False (Seq (Lit a) (Look dg)) p w (y # ys) []
      = (if y = a \<and> next_is is_digit ys then [((p + 1, is_word y, ys), [])] else [])"
    by (cases ys) (simp_all add: dg_def next_is_def)
  show ?case
    unfolding replace_from.simps m by (simp add: Cons.IH)
qed

lemma replace_l:
  "replace_all False (Seq (lit CHR ''l'') (Look dg)) (js ''1'') s = fix_before 108 49 s"
  using replace_before_digit [of 108 49 0 False s]
  by (simp add: replace_all_def lit_def js_def)

lemma replace_O:
  "replace_all False (Seq (lit CHR ''O'') (Look dg)) (js ''0'') s = fix_before 79 48 s"
  using replace_before_digit [of 79 48 0 False s]
  by (simp add: replace_all_def lit_def js_def)

lemma replace_boundary_I:
  "replace_from False (Seq WordB (Seq (Lit 73) (Look dg))) [49] 0 p w s = fix_I w s"
proof (induction s arbitrary: p w)
  case Nil
  show ?case by simp
next
  case (Cons y ys)
  have i: "is_word 73"
    by (simp add: is_word_def is_upper_def is_digit_def is_lower_def)
  have m: "ms False (Seq WordB (Seq (Lit 73) (Look dg))) p w (y # ys) []
      = (if \<not> w \<and> y = 73 \<and> next_is is_digit ys then [((p + 1, is_word y, ys), [])] else [])"
    by (cases ys) (auto simp add: dg_def next_is_def i)
  show ?case
    unfolding replace_from.simps m by (simp add: Cons.IH)
qed

lemma replace_I:
  "replace_all False (seqs [WordB, lit CHR ''I'', Look dg]) (js ''1'') s = fix_I False s"
  using replace_boundary_I [of 0 False s]
  by (simp add: replace_all_def lit_def js_def)

lemma cleanOCRArtifacts_direct:
  "cleanOCRArtifacts t
   = collapse_runs is_space (fix_I False (fix_before 79 48 (fix_before 108 49
       (collapse_runs (\<lambda>c. c = 124) t))))"
  unfolding cleanOCRArtifacts_def replace_pipes replace_l replace_O replace_I replace_spaces ..

subsection \<open>What a substitution leaves fixed\<close>

lemma no_adj_Cons:
  "no_adj R (x # s) = (\<not> next_is (R x) s \<and> no_adj R s)"
  by (cases s) (simp_all add: next_is_def)

lemma next_is_never:
  "(\<And>x. \<not> P x) \<Longrightarrow> \<not> next_is P s"
  by (cases s) (simp_all add: next_is_def)

lemma collapse_runs_fixed:
  "no_adj (\<lambda>a b. Q a \<and> Q b) s \<Longrightarrow> collapse_runs Q s = s"
proof (induction s)
  case Nil
  show ?case by simp
next
  case (Cons y ys)
  then show ?case
    by (cases ys) (auto simp add: next_is_def)
qed

lemma fix_before_fixed:
  "a \<noteq> b \<Longrightarrow> (fix_before a b s = s) = no_adj (\<lambda>x y. x = a \<and> is_digit y) s"
proof (induction s)
  case Nil
  show ?case by simp
next
  case (Cons y ys)
  then show ?case
    by (cases ys) (auto simp add: next_is_def)
qed

lemma fix_I_fixed:
  "no_boundary_I w s \<Longrightarrow> fix_I w s = s"
  by (induction s arbitrary: w) auto

subsection \<open>What a substitution establishes and what it keeps\<close>

lemma no_adj_dropWhile:
  "no_adj R s \<Longrightarrow> no_adj R (dropWhile Q s)"
  by (induction s) (auto simp add: no_adj_Cons)

lemma next_is_collapse_runs:
  "next_is P (collapse_runs Q s) \<Longrightarrow> next_is P s \<or> (P 32 \<and> next_is Q s)"
  by (cases s) (auto simp add: next_is_def split: if_splits)

lemma next_is_collapse_dropWhile:
  "next_is P (collapse_runs Q (dropWhile Q s)) \<Longrightarrow> \<exists>z. P z \<and> \<not> Q z"
proof (induction s)
  case Nil
  then show ?case by (simp add: next_is_def)
next
  case (Cons y ys)
  show ?case
  proof (cases "Q y")
    case True
    with Cons show ?thesis by simp
  next
    case False
    with Cons.prems show ?thesis
      by (auto simp add: next_is_def)
  qed
qed

lemma collapse_runs_no_runs:
  "no_adj (\<lambda>a b. Q a \<and> Q b) (collapse_runs Q s)"
proof (induction Q s rule: collapse_runs.induct)
  case (1 Q)
  show ?case by simp
next
  case (2 Q y ys)
  show ?case
  proof (cases "Q y \<and> next_is Q ys")
    case True
    have "\<not> next_is (\<lambda>b. Q 32 \<and> Q b) (collapse_runs Q (dropWhile Q ys))"
      using next_is_collapse_dropWhile [of "\<lambda>b. Q 32 \<and> Q b" Q ys] by blast
    with True 2(1) show ?thesis
      by (simp add: no_adj_Cons)
  next
    case False
    have "\<not> next_is (\<lambda>b. Q y \<and> Q b) (collapse_runs Q ys)"
    proof
      assume "next_is (\<lambda>b. Q y \<and> Q b) (collapse_runs Q ys)"
      from next_is_collapse_runs [OF this] False show False
        by (cases ys) (auto simp add: next_is_def)
    qed
    with False 2(2) show ?thesis
      by (auto simp add: no_adj_Cons)
  qed
qed

lemma collapse_runs_keeps:
  assumes l: "\<And>x. \<not> R x 32" and r: "\<And>x. \<not> R 32 x"
  shows "no_adj R s \<Longrightarrow> no_adj R (collapse_runs Q s)"
proof (induction Q s rule: collapse_runs.induct)
  case (1 Q)
  show ?case by simp
next
  case (2 Q y ys)
  show ?case
  proof (cases "Q y \<and> next_is Q ys")
    case True
    from 2(3) have "no_adj R (dropWhile Q ys)"
      by (simp add: no_adj_Cons no_adj_dropWhile)
    with True 2(1) have "no_adj R (collapse_runs Q (dropWhile Q ys))"
      by simp
    with True show ?thesis
      by (simp add: no_adj_Cons next_is_never [of "R 32", OF r])
  next
    case False
    from 2(3) have t: "no_adj R ys" and h: "\<not> next_is (R y) ys"
      by (simp_all add: no_adj_Cons)
    have "\<not> next_is (R y) (collapse_runs Q ys)"
      using next_is_collapse_runs [of "R y" Q ys] h l by blast
    with False 2(2) t show ?thesis
      by (auto simp add: no_adj_Cons)
  qed
qed

lemma no_boundary_I_dropWhile:
  "\<forall>c. Q c \<longrightarrow> \<not> is_word c \<Longrightarrow> no_boundary_I False s
   \<Longrightarrow> no_boundary_I False (dropWhile Q s)"
  by (induction s) auto

lemma digit_is_word:
  "is_digit c \<Longrightarrow> is_word c"
  by (simp add: is_word_def)

lemma collapse_runs_keeps_I:
  "\<forall>c. Q c \<longrightarrow> \<not> is_word c \<Longrightarrow> no_boundary_I w s
   \<Longrightarrow> no_boundary_I w (collapse_runs Q s)"
proof (induction Q s arbitrary: w rule: collapse_runs.induct)
  case (1 Q)
  show ?case by simp
next
  case (2 Q y ys)
  note q = 2(3)
  have s: "\<not> is_word 32"
    by (simp add: is_word_def is_digit_def is_upper_def is_lower_def)
  show ?case
  proof (cases "Q y \<and> next_is Q ys")
    case True
    then have "\<not> is_word y"
      using q by simp
    with 2(4) have "no_boundary_I False (dropWhile Q ys)"
      using no_boundary_I_dropWhile [OF q] by simp
    with True 2(1) q have "no_boundary_I False (collapse_runs Q (dropWhile Q ys))"
      by simp
    with True show ?thesis
      by (simp add: s)
  next
    case False
    from 2(4) have t: "no_boundary_I (is_word y) ys"
      and h: "\<not> (\<not> w \<and> y = 73 \<and> next_is is_digit ys)"
      by simp_all
    have d: "next_is is_digit (collapse_runs Q ys) \<Longrightarrow> next_is is_digit ys"
      using next_is_collapse_runs [of is_digit Q ys] digit_is_word s by blast
    from False 2(2) [OF False q t] h d show ?thesis
      by auto
  qed
qed

lemma next_is_collapse_runs_eq:
  "\<forall>c. Q c \<longrightarrow> \<not> P c \<Longrightarrow> \<not> P 32 \<Longrightarrow> next_is P (collapse_runs Q s) = next_is P s"
  by (cases s) (auto simp add: next_is_def)

lemma no_adj_dropWhile_eq:
  "\<forall>x y. R x y \<longrightarrow> \<not> Q x \<Longrightarrow> no_adj R (dropWhile Q s) = no_adj R s"
proof (induction s)
  case Nil
  show ?case by simp
next
  case (Cons y ys)
  show ?case
  proof (cases "Q y")
    case True
    with Cons.prems have "\<not> next_is (R y) ys"
      by (intro next_is_never) auto
    with True Cons show ?thesis
      by (simp add: no_adj_Cons)
  next
    case False
    then show ?thesis by simp
  qed
qed

lemma collapse_runs_adj_eq:
  "\<forall>x y. R x y \<longrightarrow> \<not> Q x \<and> \<not> Q y \<Longrightarrow> \<forall>x. \<not> R x 32 \<and> \<not> R 32 x
   \<Longrightarrow> no_adj R (collapse_runs Q s) = no_adj R s"
proof (induction Q s rule: collapse_runs.induct)
  case (1 Q)
  show ?case by simp
next
  case (2 Q y ys)
  note r = 2(3) and sp = 2(4)
  show ?case
  proof (cases "Q y \<and> next_is Q ys")
    case True
    have a: "\<not> next_is (R 32) (collapse_runs Q (dropWhile Q ys))"
      using sp by (intro next_is_never) auto
    have b: "\<not> next_is (R y) ys"
      using r True by (intro next_is_never) auto
    have "no_adj R (collapse_runs Q (dropWhile Q ys)) = no_adj R (dropWhile Q ys)"
      using 2(1) [OF True r sp] .
    also have "\<dots> = no_adj R ys"
      using r by (intro no_adj_dropWhile_eq) auto
    finally show ?thesis
      using True a b by (simp add: no_adj_Cons)
  next
    case False
    have "next_is (R y) (collapse_runs Q ys) = next_is (R y) ys"
      using r sp by (intro next_is_collapse_runs_eq) auto
    with False 2(2) [OF False r sp] show ?thesis
      by (auto simp add: no_adj_Cons)
  qed
qed

lemma rewritten_l_collapse:
  assumes q: "\<forall>c. Q c \<longrightarrow> \<not> is_word c"
  shows "rewritten_l (collapse_runs Q s) = rewritten_l s"
proof (cases s)
  case Nil
  then show ?thesis by simp
next
  case (Cons y ys)
  have w: "is_word 108" "\<not> is_digit 32"
    by (simp_all add: is_word_def is_lower_def is_digit_def)
  have d: "next_is is_digit (collapse_runs Q ys) = next_is is_digit ys"
    using q digit_is_word w by (intro next_is_collapse_runs_eq) auto
  show ?thesis
    using q w d by (auto simp add: Cons rewritten_l_def)
qed

lemma rewritten_O_collapse:
  assumes q: "\<forall>c. Q c \<longrightarrow> \<not> is_word c"
  shows "rewritten_O (collapse_runs Q s) = rewritten_O s"
proof (cases s)
  case Nil
  then show ?thesis by simp
next
  case (Cons y ys)
  have w: "is_word 79" "\<not> is_digit 32"
    by (simp_all add: is_word_def is_upper_def is_digit_def)
  have d: "next_is is_digit (collapse_runs Q ys) = next_is is_digit ys"
    using q digit_is_word w by (intro next_is_collapse_runs_eq) auto
  show ?thesis
    using q w d by (auto simp add: Cons rewritten_O_def rewritten_l_collapse [OF q])
qed

lemma nowhere_dropWhile_eq:
  "\<forall>c u. Q c \<longrightarrow> \<not> P (c # u) \<Longrightarrow> nowhere P (dropWhile Q s) = nowhere P s"
  by (induction s) auto

lemma no_late_letter_collapse:
  "\<forall>c. Q c \<longrightarrow> \<not> is_word c \<Longrightarrow> nowhere late_letter (collapse_runs Q s) = nowhere late_letter s"
proof (induction Q s rule: collapse_runs.induct)
  case (1 Q)
  show ?case by simp
next
  case (2 Q y ys)
  note q = 2(3)
  have w: "is_word 108" "is_word 79" "\<not> is_word 32"
    by (simp_all add: is_word_def is_lower_def is_upper_def is_digit_def)
  have h: "\<forall>c u. Q c \<longrightarrow> \<not> late_letter (c # u)"
    using q w by (auto simp add: late_letter_def)
  show ?case
  proof (cases "Q y \<and> next_is Q ys")
    case True
    have "nowhere late_letter (collapse_runs Q (dropWhile Q ys)) = nowhere late_letter (dropWhile Q ys)"
      using 2(1) [OF True q] .
    also have "\<dots> = nowhere late_letter ys"
      using h by (rule nowhere_dropWhile_eq)
    finally have e: "nowhere late_letter (collapse_runs Q (dropWhile Q ys)) = nowhere late_letter ys" .
    have a: "\<not> late_letter (32 # collapse_runs Q (dropWhile Q ys))"
      by (simp add: late_letter_def)
    have b: "\<not> late_letter (y # ys)"
      using h True by simp
    show ?thesis
      using True a b e by simp
  next
    case False
    have "late_letter (y # collapse_runs Q ys) = late_letter (y # ys)"
      by (simp add: late_letter_def rewritten_l_collapse [OF q] rewritten_O_collapse [OF q])
    with False 2(2) [OF False q] show ?thesis
      by auto
  qed
qed

subsection \<open>The three letter repairs and the late letters\<close>

lemma next_is_fix_before:
  "next_is P (fix_before a b s)
   = (case s of [] \<Rightarrow> False | y # ys \<Rightarrow> P (if y = a \<and> next_is is_digit ys then b else y))"
  by (cases s) (simp_all add: next_is_def)

lemma next_is_fix_I:
  "next_is P (fix_I w s)
   = (case s of [] \<Rightarrow> False
      | y # ys \<Rightarrow> P (if \<not> w \<and> y = 73 \<and> next_is is_digit ys then 49 else y))"
  by (cases s) (simp_all add: next_is_def)

lemma fix_before_keeps:
  assumes b: "\<And>x. \<not> R x b" "\<And>x. \<not> R b x"
  shows "no_adj R s \<Longrightarrow> no_adj R (fix_before a b s)"
proof (induction s)
  case Nil
  show ?case by simp
next
  case (Cons y ys)
  from Cons.prems have t: "no_adj R ys" and h: "\<not> next_is (R y) ys"
    by (simp_all add: no_adj_Cons)
  have "\<not> next_is (R (if y = a \<and> next_is is_digit ys then b else y)) (fix_before a b ys)"
    using h b by (cases ys) (auto simp add: next_is_def)
  with Cons.IH [OF t] show ?case
    by (simp add: no_adj_Cons)
qed

lemma fix_I_keeps:
  assumes b: "\<And>x. \<not> R x 49" "\<And>x. \<not> R 49 x"
  shows "no_adj R s \<Longrightarrow> no_adj R (fix_I w s)"
proof (induction s arbitrary: w)
  case Nil
  show ?case by simp
next
  case (Cons y ys)
  from Cons.prems have t: "no_adj R ys" and h: "\<not> next_is (R y) ys"
    by (simp_all add: no_adj_Cons)
  have "\<not> next_is (R (if \<not> w \<and> y = 73 \<and> next_is is_digit ys then 49 else y))
          (fix_I (is_word y) ys)"
    using h b by (cases ys) (auto simp add: next_is_def)
  with Cons.IH [OF t] show ?case
    by (simp add: no_adj_Cons)
qed

lemma next_digit_fix_l:
  "next_is is_digit (fix_before 108 49 s) = (next_is is_digit s \<or> rewritten_l s)"
  by (cases s) (auto simp add: next_is_def rewritten_l_def is_digit_def)

lemma O_before_digit_fix_l:
  "O_before_digit (fix_before 108 49 s) = rewritten_O s"
  by (cases s) (auto simp add: O_before_digit_def rewritten_O_def next_digit_fix_l)

lemma fix_l_late_letter:
  "(no_adj (\<lambda>x y. x = 108 \<and> is_digit y) (fix_before 108 49 s)
      \<and> nowhere letter_before_O (fix_before 108 49 s))
   = nowhere late_letter s"
proof (induction s)
  case Nil
  show ?case by simp
next
  case (Cons y ys)
  have "(next_is (\<lambda>z. (if y = 108 \<and> next_is is_digit ys then 49 else y) = 108 \<and> is_digit z)
            (fix_before 108 49 ys)
         \<or> letter_before_O ((if y = 108 \<and> next_is is_digit ys then 49 else y) # fix_before 108 49 ys))
       = late_letter (y # ys)"
  proof -
    have n: "next_is (\<lambda>z. c \<and> is_digit z) u = (c \<and> next_is is_digit u)" for c u
      by (cases u) (simp_all add: next_is_def)
    have r: "rewritten_l ys \<Longrightarrow> \<not> next_is is_digit ys" "rewritten_O ys \<Longrightarrow> \<not> next_is is_digit ys"
      by (cases ys; auto simp add: rewritten_l_def rewritten_O_def next_is_def is_digit_def)+
    show ?thesis
      using r by (auto simp add: n next_digit_fix_l letter_before_O_def O_before_digit_fix_l
          late_letter_def)
  qed
  with Cons.IH show ?case
    by (auto simp add: no_adj_Cons)
qed

lemma next_digit_fix_O:
  "next_is is_digit (fix_before 79 48 s) = (next_is is_digit s \<or> O_before_digit s)"
  by (cases s) (auto simp add: next_is_def O_before_digit_def is_digit_def)

lemma fix_O_late_letter:
  "(no_adj (\<lambda>x y. x = 108 \<and> is_digit y) (fix_before 79 48 s)
      \<and> no_adj (\<lambda>x y. x = 79 \<and> is_digit y) (fix_before 79 48 s))
   = (no_adj (\<lambda>x y. x = 108 \<and> is_digit y) s \<and> nowhere letter_before_O s)"
proof (induction s)
  case Nil
  show ?case by simp
next
  case (Cons y ys)
  have n: "next_is (\<lambda>z. c \<and> is_digit z) u = (c \<and> next_is is_digit u)" for c u
    by (cases u) (simp_all add: next_is_def)
  have r: "O_before_digit ys \<Longrightarrow> \<not> next_is is_digit ys"
    by (cases ys) (auto simp add: O_before_digit_def next_is_def is_digit_def)
  have "(next_is (\<lambda>z. (if y = 79 \<and> next_is is_digit ys then 48 else y) = 108 \<and> is_digit z)
            (fix_before 79 48 ys)
         \<or> next_is (\<lambda>z. (if y = 79 \<and> next_is is_digit ys then 48 else y) = 79 \<and> is_digit z)
            (fix_before 79 48 ys))
       = (next_is (\<lambda>z. y = 108 \<and> is_digit z) ys \<or> letter_before_O (y # ys))"
    using r by (auto simp add: n next_digit_fix_O letter_before_O_def)
  with Cons.IH show ?case
    by (auto simp add: no_adj_Cons)
qed

lemma fix_I_letter_before_digit:
  assumes a: "is_word a" "a \<noteq> 73" "a \<noteq> 49"
  shows "no_adj (\<lambda>x y. x = a \<and> is_digit y) (fix_I w s) = no_adj (\<lambda>x y. x = a \<and> is_digit y) s"
proof (induction s arbitrary: w)
  case Nil
  show ?case by simp
next
  case (Cons y ys)
  have "next_is (\<lambda>z. (if \<not> w \<and> y = 73 \<and> next_is is_digit ys then 49 else y) = a \<and> is_digit z)
          (fix_I (is_word y) ys)
        = next_is (\<lambda>z. y = a \<and> is_digit z) ys"
    using a by (cases ys) (auto simp add: next_is_def)
  with Cons.IH [of "is_word y"] show ?case
    by (simp add: no_adj_Cons)
qed

lemma fix_I_no_boundary_I:
  "no_boundary_I w (fix_I w s)"
proof (induction s arbitrary: w)
  case Nil
  show ?case by simp
next
  case (Cons y ys)
  have i: "is_word 73" "is_word 49" "\<not> is_digit 73"
    by (simp_all add: is_word_def is_upper_def is_digit_def)
  have "\<not> (\<not> w \<and> (if \<not> w \<and> y = 73 \<and> next_is is_digit ys then 49 else y) = 73
          \<and> next_is is_digit (fix_I (is_word y) ys))"
    using i by (cases ys) (auto simp add: next_is_def)
  moreover have "is_word (if \<not> w \<and> y = 73 \<and> next_is is_digit ys then 49 else y) = is_word y"
    using i by simp
  ultimately show ?case
    using Cons.IH [of "is_word y"] by simp
qed

subsection \<open>A repair that changes a letter changes the text\<close>

lemma count_fix_before_other:
  "c \<noteq> a \<Longrightarrow> c \<noteq> b \<Longrightarrow> count_list (fix_before a b s) c = count_list s c"
  by (induction s) auto

lemma count_fix_I_other:
  "c \<noteq> 73 \<Longrightarrow> c \<noteq> 49 \<Longrightarrow> count_list (fix_I w s) c = count_list s c"
  by (induction s arbitrary: w) auto

lemma count_fix_before_le:
  "a \<noteq> b \<Longrightarrow> count_list (fix_before a b s) a \<le> count_list s a"
  by (induction s) auto

lemma count_fix_before_eq:
  "a \<noteq> b \<Longrightarrow> count_list (fix_before a b s) a = count_list s a \<Longrightarrow> fix_before a b s = s"
proof (induction s)
  case Nil
  show ?case by simp
next
  case (Cons y ys)
  from count_fix_before_le [OF Cons.prems(1), of ys] Cons.prems
  have "count_list (fix_before a b ys) a = count_list ys a \<and> \<not> (y = a \<and> next_is is_digit ys)"
    by (auto split: if_splits)
  with Cons.IH [OF Cons.prems(1)] show ?case
    by auto
qed

subsection \<open>The repair on its own output\<close>

lemma repaired_text_fixed:
  assumes d: "no_adj (\<lambda>a b. a = 124 \<and> b = 124) c"
    and e: "no_adj (\<lambda>a b. is_space a \<and> is_space b) c"
    and i: "no_boundary_I False c"
  shows "(cleanOCRArtifacts c = c)
    = (no_adj (\<lambda>x y. x = 108 \<and> is_digit y) c \<and> no_adj (\<lambda>x y. x = 79 \<and> is_digit y) c)"
proof -
  let ?z = "fix_I False (fix_before 79 48 (fix_before 108 49 c))"
  have sp: "\<not> is_space 49" "\<not> is_space 48"
    by (simp_all add: is_space_def)
  have "no_adj (\<lambda>a b. is_space a \<and> is_space b) ?z"
    using e sp by (intro fix_I_keeps fix_before_keeps) simp_all
  then have "collapse_runs is_space ?z = ?z"
    by (rule collapse_runs_fixed)
  then have c: "cleanOCRArtifacts c = ?z"
    by (simp add: cleanOCRArtifacts_direct collapse_runs_fixed [OF d])
  show ?thesis
  proof
    assume "cleanOCRArtifacts c = c"
    with c have z: "?z = c"
      by simp
    have "count_list (fix_before 108 49 c) 108 = count_list ?z 108"
      by (simp add: count_fix_I_other count_fix_before_other)
    with z have "fix_before 108 49 c = c"
      by (intro count_fix_before_eq) simp_all
    moreover from this z have z': "fix_I False (fix_before 79 48 c) = c"
      by simp
    have "count_list (fix_before 79 48 c) 79 = count_list (fix_I False (fix_before 79 48 c)) 79"
      by (simp add: count_fix_I_other)
    with z' have "fix_before 79 48 c = c"
      by (intro count_fix_before_eq) simp_all
    ultimately show "no_adj (\<lambda>x y. x = 108 \<and> is_digit y) c \<and> no_adj (\<lambda>x y. x = 79 \<and> is_digit y) c"
      using fix_before_fixed [of 108 49 c] fix_before_fixed [of 79 48 c] by simp
  next
    assume "no_adj (\<lambda>x y. x = 108 \<and> is_digit y) c \<and> no_adj (\<lambda>x y. x = 79 \<and> is_digit y) c"
    then have "fix_before 108 49 c = c" "fix_before 79 48 c = c"
      using fix_before_fixed [of 108 49 c] fix_before_fixed [of 79 48 c] by simp_all
    with c i show "cleanOCRArtifacts c = c"
      by (simp add: fix_I_fixed)
  qed
qed

lemma cleanOCRArtifacts_twice:
  "(cleanOCRArtifacts (cleanOCRArtifacts t) = cleanOCRArtifacts t) = nowhere late_letter t"
proof -
  let ?A = "\<lambda>x y. x = (108 :: cu) \<and> is_digit y"
  let ?B = "\<lambda>x y. x = (79 :: cu) \<and> is_digit y"
  let ?D = "\<lambda>a b. a = (124 :: cu) \<and> b = (124 :: cu)"
  let ?E = "\<lambda>a b. is_space a \<and> is_space b"
  define x1 where "x1 = collapse_runs (\<lambda>c. c = 124) t"
  define x2 where "x2 = fix_before 108 49 x1"
  define x3 where "x3 = fix_before 79 48 x2"
  define x4 where "x4 = fix_I False x3"
  define x5 where "x5 = collapse_runs is_space x4"
  have c: "cleanOCRArtifacts t = x5"
    by (simp add: cleanOCRArtifacts_direct x1_def x2_def x3_def x4_def x5_def)
  have sp: "\<forall>c. is_space c \<longrightarrow> \<not> is_word c"
    by (auto simp add: is_space_def is_word_def is_digit_def is_upper_def is_lower_def)
  have pipe: "\<forall>c. c = 124 \<longrightarrow> \<not> is_word c"
    by (simp add: is_word_def is_digit_def is_upper_def is_lower_def)
  have w: "is_word 108" "is_word 79"
    by (simp_all add: is_word_def is_digit_def is_upper_def is_lower_def)
  have d1: "no_adj ?D x1"
    unfolding x1_def by (rule collapse_runs_no_runs)
  have d2: "no_adj ?D x2"
    unfolding x2_def using d1 by (intro fix_before_keeps) simp_all
  have d3: "no_adj ?D x3"
    unfolding x3_def using d2 by (intro fix_before_keeps) simp_all
  have d4: "no_adj ?D x4"
    unfolding x4_def using d3 by (intro fix_I_keeps) simp_all
  have d5: "no_adj ?D x5"
    unfolding x5_def using d4 by (intro collapse_runs_keeps) simp_all
  have i4: "no_boundary_I False x4"
    unfolding x4_def by (rule fix_I_no_boundary_I)
  have i5: "no_boundary_I False x5"
    unfolding x5_def by (rule collapse_runs_keeps_I [OF sp i4])
  have e5: "no_adj ?E x5"
    unfolding x5_def by (rule collapse_runs_no_runs)
  have a5: "no_adj ?A x5 = no_adj ?A x4"
    unfolding x5_def
    by (intro collapse_runs_adj_eq) (auto simp add: is_space_def is_digit_def)
  have b5: "no_adj ?B x5 = no_adj ?B x4"
    unfolding x5_def
    by (intro collapse_runs_adj_eq) (auto simp add: is_space_def is_digit_def)
  have a4: "no_adj ?A x4 = no_adj ?A x3"
    unfolding x4_def using w by (intro fix_I_letter_before_digit) simp_all
  have b4: "no_adj ?B x4 = no_adj ?B x3"
    unfolding x4_def using w by (intro fix_I_letter_before_digit) simp_all
  have ab3: "(no_adj ?A x3 \<and> no_adj ?B x3) = (no_adj ?A x2 \<and> nowhere letter_before_O x2)"
    unfolding x3_def by (rule fix_O_late_letter)
  have ab2: "(no_adj ?A x2 \<and> nowhere letter_before_O x2) = nowhere late_letter x1"
    unfolding x2_def by (rule fix_l_late_letter)
  have l1: "nowhere late_letter x1 = nowhere late_letter t"
    unfolding x1_def using pipe by (rule no_late_letter_collapse)
  have "(cleanOCRArtifacts x5 = x5) = (no_adj ?A x5 \<and> no_adj ?B x5)"
    using d5 e5 i5 by (rule repaired_text_fixed)
  also have "\<dots> = nowhere late_letter t"
    unfolding a5 b5 a4 b4 ab3 ab2 l1 ..
  finally show ?thesis
    by (simp only: c)
qed

text \<open>
  C2, amended. The OCR repair changes nothing when it runs a second time exactly on the
  texts without a late letter, that is, without an \<open>l\<close> or \<open>O\<close> that the repair leaves
  standing before a letter that it rewrites to a digit. On such a text the bank and the tax
  extractor, which run the repair first, give on the repaired text the result they give on
  the text itself. The assembly gives on the repaired page the result it gives on the page
  itself when the page has no late letter or is of type \<open>unknown\<close>, the classifier, which
  reads the text before the repair, gives the same type and confidence on both and, for a
  scanned document, the count of readable words falls on the same side of the threshold
  of 20.
\<close>

theorem cleanOCRArtifacts_idempotent:
  "(cleanOCRArtifacts (cleanOCRArtifacts t) = cleanOCRArtifacts t) = no_late_letter t
   \<and> (no_late_letter t \<longrightarrow>
        extractBankStatement now native pageTexts (cleanOCRArtifacts t)
          = extractBankStatement now native pageTexts t
        \<and> extractTaxStatement now native pageTexts (cleanOCRArtifacts t)
          = extractTaxStatement now native pageTexts t)
   \<and> ((no_late_letter t \<or> documentType (classifyDocument t originalName) = unknown)
        \<and> documentType (classifyDocument (cleanOCRArtifacts t) originalName)
            = documentType (classifyDocument t originalName)
        \<and> confidence (classifyDocument (cleanOCRArtifacts t) originalName)
            = confidence (classifyDocument t originalName)
        \<and> (isScanned \<longrightarrow>
              (length (filter (\<lambda>w. 2 < length w)
                 (split False (plus1 ws) (cleanOCRArtifacts t))) < 20)
              = (length (filter (\<lambda>w. 2 < length w) (split False (plus1 ws) t)) < 20))
      \<longrightarrow> processCore now native validateResult isScanned [cleanOCRArtifacts t] originalName
          = processCore now native validateResult isScanned [t] originalName)"
proof -
  have idem: "cleanOCRArtifacts (cleanOCRArtifacts t) = cleanOCRArtifacts t" if "no_late_letter t"
    using that cleanOCRArtifacts_twice [of t] by (simp add: no_late_letter_def)
  have bank: "extractBankStatement now native ps (cleanOCRArtifacts t)
      = extractBankStatement now native ps' t" if "no_late_letter t" for ps ps'
    unfolding extractBankStatement_def idem [OF that] ..
  have tax: "extractTaxStatement now native ps (cleanOCRArtifacts t)
      = extractTaxStatement now native ps' t" if "no_late_letter t" for ps ps'
    unfolding extractTaxStatement_def idem [OF that] ..
  have core: "processCore now native validateResult isScanned [cleanOCRArtifacts t] originalName
      = processCore now native validateResult isScanned [t] originalName"
    if l: "no_late_letter t \<or> documentType (classifyDocument t originalName) = unknown"
      and v: "documentType (classifyDocument (cleanOCRArtifacts t) originalName)
          = documentType (classifyDocument t originalName)"
      and k: "confidence (classifyDocument (cleanOCRArtifacts t) originalName)
          = confidence (classifyDocument t originalName)"
      and q: "isScanned \<longrightarrow>
          (length (filter (\<lambda>w. 2 < length w) (split False (plus1 ws) (cleanOCRArtifacts t))) < 20)
          = (length (filter (\<lambda>w. 2 < length w) (split False (plus1 ws) t)) < 20)"
  proof -
    have w: "(isScanned
          \<and> length (filter (\<lambda>w. 2 < length w) (split False (plus1 ws) (cleanOCRArtifacts t))) < 20)
        = (isScanned \<and> length (filter (\<lambda>w. 2 < length w) (split False (plus1 ws) t)) < 20)"
      using q by blast
    from l show ?thesis
    proof
      assume n: "no_late_letter t"
      show ?thesis
        unfolding processCore_def join.simps Let_def v k w
          bank [OF n, of "[cleanOCRArtifacts t]" "[t]"] tax [OF n, of "[cleanOCRArtifacts t]" "[t]"] ..
    next
      assume u: "documentType (classifyDocument t originalName) = unknown"
      show ?thesis
        unfolding processCore_def join.simps Let_def v k w u by simp
    qed
  qed
  from cleanOCRArtifacts_twice [of t] bank tax core show ?thesis
    unfolding no_late_letter_def [symmetric] by blast
qed

theorem cleanOCRArtifacts_idempotent_witness:
  "no_late_letter (js ''A/c ||| No:  l23 O5 I7 Ol9 Bill'')
   \<and> cleanOCRArtifacts (js ''A/c ||| No:  l23 O5 I7 Ol9 Bill'') = js ''A/c No: 123 05 17 019 Bill''
   \<and> cleanOCRArtifacts (cleanOCRArtifacts (js ''A/c ||| No:  l23 O5 I7 Ol9 Bill''))
       = cleanOCRArtifacts (js ''A/c ||| No:  l23 O5 I7 Ol9 Bill'')
   \<and> extractBankStatement \<lparr>year = 2024, month = 0, day = 1\<rparr> (\<lambda>s. None) []
         (cleanOCRArtifacts (js ''A/c ||| No:  l23 O5 I7 Ol9 Bill''))
       = extractBankStatement \<lparr>year = 2024, month = 0, day = 1\<rparr> (\<lambda>s. None) []
           (js ''A/c ||| No:  l23 O5 I7 Ol9 Bill'')
   \<and> extractTaxStatement \<lparr>year = 2024, month = 0, day = 1\<rparr> (\<lambda>s. None) []
         (cleanOCRArtifacts (js ''A/c ||| No:  l23 O5 I7 Ol9 Bill''))
       = extractTaxStatement \<lparr>year = 2024, month = 0, day = 1\<rparr> (\<lambda>s. None) []
           (js ''A/c ||| No:  l23 O5 I7 Ol9 Bill'')
   \<and> processCore \<lparr>year = 2024, month = 0, day = 1\<rparr> (\<lambda>s. None) (\<lambda>r d. (True, [])) True
         [cleanOCRArtifacts (js ''A/c ||| No:  l23 O5 I7 Ol9 Bill'')] (js ''bank.pdf'')
       = processCore \<lparr>year = 2024, month = 0, day = 1\<rparr> (\<lambda>s. None) (\<lambda>r d. (True, [])) True
           [js ''A/c ||| No:  l23 O5 I7 Ol9 Bill''] (js ''bank.pdf'')"
proof -
  let ?t = "js ''A/c ||| No:  l23 O5 I7 Ol9 Bill''"
  have h: "no_late_letter ?t"
    by code_simp
  have v: "cleanOCRArtifacts ?t = js ''A/c No: 123 05 17 019 Bill''"
    by code_simp
  have k: "documentType (classifyDocument (cleanOCRArtifacts ?t) (js ''bank.pdf''))
        = documentType (classifyDocument ?t (js ''bank.pdf''))
      \<and> confidence (classifyDocument (cleanOCRArtifacts ?t) (js ''bank.pdf''))
        = confidence (classifyDocument ?t (js ''bank.pdf''))"
    by code_simp
  have q: "True \<longrightarrow>
      (length (filter (\<lambda>w. 2 < length w) (split False (plus1 ws) (cleanOCRArtifacts ?t))) < 20)
      = (length (filter (\<lambda>w. 2 < length w) (split False (plus1 ws) ?t)) < 20)"
    by code_simp
  from cleanOCRArtifacts_idempotent [of ?t "\<lparr>year = 2024, month = 0, day = 1\<rparr>" "\<lambda>s. None" "[]"
      "js ''bank.pdf''" True "\<lambda>r d. (True, [])"] h v k q
  show ?thesis
    by blast
qed

end
